(* ===== verification/Evm_Prelude.thy ===== *)
theory Evm_Prelude
  imports Main "HOL-Library.Word"
begin

text \<open>
  The vocabulary every component shares: machine types of the C sources, results of C
  functions, and the arithmetic of big-endian byte strings.

  \<^item> \<open>byte\<close>, \<open>u64\<close> and \<open>size_t\<close> are the C integer types at their width; arithmetic on them
    wraps as it does in C.
  \<^item> A C function that returns 0 or -1 and writes an out parameter becomes a function into
    \<open>cerror + 'a\<close>. \<open>Inl RcError\<close> is the error return, \<open>Inl OutOfBounds\<close> a memory access
    outside the object it was derived from (undefined behaviour in C), \<open>Inl Diverges\<close> a loop
    that never ends, \<open>Inl DivideByZero\<close> an integer division that traps. \<open>bindE\<close> is the sequencing that stops at the first of them.
  \<^item> \<open>be_val\<close> reads a byte string as a big-endian number, which is how balances, storage words
    and RLP integers are laid out.
\<close>

unbundle bit_operations_syntax

subsection \<open>Machine types\<close>

type_synonym byte = "8 word"
type_synonym bytes = "8 word list"
type_synonym u64 = "64 word"
type_synonym size_t = "64 word"

text \<open>The value of \<open>(int)n\<close> for a size \<open>n\<close>: reduced to 32 bits, read as two's complement.\<close>

definition c_int :: "nat \<Rightarrow> int" where
  "c_int n = sint (word_of_nat n :: 32 word)"

named_theorems bytes_simps \<open>values of big-endian byte strings\<close>

named_theorems cres_simps \<open>sequencing of fallible C calls\<close>

subsection \<open>Results of C functions\<close>

datatype cerror = RcError | OutOfBounds | Diverges | DivideByZero

type_synonym 'a cres = "cerror + 'a"

definition bindE :: "'e + 'a \<Rightarrow> ('a \<Rightarrow> 'e + 'b) \<Rightarrow> 'e + 'b" where
  "bindE m f = (case m of Inl e \<Rightarrow> Inl e | Inr x \<Rightarrow> f x)"

lemma bindE_Inr [simp, cres_simps]: "bindE (Inr x) f = f x"
  by (simp add: bindE_def)

lemma bindE_Inl [simp, cres_simps]: "bindE (Inl e) f = Inl e"
  by (simp add: bindE_def)

lemma bindE_Inr_right [simp, cres_simps]: "bindE m Inr = m"
  by (cases m) (auto simp: bindE_def)

lemma bindE_eq_Inr [cres_simps]: "bindE m f = Inr y \<longleftrightarrow> (\<exists>x. m = Inr x \<and> f x = Inr y)"
  by (cases m) (auto simp: bindE_def)

lemma bindE_assoc: "bindE (bindE m f) g = bindE m (\<lambda>x. bindE (f x) g)"
  by (cases m) (auto simp: bindE_def)

lemma bindE_cong [fundef_cong]:
  "m = m' \<Longrightarrow> (\<And>x. m' = Inr x \<Longrightarrow> f x = f' x) \<Longrightarrow> bindE m f = bindE m' f'"
  by (auto simp: bindE_def split: sum.splits)

subsection \<open>Small integers\<close>

lemma c_int_small:
  assumes "n < 2 ^ 31"
  shows "c_int n = int n"
  using assms unfolding c_int_def
  by (simp add: signed_of_nat signed_take_bit_int_eq_self)

lemma unat_word_of_nat64:
  assumes "n < 2 ^ 64"
  shows "unat (word_of_nat n :: u64) = n"
  using assms by (simp add: unat_of_nat)

lemma byte_lt_256 [simp]: "unat (b :: byte) < 256"
  using unsigned_less [of b] by simp

lemma uint_byte: "0 \<le> uint (b :: byte) \<and> uint b < 256"
  using unsigned_less [of b, where ?'a = int] by simp

text \<open>Shifting in new low bits, \<open>(acc << k) | v\<close>, is multiplication and addition.\<close>

lemma word_shift_or:
  fixes a v :: "'a::len word"
  assumes "unat v < 2 ^ k"
  shows "push_bit k a OR v = a * 2 ^ k + v"
proof -
  have v: "v = take_bit k v"
    using assms
    by (metis take_bit_nat_eq_self unsigned_take_bit_eq word_unat_eq_iff)
  have "push_bit k a OR take_bit k v = push_bit k a + take_bit k v"
    by (rule disjunctive_add [symmetric]) (auto simp: bit_simps)
  with v show ?thesis by (simp add: push_bit_eq_mult)
qed

subsection \<open>Big-endian byte strings\<close>

definition be_val :: "bytes \<Rightarrow> nat" where
  "be_val bs = foldl (\<lambda>acc b. acc * 256 + unat b) 0 bs"

lemma foldl_be_val:
  "foldl (\<lambda>acc b. acc * 256 + unat (b :: byte)) n bs = n * 256 ^ length bs + be_val bs"
proof (induction bs arbitrary: n)
  case Nil
  then show ?case by (simp add: be_val_def)
next
  case (Cons b bs)
  show ?case
    using Cons [of "n * 256 + unat b"] Cons [of "unat b"]
    by (simp add: be_val_def algebra_simps)
qed

lemma be_val_Nil [simp, bytes_simps]: "be_val [] = 0"
  by (simp add: be_val_def)

lemma be_val_Cons [bytes_simps]: "be_val (b # bs) = unat b * 256 ^ length bs + be_val bs"
  using foldl_be_val [of "unat b" bs] by (simp add: be_val_def)

lemma be_val_append [bytes_simps]:
  "be_val (xs @ ys) = be_val xs * 256 ^ length ys + be_val ys"
  using foldl_be_val [of "be_val xs" ys] by (simp add: be_val_def)

lemma be_val_replicate_0 [simp, bytes_simps]: "be_val (replicate n 0) = 0"
  by (induction n) (simp_all add: be_val_Cons)

lemma be_val_less: "be_val bs < 256 ^ length bs"
proof (induction bs)
  case Nil
  then show ?case by simp
next
  case (Cons b bs)
  have "unat b * 256 ^ length bs + be_val bs < (unat b + 1) * 256 ^ length bs"
    using Cons by simp
  also have "\<dots> \<le> 256 * 256 ^ length bs"
    by (rule mult_right_mono) (use byte_lt_256 [of b] in linarith, simp)
  finally show ?case by (simp add: be_val_Cons)
qed

lemma be_val_inject:
  assumes "length xs = length ys" and "be_val xs = be_val ys"
  shows "xs = ys"
  using assms
proof (induction xs ys rule: list_induct2)
  case Nil
  then show ?case by simp
next
  case (Cons x xs y ys)
  let ?p = "256 ^ length ys :: nat"
  have eq: "unat x * ?p + be_val xs = unat y * ?p + be_val ys"
    using Cons.prems Cons.hyps by (simp add: be_val_Cons)
  have lt: "be_val xs < ?p" "be_val ys < ?p"
    using be_val_less [of xs] be_val_less [of ys] Cons.hyps by simp_all
  have "unat x = (unat x * ?p + be_val xs) div ?p" using lt by simp
  also have "\<dots> = (unat y * ?p + be_val ys) div ?p" by (simp only: eq)
  also have "\<dots> = unat y" using lt by simp
  finally have "unat x = unat y" .
  moreover from this eq have "be_val xs = be_val ys" by simp
  ultimately show ?case using Cons.IH by (simp add: word_unat_eq_iff)
qed

lemma be_val_eq_iff: "length xs = length ys \<Longrightarrow> be_val xs = be_val ys \<longleftrightarrow> xs = ys"
  using be_val_inject by blast

lemma be_val_0_iff: "be_val bs = 0 \<longleftrightarrow> (\<forall>b \<in> set bs. b = 0)"
  by (induction bs) (auto simp: be_val_Cons unat_eq_zero)

text \<open>The low \<open>k\<close> bytes of a number, big-endian.\<close>

fun be_bytes :: "nat \<Rightarrow> nat \<Rightarrow> bytes" where
  "be_bytes 0 n = []"
| "be_bytes (Suc k) n = be_bytes k (n div 256) @ [word_of_nat n]"

lemma length_be_bytes [simp, bytes_simps]: "length (be_bytes k n) = k"
  by (induction k n rule: be_bytes.induct) auto

lemma be_val_be_bytes [bytes_simps]: "be_val (be_bytes k n) = n mod 256 ^ k"
proof (induction k n rule: be_bytes.induct)
  case (1 n)
  then show ?case by simp
next
  case (2 k n)
  then show ?case
    by (simp add: be_val_append be_val_Cons unat_of_nat mod_mult2_eq)
qed

lemma be_bytes_be_val [bytes_simps]: "be_bytes (length bs) (be_val bs) = bs"
  by (rule be_val_inject) (simp_all add: be_val_be_bytes be_val_less)

text \<open>The big-endian bytes of a number without leading zeros.\<close>

fun be_min :: "nat \<Rightarrow> bytes" where
  "be_min n = (if n = 0 then [] else be_min (n div 256) @ [word_of_nat n])"

declare be_min.simps [simp del]

lemma be_min_0 [simp]: "be_min 0 = []"
  by (simp add: be_min.simps)

lemma be_min_eq_Nil_iff [simp]: "be_min n = [] \<longleftrightarrow> n = 0"
  by (subst be_min.simps) simp

lemma be_val_be_min [simp, bytes_simps]: "be_val (be_min n) = n"
proof (induction n rule: be_min.induct)
  case (1 n)
  then show ?case
    by (subst be_min.simps) (auto simp: be_val_append be_val_Cons unat_of_nat)
qed

lemma length_be_min: "n < 256 ^ k \<Longrightarrow> length (be_min n) \<le> k"
proof (induction k arbitrary: n)
  case 0
  then show ?case by simp
next
  case (Suc k)
  then have "n div 256 < 256 ^ k" by (simp add: less_mult_imp_div_less mult.commute)
  then have "length (be_min (n div 256)) \<le> k" by (rule Suc.IH)
  then show ?case by (subst be_min.simps) simp
qed

lemma hd_be_min: "0 < n \<Longrightarrow> hd (be_min n) \<noteq> 0"
proof (induction n rule: be_min.induct)
  case (1 n)
  show ?case
  proof (cases "n < 256")
    case True
    with "1.prems" have "(word_of_nat n :: byte) \<noteq> 0"
      by (auto simp: word_unat_eq_iff unat_of_nat)
    with True "1.prems" show ?thesis by (subst be_min.simps) simp
  next
    case False
    with 1 have "hd (be_min (n div 256)) \<noteq> 0" by (simp add: div_greater_zero_iff)
    with False show ?thesis by (subst be_min.simps) (simp add: div_eq_0_iff)
  qed
qed

lemma be_min_be_val: "be_min (be_val bs) = dropWhile (\<lambda>b. b = 0) bs"
proof -
  let ?z = "takeWhile (\<lambda>b. b = 0) bs" and ?m = "dropWhile (\<lambda>b. b = 0) bs"
  have "be_val ?z = 0" by (auto simp: be_val_0_iff dest: set_takeWhileD)
  then have val: "be_val bs = be_val ?m"
    using be_val_append [of ?z ?m] by simp
  have "be_min (be_val ?m) = ?m" if m: "?m \<noteq> []"
  proof (rule ccontr)
    assume "be_min (be_val ?m) \<noteq> ?m"
    then have ne: "length (be_min (be_val ?m)) \<noteq> length ?m"
      using be_val_inject [of "be_min (be_val ?m)" ?m] by auto
    have "length (be_min (be_val ?m)) \<le> length ?m"
      using be_val_less by (rule length_be_min)
    with ne have "length (be_min (be_val ?m)) \<le> length (tl ?m)" by simp
    then have "be_val (be_min (be_val ?m)) < 256 ^ length (tl ?m)"
      using be_val_less [of "be_min (be_val ?m)"]
      by (meson less_le_trans one_le_numeral power_increasing)
    moreover obtain b cs where b: "?m = b # cs" "b \<noteq> 0"
      using m hd_dropWhile [OF m] by (cases ?m) simp_all
    ultimately have "be_val ?m < 256 ^ length cs" by simp
    moreover have "1 * 256 ^ length cs \<le> unat b * 256 ^ length cs"
      using b(2) by (intro mult_right_mono) (simp_all add: unat_gt_0 Suc_leI)
    ultimately show False using b(1) by (simp add: be_val_Cons)
  qed
  then have "be_min (be_val ?m) = ?m"
    by (metis be_min_0 be_val_Nil)
  then show ?thesis by (simp only: val)
qed

lemma ucast_drop_bit_byte: "(ucast (drop_bit k v) :: byte) = word_of_nat (unat (v :: u64) div 2 ^ k)"
  by (metis of_nat_unat unat_drop_bit_eq drop_bit_eq_div)

lemma be_bytes_Suc_left: "be_bytes (Suc k) n = word_of_nat (n div 256 ^ k) # be_bytes k n"
  by (induction k arbitrary: n) (simp_all add: div_mult2_eq)

lemma unat_lt_2p64 [simp]: "unat (v :: u64) < 18446744073709551616"
  using unsigned_less [of v, where ?'a = nat] by simp

subsection \<open>Encoders and decoders\<close>

text \<open>
  The contract of an encoder with its decoder: what was encoded from a valid value decodes to
  that value. Hex strings, decimal numbers, RLP items and little-endian lanes are instances.
\<close>

locale codec =
  fixes enc :: "'a \<Rightarrow> 'b"
    and dec :: "'b \<Rightarrow> 'a option"
    and valid :: "'a \<Rightarrow> bool"
  assumes dec_enc: "valid x \<Longrightarrow> dec (enc x) = Some x"
begin

lemma enc_inject: "valid x \<Longrightarrow> valid y \<Longrightarrow> enc x = enc y \<longleftrightarrow> x = y"
  using dec_enc by (metis option.inject)

lemma inj_on_enc: "inj_on enc (Collect valid)"
  by (auto intro!: inj_onI simp: enc_inject)

end

end
