(* ===== verification/Evm_Clib.thy ===== *)
theory Evm_Clib
  imports Evm_Prelude
begin

text \<open>
  What the sources use of the C standard library, on strings as \<open>char list\<close>: the string a
  NUL-terminated buffer holds (\<open>cstr\<close>), the digits \<open>printf\<close> writes for \<open>%llu\<close> and \<open>%llx\<close>
  (\<open>print_base\<close>), \<open>snprintf\<close>'s cut at the size of its buffer, \<open>strtoull\<close> with its base
  detection and saturation, \<open>strstr\<close>, \<open>isdigit\<close>, \<open>isspace\<close> and the sign of \<open>memcmp\<close>.
  The main lemma is that \<open>strtoull\<close> reads back what \<open>printf\<close> printed.
\<close>

subsection \<open>Characters and NUL-terminated strings\<close>

definition NUL :: char where
  "NUL = CHR 0x00"

definition cstr :: "string \<Rightarrow> string" where
  "cstr s = takeWhile (\<lambda>c. c \<noteq> NUL) s"

definition byte_to_char :: "byte \<Rightarrow> char" where
  "byte_to_char b = char_of (unat b)"

definition char_to_byte :: "char \<Rightarrow> byte" where
  "char_to_byte c = word_of_nat (of_char c)"

definition isdigit :: "char \<Rightarrow> bool" where
  "isdigit c \<longleftrightarrow> (of_char (CHR ''0'') :: nat) \<le> of_char c \<and> (of_char c :: nat) \<le> of_char (CHR ''9'')"

definition isspace :: "char \<Rightarrow> bool" where
  "isspace c \<longleftrightarrow> c \<in> {CHR '' '', CHR 0x09, CHR 0x0A, CHR 0x0B, CHR 0x0C, CHR 0x0D}"

lemma char_to_byte_to_char [simp]: "char_to_byte (byte_to_char b) = b"
  by (simp add: char_to_byte_def byte_to_char_def)

lemma byte_to_char_to_byte [simp]: "byte_to_char (char_to_byte c) = c"
proof -
  have "(of_char c :: nat) < 256" by (metis of_char_mod_256 mod_less_divisor zero_less_numeral)
  then show ?thesis by (simp add: char_to_byte_def byte_to_char_def unat_of_nat)
qed

lemma map_char_to_byte_to_char [simp]: "map char_to_byte (map byte_to_char bs) = bs"
  by (simp add: comp_def)

lemma map_byte_to_char_to_byte [simp]: "map byte_to_char (map char_to_byte s) = s"
  by (simp add: comp_def)

lemma cstr_ident: "NUL \<notin> set s \<Longrightarrow> cstr s = s"
  by (auto simp: cstr_def takeWhile_eq_all_conv)

subsection \<open>Printing numbers\<close>

definition hex_chars :: string where
  "hex_chars = ''0123456789abcdef''"

text \<open>The digits of \<open>n\<close> in base \<open>b\<close>, most significant first: \<open>%llu\<close> is base 10, \<open>%llx\<close> base 16.\<close>

function print_base :: "nat \<Rightarrow> nat \<Rightarrow> string" where
  "print_base b n =
     (if n < b \<or> b < 2 then [hex_chars ! (n mod 16)]
      else print_base b (n div b) @ [hex_chars ! (n mod b)])"
  by pat_completeness auto
termination
  by (relation "measure (\<lambda>(b, n). n)") auto

declare print_base.simps [simp del]

text \<open>\<open>snprintf(buf, sz, ...)\<close> keeps the first \<open>sz - 1\<close> characters of the formatted text.\<close>

definition snprintf :: "nat \<Rightarrow> string \<Rightarrow> string" where
  "snprintf sz s = take (sz - 1) s"

lemma snprintf_fits: "length s < sz \<Longrightarrow> snprintf sz s = s"
  by (simp add: snprintf_def)

subsection \<open>Reading numbers\<close>

definition digit_val :: "char \<Rightarrow> nat option" where
  "digit_val c =
     (let v = (of_char c :: nat) in
      if 48 \<le> v \<and> v \<le> 57 then Some (v - 48)
      else if 97 \<le> v \<and> v \<le> 122 then Some (v - 97 + 10)
      else if 65 \<le> v \<and> v \<le> 90 then Some (v - 65 + 10)
      else None)"

fun scan_digits :: "nat \<Rightarrow> nat \<Rightarrow> string \<Rightarrow> nat" where
  "scan_digits b acc [] = acc"
| "scan_digits b acc (c # cs) =
     (case digit_val c of
        None \<Rightarrow> acc
      | Some d \<Rightarrow> if d < b then scan_digits b (acc * b + d) cs else acc)"

definition scan_sign :: "string \<Rightarrow> bool \<times> string" where
  "scan_sign s =
     (case s of
        [] \<Rightarrow> (False, s)
      | c # cs \<Rightarrow> if c = CHR ''-'' then (True, cs) else if c = CHR ''+'' then (False, cs)
                 else (False, s))"

definition is_hex_digit :: "char \<Rightarrow> bool" where
  "is_hex_digit c = (case digit_val c of None \<Rightarrow> False | Some d \<Rightarrow> d < 16)"

text \<open>Base 0 asks \<open>strtoull\<close> to find the base from the prefix \<open>0x\<close> or \<open>0\<close>.\<close>

definition scan_base :: "nat \<Rightarrow> string \<Rightarrow> nat \<times> string" where
  "scan_base b s =
     (if b \<noteq> 0 then (b, s)
      else if take 1 s \<noteq> ''0'' then (10, s)
      else if 3 \<le> length s \<and> (s ! 1 = CHR ''x'' \<or> s ! 1 = CHR ''X'') \<and> is_hex_digit (s ! 2)
      then (16, drop 2 s)
      else (8, s))"

definition strtoull :: "nat \<Rightarrow> string \<Rightarrow> u64" where
  "strtoull base str =
     (let (neg, s) = scan_sign (dropWhile isspace (cstr str));
          (b, t) = scan_base base s;
          v = scan_digits b 0 t
      in if v > 18446744073709551615 then 18446744073709551615
         else if neg then - word_of_nat v
         else word_of_nat v)"

lemma nibble_cases:
  assumes "n < (16::nat)"
  obtains "n = 0" | "n = 1" | "n = 2" | "n = 3" | "n = 4" | "n = 5" | "n = 6" | "n = 7" | "n = 8"
    | "n = 9" | "n = 10" | "n = 11" | "n = 12" | "n = 13" | "n = 14" | "n = 15"
proof -
  have "n \<in> set [0..<16]" using assms by simp
  then show ?thesis using that by (auto simp: upt_conv_Cons)
qed

lemma digit_val_hex_chars: "n < 16 \<Longrightarrow> digit_val (hex_chars ! n) = Some n"
  by (erule nibble_cases) (simp_all add: hex_chars_def digit_val_def)

lemma hex_chars_neq_NUL: "n < 16 \<Longrightarrow> hex_chars ! n \<noteq> NUL"
  by (erule nibble_cases) (simp_all add: hex_chars_def NUL_def)

lemma hex_chars_not_space: "n < 16 \<Longrightarrow> \<not> isspace (hex_chars ! n)"
  by (erule nibble_cases) (simp_all add: hex_chars_def isspace_def)

lemma hex_chars_not_sign: "n < 16 \<Longrightarrow> hex_chars ! n \<noteq> CHR ''-'' \<and> hex_chars ! n \<noteq> CHR ''+''"
  by (erule nibble_cases) (simp_all add: hex_chars_def)

lemma hex_chars_0_iff: "n < 16 \<Longrightarrow> hex_chars ! n = CHR ''0'' \<longleftrightarrow> n = 0"
  by (erule nibble_cases) (simp_all add: hex_chars_def)

lemma set_print_base:
  assumes "2 \<le> b" and "b \<le> 16"
  shows "set (print_base b n) \<subseteq> (\<lambda>d. hex_chars ! d) ` {..<b}"
  using assms
proof (induction b n rule: print_base.induct)
  case (1 b n)
  show ?case
  proof (cases "n < b")
    case True
    with "1.prems" show ?thesis by (subst print_base.simps) auto
  next
    case False
    with "1.prems" "1.IH" have "set (print_base b (n div b)) \<subseteq> (\<lambda>d. hex_chars ! d) ` {..<b}"
      by auto
    with False "1.prems" show ?thesis by (subst print_base.simps) auto
  qed
qed

lemma print_base_not_Nil [simp]: "print_base b n \<noteq> []"
  by (subst print_base.simps) simp

lemma scan_digits_print_base:
  assumes "2 \<le> b" and "b \<le> 16"
  shows "scan_digits b acc (print_base b n @ rest)
    = scan_digits b (acc * b ^ length (print_base b n) + n) rest"
  using assms
proof (induction b n arbitrary: acc rest rule: print_base.induct)
  case (1 b n)
  show ?case
  proof (cases "n < b")
    case True
    with "1.prems" show ?thesis
      by (simp add: print_base.simps [of b n] digit_val_hex_chars)
  next
    case False
    let ?m = "print_base b (n div b)"
    have mod: "n mod b < 16" 
      using "1.prems" mod_less_divisor [of b n] by linarith
    have "scan_digits b acc (print_base b n @ rest)
        = scan_digits b acc (?m @ (hex_chars ! (n mod b)) # rest)"
      using False "1.prems" by (simp add: print_base.simps [of b n])
    also have "\<dots> = scan_digits b (acc * b ^ length ?m + n div b) ((hex_chars ! (n mod b)) # rest)"
      using False "1.prems" by (intro "1.IH") auto
    also have "\<dots> = scan_digits b ((acc * b ^ length ?m + n div b) * b + n mod b) rest"
      using "1.prems" mod by (simp add: digit_val_hex_chars)
    also have "(acc * b ^ length ?m + n div b) * b + n mod b = acc * b ^ length (print_base b n) + n"
      using False "1.prems"
      by (simp add: print_base.simps [of b n] algebra_simps div_mult_mod_eq)
    finally show ?thesis .
  qed
qed

lemma scan_digits_print: "2 \<le> b \<Longrightarrow> b \<le> 16 \<Longrightarrow> scan_digits b 0 (print_base b n) = n"
  using scan_digits_print_base [of b 0 n "[]"] by simp

lemma print_base_chars:
  assumes "2 \<le> b" and "b \<le> 16" and "c \<in> set (print_base b n)"
  shows "c \<noteq> NUL \<and> \<not> isspace c \<and> c \<noteq> CHR ''-'' \<and> c \<noteq> CHR ''+''"
proof -
  obtain d where "d < b" "c = hex_chars ! d"
    using set_print_base [OF assms(1,2)] assms(3) by blast
  with assms(2) show ?thesis
    using hex_chars_neq_NUL hex_chars_not_space hex_chars_not_sign by (metis order_less_le_trans)
qed

lemma cstr_print_base: "2 \<le> b \<Longrightarrow> b \<le> 16 \<Longrightarrow> cstr (print_base b n) = print_base b n"
  by (rule cstr_ident) (use print_base_chars in blast)

lemma strtoull_print_base:
  assumes "2 \<le> b" and "b \<le> 16" and "n < 2 ^ 64"
  shows "strtoull b (print_base b n) = word_of_nat n"
proof -
  obtain c cs where p: "print_base b n = c # cs"
    by (cases "print_base b n") auto
  have c: "\<not> isspace c" "c \<noteq> CHR ''-''" "c \<noteq> CHR ''+''"
    using print_base_chars [OF assms(1,2), of c n] p by auto
  have "dropWhile isspace (cstr (print_base b n)) = c # cs"
    using c p cstr_print_base [OF assms(1,2), of n] by simp
  moreover have "scan_sign (c # cs) = (False, c # cs)"
    using c by (simp add: scan_sign_def)
  moreover have "scan_base b (c # cs) = (b, c # cs)"
    using assms(1) by (simp add: scan_base_def)
  moreover have "scan_digits b 0 (c # cs) = n"
    using scan_digits_print [OF assms(1,2)] p by metis
  ultimately show ?thesis
    using assms(3) by (simp add: strtoull_def)
qed

text \<open>\<open>%llu\<close> and \<open>strtoull(.., 10)\<close> are inverse on every 64-bit value.\<close>

definition print_u64 :: "u64 \<Rightarrow> string" where
  "print_u64 v = print_base 10 (unat v)"

lemma strtoull_print_u64 [simp]: "strtoull 10 (print_u64 v) = v"
  using strtoull_print_base [of 10 "unat v"] unsigned_less [of v]
  by (simp add: print_u64_def)

lemma length_print_base:
  "2 \<le> b \<Longrightarrow> n < b ^ Suc k \<Longrightarrow> length (print_base b n) \<le> Suc k"
proof (induction k arbitrary: n)
  case 0
  then show ?case by (subst print_base.simps) simp
next
  case (Suc k)
  show ?case
  proof (cases "n < b")
    case True
    then show ?thesis by (subst print_base.simps) simp
  next
    case False
    have "n div b < b ^ Suc k" using Suc.prems by (simp add: less_mult_imp_div_less mult.commute)
    with Suc have "length (print_base b (n div b)) \<le> Suc k" by blast
    with False Suc.prems(1) show ?thesis by (subst print_base.simps) simp
  qed
qed

lemma length_print_u64: "length (print_u64 v) \<le> 20"
proof -
  have "(18446744073709551616 :: nat) \<le> 10 ^ Suc 19" by simp
  with unat_lt_2p64 [of v] have "unat v < 10 ^ Suc 19" by (rule less_le_trans)
  then show ?thesis using length_print_base [of 10 "unat v" 19] by (simp add: print_u64_def)
qed

text \<open>
  \<open>strtoll(.., 10)\<close> saturates at the bounds of \<open>long long\<close>; \<open>atoll\<close>, and \<open>atol\<close> where \<open>long\<close> has 64 bits,
  are the same function, and \<open>atoi\<close> converts its result to \<open>int\<close>.
\<close>

definition strtoll :: "string \<Rightarrow> int" where
  "strtoll str =
     (let (neg, s) = scan_sign (dropWhile isspace (cstr str));
          v = int (scan_digits 10 0 s)
      in if neg then max (- 9223372036854775808) (- v) else min 9223372036854775807 v)"

definition atoi :: "string \<Rightarrow> int" where
  "atoi str = sint (word_of_int (strtoll str) :: 32 word)"

definition atoll :: "string \<Rightarrow> int" where
  "atoll str = strtoll str"

lemma strtoll_print:
  assumes "n < 2 ^ 63"
  shows "strtoll (print_base 10 n) = int n"
proof -
  obtain c cs where p: "print_base 10 n = c # cs" by (cases "print_base 10 n") auto
  have "\<not> isspace c" "c \<noteq> CHR ''-''" "c \<noteq> CHR ''+''"
    using print_base_chars [of 10 c n] p by auto
  then have "scan_sign (dropWhile isspace (cstr (print_base 10 n))) = (False, print_base 10 n)"
    using p cstr_print_base [of 10 n] by (simp add: scan_sign_def)
  moreover have "scan_digits 10 0 (print_base 10 n) = n" by (rule scan_digits_print) simp_all
  ultimately show ?thesis using assms by (simp add: strtoll_def)
qed

lemma atoi_print: "n < 2 ^ 31 \<Longrightarrow> atoi (print_base 10 n) = int n"
  using c_int_small [of n] by (simp add: atoi_def strtoll_print c_int_def)

subsection \<open>Searching and comparing\<close>

text \<open>\<open>strstr(hay, needle)\<close>: the suffix of \<open>hay\<close> that starts at the first occurrence.\<close>

fun strstr :: "string \<Rightarrow> string \<Rightarrow> string option" where
  "strstr [] needle = (if needle = [] then Some [] else None)"
| "strstr (c # cs) needle =
     (if take (length needle) (c # cs) = needle then Some (c # cs) else strstr cs needle)"

lemma strstr_here [simp]: "strstr (needle @ rest) needle = Some (needle @ rest)"
proof (cases "needle @ rest")
  case (Cons c cs)
  then have "take (length needle) (c # cs) = needle" by (metis append_eq_conv_conj)
  with Cons show ?thesis by simp
qed simp

lemma strstr_short: "length hay < length needle \<Longrightarrow> strstr hay needle = None"
proof (induction hay)
  case (Cons c cs)
  then have "take (length needle) (c # cs) \<noteq> needle" by (metis length_take min.cobounded2 min.absorb_iff2 not_less)
  with Cons show ?case by simp
qed auto

lemma strstr_Some:
  "strstr hay needle = Some suf \<Longrightarrow> \<exists>pre rest. hay = pre @ suf \<and> suf = needle @ rest"
proof (induction hay)
  case Nil
  then show ?case by (simp split: if_splits)
next
  case (Cons c cs)
  show ?case
  proof (cases "take (length needle) (c # cs) = needle")
    case True
    with Cons.prems have "suf = c # cs" by simp
    with True show ?thesis by (metis append_Nil append_take_drop_id)
  next
    case False
    with Cons show ?thesis by (auto intro: exI [of _ "c # _"])
  qed
qed

text \<open>The sign of \<open>memcmp\<close> on two equally long buffers; C promises no more than the sign.\<close>

fun memcmp :: "bytes \<Rightarrow> bytes \<Rightarrow> int" where
  "memcmp (a # as) (b # bs) =
     (if a = b then memcmp as bs else if unat a < unat b then -1 else 1)"
| "memcmp _ _ = 0"

end
