(* ===== verification/Evm_Hex.thy ===== *)
theory Evm_Hex
  imports Evm_Clib
begin

text \<open>
  Hexadecimal text, \<^verbatim>\<open>src/core/hex.c\<close>: byte strings to \<open>0x\<close>-prefixed text and back, and 64-bit
  numbers to \<open>0x\<close>-prefixed text without leading zeros and back.

  An out buffer is passed in with its old contents and returned, because \<open>evmdb_hex_decode\<close>
  writes it byte by byte and leaves the bytes decoded before an error in place. Callers in the
  state layer and the RPC handlers ignore its return value, so the contents matter.
  A possibly null pointer is an \<open>option\<close>. \<open>evmdb_hex_encode\<close> is meant for arrays of fewer than \<open>2 ^ 62\<close> bytes, far
  beyond what memory holds: near \<open>2 ^ 63\<close> the length it needs wraps, the check passes for a short buffer,
  and the code would write behind it where the definition gives the text.
\<close>

subsection \<open>Definitions\<close>

definition hex_byte :: "byte \<Rightarrow> string" where
  "hex_byte b = [hex_chars ! unat (drop_bit 4 b AND 15), hex_chars ! unat (b AND 15)]"

definition evmdb_hex_encode :: "bytes \<Rightarrow> size_t \<Rightarrow> string option" where
  "evmdb_hex_encode data out_len =
     (let needed = word_of_nat (length data) * 2 + 3
      in if out_len < needed then None
         else Some (''0x'' @ concat (map hex_byte data)))"

definition hex_char_val :: "char \<Rightarrow> int" where
  "hex_char_val c =
     (let v = (of_char c :: int) in
      if of_char (CHR ''0'') \<le> v \<and> v \<le> of_char (CHR ''9'') then v - of_char (CHR ''0'')
      else if of_char (CHR ''a'') \<le> v \<and> v \<le> of_char (CHR ''f'') then v - of_char (CHR ''a'') + 10
      else if of_char (CHR ''A'') \<le> v \<and> v \<le> of_char (CHR ''F'') then v - of_char (CHR ''A'') + 10
      else -1)"

definition skip_0x :: "string \<Rightarrow> string" where
  "skip_0x s =
     (if 2 \<le> length s \<and> s ! 0 = CHR ''0'' \<and> (s ! 1 = CHR ''x'' \<or> s ! 1 = CHR ''X'')
      then drop 2 s else s)"

fun hex_decode_loop :: "nat \<Rightarrow> string \<Rightarrow> bytes \<Rightarrow> bool \<times> bytes" where
  "hex_decode_loop i (h # l # rest) out =
     (let hi = hex_char_val h; lo = hex_char_val l
      in if hi < 0 \<or> lo < 0 then (False, out)
         else hex_decode_loop (Suc i) rest (out[i := word_of_int (push_bit 4 hi OR lo)]))"
| "hex_decode_loop i _ out = (True, out)"

definition evmdb_hex_decode :: "string option \<Rightarrow> bytes \<Rightarrow> nat \<Rightarrow> int \<times> bytes" where
  "evmdb_hex_decode hex out out_len =
     (case hex of
        None \<Rightarrow> (-1, out)
      | Some str \<Rightarrow>
          (let s = skip_0x (cstr str); hex_len = length s
           in if hex_len mod 2 \<noteq> 0 then (-1, out)
              else let byte_len = hex_len div 2
                   in if byte_len > out_len then (-1, out)
                      else (case hex_decode_loop 0 s out of
                              (False, out') \<Rightarrow> (-1, out')
                            | (True, out') \<Rightarrow> (c_int byte_len, out'))))"

definition evmdb_hex_from_uint64 :: "u64 \<Rightarrow> nat \<Rightarrow> string option" where
  "evmdb_hex_from_uint64 val out_len =
     (if val = 0 then (if out_len < 4 then None else Some ''0x0'')
      else let text = ''0x'' @ print_base 16 (unat val);
               buf = snprintf 19 text
           in if length text \<ge> out_len then None else Some buf)"

fun hex_to_uint64_loop :: "u64 \<Rightarrow> string \<Rightarrow> int \<times> u64" where
  "hex_to_uint64_loop acc [] = (0, acc)"
| "hex_to_uint64_loop acc (c # cs) =
     (let v = hex_char_val c
      in if v < 0 then (-1, acc)
         else hex_to_uint64_loop (push_bit 4 acc OR word_of_int v) cs)"

definition evmdb_hex_to_uint64 :: "string option \<Rightarrow> u64 option \<Rightarrow> int \<times> u64 option" where
  "evmdb_hex_to_uint64 hex out =
     (case (hex, out) of
        (Some str, Some _) \<Rightarrow>
          (case hex_to_uint64_loop 0 (skip_0x (cstr str)) of (rc, v) \<Rightarrow> (rc, Some v))
      | _ \<Rightarrow> (-1, out))"

subsection \<open>Digits\<close>

text \<open>The number a string of hexadecimal digits denotes, when it is one.\<close>

definition is_hex :: "string \<Rightarrow> bool" where
  "is_hex s \<longleftrightarrow> (\<forall>c \<in> set s. 0 \<le> hex_char_val c)"

fun hex_num :: "nat \<Rightarrow> string \<Rightarrow> nat" where
  "hex_num acc [] = acc"
| "hex_num acc (c # cs) = hex_num (acc * 16 + nat (hex_char_val c)) cs"

lemma hex_char_val_bounds: "-1 \<le> hex_char_val c \<and> hex_char_val c < 16"
  by (simp add: hex_char_val_def Let_def)

lemma hex_char_val_lt: "hex_char_val c < 16"
  using hex_char_val_bounds by blast

lemma hex_char_val_hex_chars: "n < 16 \<Longrightarrow> hex_char_val (hex_chars ! n) = int n"
  by (erule nibble_cases) (simp_all add: hex_chars_def hex_char_val_def)

lemma is_hex_Cons: "is_hex (c # cs) \<longleftrightarrow> 0 \<le> hex_char_val c \<and> is_hex cs"
  by (auto simp: is_hex_def)

lemma hex_num_shift: "hex_num acc s = acc * 16 ^ length s + hex_num 0 s"
proof (induction s arbitrary: acc)
  case Nil
  then show ?case by simp
next
  case (Cons c s)
  show ?case
    using Cons [of "acc * 16 + nat (hex_char_val c)"] Cons [of "nat (hex_char_val c)"]
    by (simp add: algebra_simps)
qed

lemma nibbles_join:
  assumes "0 \<le> hi" "hi < 16" "0 \<le> lo" "lo < 16"
  shows "push_bit 4 hi OR lo = hi * 16 + (lo :: int)"
proof -
  have lo: "lo = take_bit 4 lo"
    using assms(3,4) by (simp add: take_bit_int_eq_self)
  have "push_bit 4 hi OR take_bit 4 lo = push_bit 4 hi + take_bit 4 lo"
    by (rule disjunctive_add [symmetric]) (auto simp: bit_simps)
  with lo show ?thesis by (simp add: push_bit_eq_mult)
qed

lemma hex_pair_val:
  assumes "0 \<le> hex_char_val h" and "0 \<le> hex_char_val l"
  shows "unat (word_of_int (push_bit 4 (hex_char_val h) OR hex_char_val l) :: byte)
    = nat (hex_char_val h) * 16 + nat (hex_char_val l)"
proof -
  let ?v = "hex_char_val h * 16 + hex_char_val l"
  have v: "0 \<le> ?v" "?v < 256"
    using assms hex_char_val_lt [of h] hex_char_val_lt [of l] by linarith+
  have "unat (word_of_int ?v :: byte) = nat ?v"
    using v by (simp only: unat_eq_nat_uint uint_word_of_int_eq take_bit_int_eq_self len_bit0 len_num1)
      (simp add: take_bit_int_eq_self)
  also have "nat ?v = nat (hex_char_val h) * 16 + nat (hex_char_val l)"
    using assms by (simp add: nat_add_distrib nat_mult_distrib)
  finally show ?thesis
    by (simp only: nibbles_join [OF assms(1) hex_char_val_lt assms(2) hex_char_val_lt])
qed

lemma byte_nibbles: "unat (drop_bit 4 b AND 15) = unat b div 16" "unat (b AND 15) = unat b mod 16" for b :: byte
proof -
  have "drop_bit 4 b AND 15 = take_bit 4 (drop_bit 4 b)"
    by (simp add: take_bit_eq_mask mask_eq_exp_minus_1)
  moreover have "unat (take_bit 4 (drop_bit 4 b)) = unat b div 16"
    using byte_lt_256 [of b] by (simp add: drop_bit_eq_div take_bit_eq_mod unat_div unat_mod
        less_mult_imp_div_less)
  ultimately show "unat (drop_bit 4 b AND 15) = unat b div 16" by simp
  have "b AND 15 = take_bit 4 b"
    by (simp add: take_bit_eq_mask mask_eq_exp_minus_1)
  then show "unat (b AND 15) = unat b mod 16" by (simp add: take_bit_eq_mod unat_mod)
qed

lemma hex_byte_digits: "hex_byte b = [hex_chars ! (unat b div 16), hex_chars ! (unat b mod 16)]"
  by (simp only: hex_byte_def byte_nibbles(1) [of b] byte_nibbles(2) [of b])

lemma hex_byte_val: "hex_num 0 (hex_byte b) = unat b" "is_hex (hex_byte b)"
proof -
  have "unat b div 16 < 16" using byte_lt_256 [of b] by (simp add: less_mult_imp_div_less)
  then show "hex_num 0 (hex_byte b) = unat b" "is_hex (hex_byte b)"
    by (simp_all add: hex_byte_digits hex_char_val_hex_chars is_hex_def)
qed

lemma length_hex_byte [simp]: "length (hex_byte b) = 2"
  by (simp add: hex_byte_def)

lemma is_hex_append: "is_hex (s @ t) \<longleftrightarrow> is_hex s \<and> is_hex t"
  by (auto simp: is_hex_def)

lemma hex_num_append: "hex_num acc (s @ t) = hex_num (hex_num acc s) t"
  by (induction s arbitrary: acc) auto

lemma length_hex_bytes [simp]: "length (concat (map hex_byte bs)) = 2 * length bs"
  by (induction bs) auto

lemma hex_num_bytes: "hex_num 0 (concat (map hex_byte bs)) = be_val bs"
proof (induction bs)
  case Nil
  then show ?case by simp
next
  case (Cons b bs)
  have "hex_num 0 (concat (map hex_byte (b # bs)))
      = unat b * 16 ^ (2 * length bs) + hex_num 0 (concat (map hex_byte bs))"
    using hex_num_shift [of "unat b" "concat (map hex_byte bs)"]
    by (simp add: hex_num_append hex_byte_val)
  with Cons show ?case by (simp add: be_val_Cons power_mult)
qed

lemma is_hex_bytes: "is_hex (concat (map hex_byte bs))"
  by (induction bs) (simp_all add: is_hex_append hex_byte_val, simp add: is_hex_def)

lemma is_hex_no_NUL: "is_hex s \<Longrightarrow> NUL \<notin> set s"
  by (auto simp: is_hex_def hex_char_val_def NUL_def)

subsection \<open>Decoding\<close>

lemma hex_decode_loop_ok:
  assumes "is_hex s" and "even (length s)" and "i + length s div 2 \<le> length out"
  shows "\<exists>bs. 2 * length bs = length s \<and> be_val bs = hex_num 0 s
    \<and> hex_decode_loop i s out = (True, take i out @ bs @ drop (i + length bs) out)"
  using assms
proof (induction i s out rule: hex_decode_loop.induct)
  case (1 i h l rest out)
  let ?b = "word_of_int (push_bit 4 (hex_char_val h) OR hex_char_val l) :: byte"
  have h: "0 \<le> hex_char_val h" "0 \<le> hex_char_val l"
    using "1.prems"(1) by (simp_all add: is_hex_Cons)
  have "\<exists>bs. 2 * length bs = length rest \<and> be_val bs = hex_num 0 rest
    \<and> hex_decode_loop (Suc i) rest (out[i := ?b])
      = (True, take (Suc i) (out[i := ?b]) @ bs @ drop (Suc i + length bs) (out[i := ?b]))"
    using h "1.prems" by (intro "1.IH") (simp_all add: is_hex_Cons)
  then obtain bs where bs: "2 * length bs = length rest" "be_val bs = hex_num 0 rest"
    "hex_decode_loop (Suc i) rest (out[i := ?b])
      = (True, take (Suc i) (out[i := ?b]) @ bs @ drop (Suc i + length bs) (out[i := ?b]))"
    by blast
  have i: "i < length out" using "1.prems" by simp
  have "hex_num 0 (h # l # rest) = unat ?b * 16 ^ length rest + hex_num 0 rest"
    using hex_num_shift [of "unat ?b" rest] by (simp add: hex_pair_val [OF h])
  also have "\<dots> = be_val (?b # bs)"
    using bs(1,2) by (simp add: be_val_Cons power_mult flip: bs(1))
  finally have "be_val (?b # bs) = hex_num 0 (h # l # rest)" ..
  moreover have "hex_decode_loop i (h # l # rest) out
      = (True, take i out @ (?b # bs) @ drop (i + length (?b # bs)) out)"
    using h i bs(3) by (simp add: Let_def take_Suc_conv_app_nth)
  moreover have "2 * length (?b # bs) = length (h # l # rest)"
    using bs(1) by simp
  ultimately show ?case by blast
qed (auto intro: exI [of _ "[]"])

lemma hex_decode_loop_fail:
  "\<not> is_hex s \<Longrightarrow> even (length s) \<Longrightarrow> \<not> fst (hex_decode_loop i s out)"
  by (induction i s out rule: hex_decode_loop.induct)
    (auto simp: is_hex_Cons Let_def, simp add: is_hex_def)

text \<open>
  The decoder on every input: an even number of hexadecimal digits that fits the buffer is
  decoded to the bytes of that number, the rest of the buffer keeps its contents; everything
  else is refused.
\<close>

definition hex_text_ok :: "string \<Rightarrow> nat \<Rightarrow> bool" where
  "hex_text_ok s out_len \<longleftrightarrow> even (length s) \<and> length s div 2 \<le> out_len \<and> is_hex s"

lemma hex_decode_ok:
  assumes "hex_text_ok (skip_0x (cstr str)) out_len" and "out_len \<le> length out"
    and "out_len < 2 ^ 31"
  shows "\<exists>bs. 2 * length bs = length (skip_0x (cstr str))
    \<and> be_val bs = hex_num 0 (skip_0x (cstr str))
    \<and> evmdb_hex_decode (Some str) out out_len = (int (length bs), bs @ drop (length bs) out)"
proof -
  let ?s = "skip_0x (cstr str)"
  from assms obtain bs where bs: "2 * length bs = length ?s" "be_val bs = hex_num 0 ?s"
    "hex_decode_loop 0 ?s out = (True, bs @ drop (length bs) out)"
    using hex_decode_loop_ok [of ?s 0 out] by (auto simp: hex_text_ok_def)
  have "length ?s div 2 = length bs" using bs(1) by presburger
  then have "evmdb_hex_decode (Some str) out out_len = (int (length bs), bs @ drop (length bs) out)"
    using assms bs by (simp add: evmdb_hex_decode_def hex_text_ok_def Let_def c_int_small
        even_iff_mod_2_eq_zero)
  with bs show ?thesis by blast
qed

lemma hex_decode_fail:
  assumes "\<not> hex_text_ok (skip_0x (cstr str)) out_len"
  shows "fst (evmdb_hex_decode (Some str) out out_len) = -1"
proof (cases "hex_decode_loop 0 (skip_0x (cstr str)) out")
  case (Pair ok out')
  with assms hex_decode_loop_fail [of "skip_0x (cstr str)" 0 out] show ?thesis
    by (auto simp: evmdb_hex_decode_def hex_text_ok_def Let_def even_iff_mod_2_eq_zero
        split: bool.splits)
qed

subsection \<open>Encoding\<close>

lemma hex_encode_fits:
  assumes "length bs < 2 ^ 62" and "2 * length bs + 3 \<le> unat out_len"
  shows "evmdb_hex_encode bs out_len = Some (''0x'' @ concat (map hex_byte bs))"
proof -
  let ?needed = "word_of_nat (length bs) * 2 + 3 :: size_t"
  have "?needed = word_of_nat (2 * length bs + 3)" by simp
  moreover have "2 * length bs + 3 < 2 ^ 64" using assms(1) by simp
  ultimately have "unat ?needed = 2 * length bs + 3"
    by (simp only: unat_word_of_nat64)
  then have "\<not> out_len < ?needed"
    using assms(2) by (simp add: word_less_nat_alt)
  then show ?thesis by (simp add: evmdb_hex_encode_def)
qed

lemma skip_0x_hex [simp]: "skip_0x (CHR ''0'' # CHR ''x'' # s) = s"
  by (simp add: skip_0x_def)

lemma cstr_hex_bytes:
  "cstr (''0x'' @ concat (map hex_byte bs)) = ''0x'' @ concat (map hex_byte bs)"
  using is_hex_no_NUL [OF is_hex_bytes, of bs] by (intro cstr_ident) (auto simp: NUL_def)

lemma hex_decode_hex_bytes:
  assumes "length bs \<le> out_len" and "out_len \<le> length out" and "out_len < 2 ^ 31"
  shows "evmdb_hex_decode (Some (''0x'' @ concat (map hex_byte bs))) out out_len
    = (int (length bs), bs @ drop (length bs) out)"
proof -
  let ?s = "concat (map hex_byte bs)"
  have s: "skip_0x (cstr (''0x'' @ ?s)) = ?s"
    by (simp only: cstr_hex_bytes) simp
  have "hex_text_ok ?s out_len"
    using assms(1) by (simp add: hex_text_ok_def is_hex_bytes)
  then obtain cs where cs: "2 * length cs = length ?s" "be_val cs = hex_num 0 ?s"
    "evmdb_hex_decode (Some (''0x'' @ ?s)) out out_len = (int (length cs), cs @ drop (length cs) out)"
    using hex_decode_ok [of "''0x'' @ ?s" out_len out] assms(2,3) by (metis s)
  then have "cs = bs"
    by (intro be_val_inject) (simp_all add: hex_num_bytes)
  with cs(3) show ?thesis by simp
qed

text \<open>Encoding followed by decoding, for a fixed number of bytes, is a codec.\<close>

definition hex_of_bytes :: "bytes \<Rightarrow> string" where
  "hex_of_bytes bs = ''0x'' @ concat (map hex_byte bs)"

definition bytes_of_hex :: "nat \<Rightarrow> string \<Rightarrow> bytes option" where
  "bytes_of_hex n s =
     (case evmdb_hex_decode (Some s) (replicate n 0) n of
        (rc, out) \<Rightarrow> if rc = int n then Some out else None)"

lemma length_hex_of_bytes [simp]: "length (hex_of_bytes bs) = 2 * length bs + 2"
  by (simp add: hex_of_bytes_def)

interpretation hex20: codec hex_of_bytes "bytes_of_hex 20" "\<lambda>bs. length bs = 20"
  by unfold_locales (simp add: bytes_of_hex_def hex_of_bytes_def hex_decode_hex_bytes [simplified])

interpretation hex32: codec hex_of_bytes "bytes_of_hex 32" "\<lambda>bs. length bs = 32"
  by unfold_locales (simp add: bytes_of_hex_def hex_of_bytes_def hex_decode_hex_bytes [simplified])

subsection \<open>64-bit numbers\<close>

text \<open>The reader keeps the low 64 bits of the number, whatever its length.\<close>

lemma hex_to_uint64_loop_ok:
  "is_hex s \<Longrightarrow> hex_to_uint64_loop acc s = (0, word_of_nat (hex_num (unat acc) s))"
proof (induction s arbitrary: acc)
  case Nil
  then show ?case by simp
next
  case (Cons c s)
  have s: "is_hex s" and c: "0 \<le> hex_char_val c" "hex_char_val c < 16"
    using Cons.prems hex_char_val_lt by (simp_all add: is_hex_Cons)
  from c obtain d where d: "hex_char_val c = int d" "d < 16"
    by (cases "hex_char_val c") auto
  have "unat (word_of_nat d :: u64) < 2 ^ 4"
    using d(2) by (simp add: unat_of_nat)
  then have step: "push_bit 4 acc OR word_of_nat d = acc * 16 + word_of_nat d"
    using word_shift_or [of "word_of_nat d :: u64" 4 acc] by simp
  have "hex_to_uint64_loop acc (c # s)
      = (0, word_of_nat (hex_num (unat (acc * 16 + word_of_nat d)) s))"
    using Cons.IH [OF s] by (simp add: step d(1))
  also have "(word_of_nat (hex_num (unat (acc * 16 + word_of_nat d)) s) :: u64)
      = (acc * 16 + word_of_nat d) * 16 ^ length s + word_of_nat (hex_num 0 s)"
    by (subst hex_num_shift) simp
  also have "\<dots> = word_of_nat (hex_num (unat acc * 16 + d) s)"
    by (subst (2) hex_num_shift) simp
  finally show ?case by (simp add: d(1))
qed

lemma hex_to_uint64_loop_fail: "\<not> is_hex s \<Longrightarrow> fst (hex_to_uint64_loop acc s) = -1"
  by (induction s arbitrary: acc) (auto simp: is_hex_Cons Let_def, simp add: is_hex_def)

lemma hex_num_print_base: "hex_num 0 (print_base 16 n) = n"
proof (induction "16::nat" n rule: print_base.induct)
  case (1 n)
  then show ?case
    by (subst print_base.simps) (auto simp: hex_num_append hex_char_val_hex_chars)
qed

lemma is_hex_print_base: "is_hex (print_base 16 n)"
  using set_print_base [of 16 n] by (force simp: is_hex_def hex_char_val_hex_chars)

lemma length_hex_u64: "length (print_base 16 (unat (v :: u64))) \<le> 16"
  using length_print_base [of 16 "unat v" 15] unsigned_less [of v] by simp

lemma hex_from_uint64_fits:
  assumes "19 \<le> out_len"
  shows "evmdb_hex_from_uint64 v out_len = Some (''0x'' @ print_base 16 (unat v))"
proof (cases "v = 0")
  case True
  with assms show ?thesis
    by (simp add: evmdb_hex_from_uint64_def print_base.simps hex_chars_def)
next
  case False
  with assms length_hex_u64 [of v] show ?thesis
    by (simp add: evmdb_hex_from_uint64_def snprintf_def)
qed

lemma cstr_hex_u64: "cstr (''0x'' @ print_base 16 n) = ''0x'' @ print_base 16 n"
  using is_hex_no_NUL [OF is_hex_print_base, of n] by (intro cstr_ident) (auto simp: NUL_def)

lemma hex_to_uint64_print:
  "evmdb_hex_to_uint64 (Some (''0x'' @ print_base 16 (unat v))) (Some w) = (0, Some v)"
proof -
  have "skip_0x (cstr (''0x'' @ print_base 16 (unat v))) = print_base 16 (unat v)"
    by (simp only: cstr_hex_u64) simp
  then show ?thesis
    by (simp add: evmdb_hex_to_uint64_def hex_to_uint64_loop_ok [OF is_hex_print_base]
        hex_num_print_base)
qed

definition hex_of_u64 :: "u64 \<Rightarrow> string" where
  "hex_of_u64 v = ''0x'' @ print_base 16 (unat v)"

interpretation hexu64: codec hex_of_u64
  "\<lambda>s. case evmdb_hex_to_uint64 (Some s) (Some 0) of (rc, v) \<Rightarrow> if rc = 0 then v else None" "\<lambda>_. True"
  by unfold_locales (simp add: hex_of_u64_def hex_to_uint64_print [simplified])

lemma print_base16_no_leading_zero: "0 < n \<Longrightarrow> hd (print_base 16 n) \<noteq> CHR ''0''"
proof (induction "16::nat" n rule: print_base.induct)
  case (1 n)
  show ?case
  proof (cases "n < 16")
    case True
    with "1.prems" show ?thesis by (subst print_base.simps) (simp add: hex_chars_0_iff)
  next
    case False
    with "1.hyps" show ?thesis by (subst print_base.simps) simp
  qed
qed

subsection \<open>Properties\<close>

text \<open>
C35: \<open>evmdb_hex_decode\<close> accepts exactly the texts of an even number of hexadecimal digits (after an
optional \<open>0x\<close>) that fit the buffer. It then returns the number of bytes and writes the
big-endian bytes of the number the digits denote, leaving the rest of the buffer as it was;
on every other text it returns -1.
\<close>

theorem hex_decode_correct:
  assumes "out_len \<le> length out" and "out_len < 2 ^ 31"
  shows "if hex_text_ok (skip_0x (cstr str)) out_len
    then \<exists>bs. 2 * length bs = length (skip_0x (cstr str))
      \<and> be_val bs = hex_num 0 (skip_0x (cstr str))
      \<and> evmdb_hex_decode (Some str) out out_len = (int (length bs), bs @ drop (length bs) out)
    else fst (evmdb_hex_decode (Some str) out out_len) = -1"
  using assms hex_decode_ok hex_decode_fail by simp

theorem hex_decode_correct_witness:
  "fst (evmdb_hex_decode (Some ''0xdeadbeef'') [0, 0, 0, 0, 7] 4) = 4
    \<and> snd (evmdb_hex_decode (Some ''0xdeadbeef'') [0, 0, 0, 0, 7] 4) = [0xde, 0xad, 0xbe, 0xef, 7]
    \<and> fst (evmdb_hex_decode (Some ''0xdeadbee'') [0, 0, 0, 0, 7] 4) = -1"
  using hex_decode_correct [of 4 "[0, 0, 0, 0, 7]" "''0xdeadbee''"]
  by (simp add: evmdb_hex_decode_def cstr_def NUL_def skip_0x_def hex_char_val_def c_int_def
      hex_text_ok_def)

text \<open>
what \<open>evmdb_hex_encode\<close> writes, \<open>evmdb_hex_decode\<close> reads back, byte for byte, into any
buffer large enough, without touching the rest of the buffer.
\<close>

lemma hex_roundtrip:
  assumes "evmdb_hex_encode bs buf_len = Some s"
    and "length bs \<le> out_len" and "out_len \<le> length out" and "out_len < 2 ^ 31"
  shows "evmdb_hex_decode (Some s) out out_len = (int (length bs), bs @ drop (length bs) out)"
proof -
  from assms(1) have "s = ''0x'' @ concat (map hex_byte bs)"
    by (simp add: evmdb_hex_encode_def Let_def split: if_splits)
  with assms show ?thesis by (simp only: hex_decode_hex_bytes)
qed

lemma hex_roundtrip_witness:
  "evmdb_hex_encode [0x00, 0xff] 7 = Some ''0x00ff''
    \<and> evmdb_hex_decode (Some ''0x00ff'') [1, 2, 3] 2 = (2, [0x00, 0xff, 3])"
  using hex_roundtrip [of "[0x00, 0xff]" 7 "''0x00ff''" 2 "[1, 2, 3]"]
  by (simp add: evmdb_hex_encode_def hex_byte_def hex_chars_def)

text \<open>
\<open>evmdb_hex_from_uint64\<close> succeeds for every value in a buffer of 19 bytes or more, its text
ends within the buffer and has no leading zero, and \<open>evmdb_hex_to_uint64\<close> reads the value back.
\<close>

lemma hex_uint64_roundtrip:
  assumes "19 \<le> out_len"
  shows "\<exists>s. evmdb_hex_from_uint64 v out_len = Some s \<and> length s < out_len
    \<and> (s = ''0x0'' \<or> s ! 2 \<noteq> CHR ''0'')
    \<and> evmdb_hex_to_uint64 (Some s) (Some w) = (0, Some v)"
proof (intro exI conjI)
  let ?s = "''0x'' @ print_base 16 (unat v)"
  show "evmdb_hex_from_uint64 v out_len = Some ?s"
    using assms by (rule hex_from_uint64_fits)
  show "length ?s < out_len" using assms length_hex_u64 [of v] by simp
  show "evmdb_hex_to_uint64 (Some ?s) (Some w) = (0, Some v)" by (rule hex_to_uint64_print)
  show "?s = ''0x0'' \<or> ?s ! 2 \<noteq> CHR ''0''"
  proof (cases "v = 0")
    case True
    then show ?thesis by (simp add: print_base.simps hex_chars_def)
  next
    case False
    then have "hd (print_base 16 (unat v)) \<noteq> CHR ''0''"
      by (intro print_base16_no_leading_zero) (simp add: unat_gt_0)
    then show ?thesis by (simp add: hd_conv_nth)
  qed
qed

lemma hex_uint64_roundtrip_witness:
  "evmdb_hex_from_uint64 21000 32 = Some ''0x5208''
    \<and> evmdb_hex_to_uint64 (Some ''0x5208'') (Some 0) = (0, Some 21000)"
  using hex_uint64_roundtrip [of 32 21000 0]
  by (simp add: evmdb_hex_from_uint64_def print_base.simps hex_chars_def snprintf_def)

text \<open>
\<open>evmdb_hex_to_uint64\<close> computes the number its digits denote modulo \<open>2 ^ 64\<close> (longer numbers
lose their high digits silently) and refuses any text with a character that is no digit.
\<close>

lemma hex_to_uint64_value:
  "evmdb_hex_to_uint64 (Some str) (Some w) =
     (if is_hex (skip_0x (cstr str))
      then (0, Some (word_of_nat (hex_num 0 (skip_0x (cstr str)) mod 2 ^ 64)))
      else (-1, snd (evmdb_hex_to_uint64 (Some str) (Some w))))"
proof (cases "is_hex (skip_0x (cstr str))")
  case True
  then show ?thesis
    by (simp add: evmdb_hex_to_uint64_def hex_to_uint64_loop_ok word_unat_eq_iff unat_of_nat)
next
  case False
  with hex_to_uint64_loop_fail [of "skip_0x (cstr str)" 0] show ?thesis
    by (auto simp: evmdb_hex_to_uint64_def split: prod.splits)
qed

end
