(* ===== verification/Evm_Redis.thy ===== *)
theory Evm_Redis
  imports Evm_Hex
begin

text \<open>
  The Redis server as the program sees it through hiredis.

  \<open>redisCommand\<close> is a parameter of the model: a function from the state \<open>'r\<close> of connection and
  server and an argument vector to a reply, \<open>None\<close> for the null pointer hiredis returns on an I/O
  error, and the next state. hiredis builds the argument vector from a format string; each
  \<open>%s\<close>, \<open>%llu\<close> and \<open>%b\<close> is one binary-safe argument or part of one.

  The locale \<open>redis_server\<close> states what Redis documents for the commands the program sends. The
  laws speak of the keyspace \<open>kv s\<close> and hold while the connection is up (\<open>up s\<close>), which the commands
  do not end: the properties that rest on them are about runs without a connection failure. An
  in-memory keyspace is an instance.
\<close>

datatype redis_reply =
    REDIS_REPLY_STRING string
  | REDIS_REPLY_ARRAY "redis_reply list"
  | REDIS_REPLY_INTEGER int
  | REDIS_REPLY_NIL
  | REDIS_REPLY_STATUS string
  | REDIS_REPLY_ERROR string

type_synonym 'r redis = "'r \<Rightarrow> string list \<Rightarrow> redis_reply option \<times> 'r"

subsection \<open>The keyspace\<close>

datatype redis_value = RString string | RHash "string \<rightharpoonup> string"

type_synonym keyspace = "string \<rightharpoonup> redis_value"

definition wrong_type :: redis_reply where
  "wrong_type = REDIS_REPLY_ERROR ''WRONGTYPE Operation against a key holding the wrong kind of value''"

fun bulk :: "string option \<Rightarrow> redis_reply" where
  "bulk None = REDIS_REPLY_NIL"
| "bulk (Some v) = REDIS_REPLY_STRING v"

definition get_reply :: "redis_value option \<Rightarrow> redis_reply" where
  "get_reply v = (case v of None \<Rightarrow> REDIS_REPLY_NIL | Some (RString x) \<Rightarrow> REDIS_REPLY_STRING x
     | Some (RHash h) \<Rightarrow> wrong_type)"

definition hash_of :: "redis_value option \<Rightarrow> (string \<rightharpoonup> string) option" where
  "hash_of v = (case v of None \<Rightarrow> Some Map.empty | Some (RHash h) \<Rightarrow> Some h | Some (RString x) \<Rightarrow> None)"

fun pairs :: "string list \<Rightarrow> (string \<times> string) list option" where
  "pairs [] = Some []"
| "pairs [x] = None"
| "pairs (f # v # rest) = map_option ((#) (f, v)) (pairs rest)"

text \<open>\<open>HSET\<close> sets the fields in their order; its reply counts the fields that are new.\<close>

definition hset :: "(string \<rightharpoonup> string) \<Rightarrow> (string \<times> string) list \<Rightarrow> (string \<rightharpoonup> string)" where
  "hset h fvs = h(map fst fvs [\<mapsto>] map snd fvs)"

locale redis_server =
  fixes redisCommand :: "'r redis"
    and kv :: "'r \<Rightarrow> keyspace"
    and up :: "'r \<Rightarrow> bool"
  assumes get: "up s \<Longrightarrow> \<exists>s'. redisCommand s [''GET'', k] = (Some (get_reply (kv s k)), s')
      \<and> kv s' = kv s \<and> up s'"
    and set: "up s \<Longrightarrow> \<exists>s'. redisCommand s [''SET'', k, v] = (Some (REDIS_REPLY_STATUS ''OK''), s')
      \<and> kv s' = (kv s)(k \<mapsto> RString v) \<and> up s'"
    and hget: "up s \<Longrightarrow> \<exists>s'. redisCommand s [''HGET'', k, f]
        = (Some (case hash_of (kv s k) of None \<Rightarrow> wrong_type | Some h \<Rightarrow> bulk (h f)), s')
      \<and> kv s' = kv s \<and> up s'"
    and hmget: "up s \<Longrightarrow> fs \<noteq> [] \<Longrightarrow> \<exists>s'. redisCommand s (''HMGET'' # k # fs)
        = (Some (case hash_of (kv s k) of None \<Rightarrow> wrong_type
                 | Some h \<Rightarrow> REDIS_REPLY_ARRAY (map (\<lambda>f. bulk (h f)) fs)), s')
      \<and> kv s' = kv s \<and> up s'"
    and hset: "up s \<Longrightarrow> hash_of (kv s k) = Some h \<Longrightarrow> pairs args = Some fvs \<Longrightarrow> fvs \<noteq> [] \<Longrightarrow>
      \<exists>s' n. redisCommand s (''HSET'' # k # args) = (Some (REDIS_REPLY_INTEGER n), s')
      \<and> kv s' = (kv s)(k \<mapsto> RHash (hset h fvs)) \<and> up s'"
    and hset_wrong: "up s \<Longrightarrow> hash_of (kv s k) = None \<Longrightarrow> pairs args = Some fvs \<Longrightarrow> fvs \<noteq> [] \<Longrightarrow>
      \<exists>s'. redisCommand s (''HSET'' # k # args) = (Some wrong_type, s') \<and> kv s' = kv s \<and> up s'"

subsection \<open>An in-memory server\<close>

definition mem_hset :: "keyspace \<Rightarrow> string \<Rightarrow> string list \<Rightarrow> redis_reply option \<times> keyspace" where
  "mem_hset m k args =
     (case pairs args of
        None \<Rightarrow> (Some (REDIS_REPLY_ERROR ''ERR wrong number of arguments for 'hset' command''), m)
      | Some fvs \<Rightarrow>
          (case hash_of (m k) of
             None \<Rightarrow> (Some wrong_type, m)
           | Some h \<Rightarrow> (Some (REDIS_REPLY_INTEGER (int (length (filter (\<lambda>f. h f = None) (remdups (map fst fvs)))))),
                       m(k \<mapsto> RHash (hset h fvs)))))"

definition mem_hmget :: "keyspace \<Rightarrow> string \<Rightarrow> string list \<Rightarrow> redis_reply option \<times> keyspace" where
  "mem_hmget m k fs =
     (Some (case hash_of (m k) of None \<Rightarrow> wrong_type
            | Some h \<Rightarrow> REDIS_REPLY_ARRAY (map (\<lambda>f. bulk (h f)) fs)), m)"

definition redis_mem :: "keyspace redis" where
  "redis_mem m argv =
     (case argv of
        cmd # k # args \<Rightarrow>
          if cmd = ''GET'' \<and> args = [] then (Some (get_reply (m k)), m)
          else if cmd = ''SET'' \<and> length args = 1 then
            (Some (REDIS_REPLY_STATUS ''OK''), m(k \<mapsto> RString (hd args)))
          else if cmd = ''HGET'' \<and> length args = 1 then
            (Some (case hash_of (m k) of None \<Rightarrow> wrong_type | Some h \<Rightarrow> bulk (h (hd args))), m)
          else if cmd = ''HMGET'' \<and> args \<noteq> [] then mem_hmget m k args
          else if cmd = ''HSET'' then mem_hset m k args
          else (Some (REDIS_REPLY_ERROR ''ERR unknown command''), m)
      | _ \<Rightarrow> (Some (REDIS_REPLY_ERROR ''ERR unknown command''), m))"

interpretation redis_mem: redis_server redis_mem "\<lambda>m. m" "\<lambda>_. True"
  by unfold_locales (auto simp: redis_mem_def mem_hset_def mem_hmget_def split: option.split)

end
