(* ===== verification/Evm_Types.thy ===== *)
theory Evm_Types
  imports Evm_Prelude
begin

text \<open>
  The data types of \<^verbatim>\<open>include/evmdb/types.h\<close>. A fixed array \<open>uint8_t bytes[n]\<close> is a byte list,
  its length a well-formedness condition; an \<open>evmdb_bytes_t\<close> (pointer and length) is the list of
  its bytes. Field names carry a prefix of their struct.
\<close>

type_synonym evmdb_address = bytes
type_synonym evmdb_bytes32 = bytes
type_synonym evmdb_hash = bytes

record evmdb_account =
  acc_address :: evmdb_address
  acc_nonce :: u64
  acc_balance :: evmdb_bytes32
  acc_code_hash :: evmdb_hash

datatype evmdb_tx_type = EVMDB_TX_LEGACY | EVMDB_TX_EIP2930 | EVMDB_TX_EIP1559

record evmdb_tx =
  tx_type :: evmdb_tx_type
  tx_chain_id :: u64
  tx_nonce :: u64
  tx_gas_price :: evmdb_bytes32
  tx_max_fee_per_gas :: evmdb_bytes32
  tx_max_priority_fee :: evmdb_bytes32
  tx_gas_limit :: u64
  tx_to :: evmdb_address
  tx_to_is_null :: bool
  tx_value :: evmdb_bytes32
  tx_data :: bytes
  tx_v :: u64
  tx_r :: evmdb_bytes32
  tx_s :: evmdb_bytes32
  tx_hash :: evmdb_hash
  tx_from :: evmdb_address
  tx_raw :: bytes

record evmdb_log =
  log_address :: evmdb_address
  log_topics :: "evmdb_bytes32 list"
  log_topic_count :: byte
  log_data :: bytes

record evmdb_receipt =
  rec_tx_hash :: evmdb_hash
  rec_tx_index :: u64
  rec_block_number :: u64
  rec_block_hash :: evmdb_hash
  rec_from :: evmdb_address
  rec_to :: evmdb_address
  rec_gas_used :: u64
  rec_cumulative_gas :: u64
  rec_status :: bool
  rec_logs :: "evmdb_log list"
  rec_return_data :: bytes

record evmdb_block_context =
  bc_number :: u64
  bc_timestamp :: u64
  bc_coinbase :: evmdb_address
  bc_gas_limit :: u64
  bc_base_fee :: u64
  bc_chain_id :: u64

record evmdb_exec_result =
  er_success :: bool
  er_gas_used :: u64
  er_output :: bytes
  er_logs :: "evmdb_log list"
  er_error :: string

text \<open>What \<open>memset(.., 0, ..)\<close> and \<open>= {0}\<close> leave in the structs the program clears.\<close>

definition zero_address :: evmdb_address where
  "zero_address = replicate 20 0"

definition zero_bytes32 :: evmdb_bytes32 where
  "zero_bytes32 = replicate 32 0"

definition zero_tx :: evmdb_tx where
  "zero_tx = \<lparr>tx_type = EVMDB_TX_LEGACY, tx_chain_id = 0, tx_nonce = 0,
     tx_gas_price = zero_bytes32, tx_max_fee_per_gas = zero_bytes32,
     tx_max_priority_fee = zero_bytes32, tx_gas_limit = 0, tx_to = zero_address,
     tx_to_is_null = False, tx_value = zero_bytes32, tx_data = [], tx_v = 0,
     tx_r = zero_bytes32, tx_s = zero_bytes32, tx_hash = zero_bytes32,
     tx_from = zero_address, tx_raw = []\<rparr>"

definition zero_block_context :: evmdb_block_context where
  "zero_block_context = \<lparr>bc_number = 0, bc_timestamp = 0, bc_coinbase = zero_address,
     bc_gas_limit = 0, bc_base_fee = 0, bc_chain_id = 0\<rparr>"

definition zero_exec_result :: evmdb_exec_result where
  "zero_exec_result = \<lparr>er_success = False, er_gas_used = 0, er_output = [], er_logs = [],
     er_error = []\<rparr>"

text \<open>The arrays of a transaction have their declared sizes.\<close>

definition wf_tx :: "evmdb_tx \<Rightarrow> bool" where
  "wf_tx tx \<longleftrightarrow> length (tx_gas_price tx) = 32 \<and> length (tx_max_fee_per_gas tx) = 32
     \<and> length (tx_max_priority_fee tx) = 32 \<and> length (tx_to tx) = 20 \<and> length (tx_value tx) = 32
     \<and> length (tx_r tx) = 32 \<and> length (tx_s tx) = 32 \<and> length (tx_hash tx) = 32
     \<and> length (tx_from tx) = 20"

lemma length_zero_address [simp]: "length zero_address = 20"
  by (simp add: zero_address_def)

lemma length_zero_bytes32 [simp]: "length zero_bytes32 = 32"
  by (simp add: zero_bytes32_def)

lemma wf_zero_tx [simp]: "wf_tx zero_tx"
  by (simp add: wf_tx_def zero_tx_def)

end
