(* ===== verification/Evm_State.thy ===== *)
theory Evm_State
  imports Evm_Redis Evm_Types
begin

text \<open>
  The state layer, \<^verbatim>\<open>src/state/redis_state.c\<close>: accounts, storage, code, receipts and the block
  number in Redis.

  Every operation is one Redis command, sent between lock and unlock of the state's mutex, so a
  command is an atomic step and the mutex itself is not part of the model. A setter ignores the
  reply and returns 0; a getter returns 0 too (no caller looks at it) and is modelled by what it
  writes to its out parameter, whose old contents are an argument where the code may leave part
  of them in place.
\<close>

subsection \<open>Keys\<close>

text \<open>The arrays have 20 and 32 bytes, so that the encoder always accepts the buffer.\<close>

definition addr_to_hex :: "evmdb_address \<Rightarrow> string" where
  "addr_to_hex addr = (case evmdb_hex_encode addr 43 of Some s \<Rightarrow> s | None \<Rightarrow> [])"

definition hash_to_hex :: "evmdb_hash \<Rightarrow> string" where
  "hash_to_hex h = (case evmdb_hex_encode h 67 of Some s \<Rightarrow> s | None \<Rightarrow> [])"

definition bytes32_to_hex :: "evmdb_bytes32 \<Rightarrow> string" where
  "bytes32_to_hex b = (case evmdb_hex_encode b 67 of Some s \<Rightarrow> s | None \<Rightarrow> [])"

subsection \<open>Connection\<close>

text \<open>\<open>connect host port\<close> is \<open>redisConnectWithTimeout\<close>: \<open>None\<close> for a null or failed context.\<close>

definition evmdb_state_init ::
  "'r redis \<Rightarrow> (string \<Rightarrow> int \<Rightarrow> 'r option) \<Rightarrow> string \<Rightarrow> int \<Rightarrow> string option \<Rightarrow> int \<Rightarrow> 'r cres" where
  "evmdb_state_init redisCommand connect host port password db =
     (case connect host port of
        None \<Rightarrow> Inl RcError
      | Some s \<Rightarrow>
          bindE (case password of
              Some pw \<Rightarrow>
                if cstr pw \<noteq> [] then
                  (case redisCommand s [''AUTH'', cstr pw] of
                     (None, s) \<Rightarrow> Inl RcError
                   | (Some (REDIS_REPLY_ERROR _), s) \<Rightarrow> Inl RcError
                   | (Some _, s) \<Rightarrow> Inr s)
                else Inr s
            | None \<Rightarrow> Inr s) (\<lambda>s.
          if db > 0 then Inr (snd (redisCommand s [''SELECT'', print_base 10 (nat db)])) else Inr s))"

definition evmdb_state_close :: "'r option \<Rightarrow> 'r option" where
  "evmdb_state_close ctx = None"

subsection \<open>Accounts\<close>

text \<open>\<open>evmdb_hex_decode(r->str, out, 32)\<close> with its return value ignored.\<close>

definition decode_into :: "string \<Rightarrow> evmdb_bytes32 \<Rightarrow> evmdb_bytes32" where
  "decode_into str out = snd (evmdb_hex_decode (Some str) out 32)"

definition evmdb_state_get_account ::
  "'r redis \<Rightarrow> 'r \<Rightarrow> evmdb_address \<Rightarrow> evmdb_account \<Rightarrow> evmdb_account \<times> 'r" where
  "evmdb_state_get_account redisCommand s addr out =
     (case redisCommand s [''HMGET'', ''account:'' @ addr_to_hex addr, ''nonce'', ''balance'', ''codehash''] of
        (Some (REDIS_REPLY_ARRAY [n, b, c]), s) \<Rightarrow>
          (\<lparr>acc_address = addr,
            acc_nonce = (case n of REDIS_REPLY_STRING str \<Rightarrow> strtoull 10 str | _ \<Rightarrow> 0),
            acc_balance = (case b of REDIS_REPLY_STRING str \<Rightarrow> decode_into str (acc_balance out)
                                   | _ \<Rightarrow> zero_bytes32),
            acc_code_hash = (case c of REDIS_REPLY_STRING str \<Rightarrow> decode_into str (acc_code_hash out)
                                     | _ \<Rightarrow> zero_bytes32)\<rparr>, s)
      | (_, s) \<Rightarrow>
          (\<lparr>acc_address = addr, acc_nonce = 0, acc_balance = zero_bytes32,
            acc_code_hash = zero_bytes32\<rparr>, s))"

definition evmdb_state_set_account :: "'r redis \<Rightarrow> 'r \<Rightarrow> evmdb_account \<Rightarrow> int \<times> 'r" where
  "evmdb_state_set_account redisCommand s acct =
     (0, snd (redisCommand s [''HSET'', ''account:'' @ addr_to_hex (acc_address acct),
            ''nonce'', print_u64 (acc_nonce acct), ''balance'', bytes32_to_hex (acc_balance acct),
            ''codehash'', bytes32_to_hex (acc_code_hash acct)]))"

definition evmdb_state_get_balance ::
  "'r redis \<Rightarrow> 'r \<Rightarrow> evmdb_address \<Rightarrow> evmdb_bytes32 \<Rightarrow> evmdb_bytes32 \<times> 'r" where
  "evmdb_state_get_balance redisCommand s addr out =
     (case redisCommand s [''HGET'', ''account:'' @ addr_to_hex addr, ''balance''] of
        (Some (REDIS_REPLY_STRING str), s) \<Rightarrow> (decode_into str out, s)
      | (_, s) \<Rightarrow> (zero_bytes32, s))"

definition evmdb_state_set_balance ::
  "'r redis \<Rightarrow> 'r \<Rightarrow> evmdb_address \<Rightarrow> evmdb_bytes32 \<Rightarrow> int \<times> 'r" where
  "evmdb_state_set_balance redisCommand s addr balance =
     (0, snd (redisCommand s [''HSET'', ''account:'' @ addr_to_hex addr, ''balance'', bytes32_to_hex balance]))"

definition evmdb_state_get_nonce :: "'r redis \<Rightarrow> 'r \<Rightarrow> evmdb_address \<Rightarrow> u64 \<times> 'r" where
  "evmdb_state_get_nonce redisCommand s addr =
     (case redisCommand s [''HGET'', ''account:'' @ addr_to_hex addr, ''nonce''] of
        (Some (REDIS_REPLY_STRING str), s) \<Rightarrow> (strtoull 10 str, s)
      | (_, s) \<Rightarrow> (0, s))"

definition evmdb_state_set_nonce :: "'r redis \<Rightarrow> 'r \<Rightarrow> evmdb_address \<Rightarrow> u64 \<Rightarrow> int \<times> 'r" where
  "evmdb_state_set_nonce redisCommand s addr nonce =
     (0, snd (redisCommand s [''HSET'', ''account:'' @ addr_to_hex addr, ''nonce'', print_u64 nonce]))"

subsection \<open>Storage\<close>

definition evmdb_state_get_storage ::
  "'r redis \<Rightarrow> 'r \<Rightarrow> evmdb_address \<Rightarrow> evmdb_bytes32 \<Rightarrow> evmdb_bytes32 \<Rightarrow> evmdb_bytes32 \<times> 'r" where
  "evmdb_state_get_storage redisCommand s addr key out =
     (case redisCommand s [''HGET'', ''storage:'' @ addr_to_hex addr, bytes32_to_hex key] of
        (Some (REDIS_REPLY_STRING str), s) \<Rightarrow> (decode_into str out, s)
      | (_, s) \<Rightarrow> (zero_bytes32, s))"

definition evmdb_state_set_storage ::
  "'r redis \<Rightarrow> 'r \<Rightarrow> evmdb_address \<Rightarrow> evmdb_bytes32 \<Rightarrow> evmdb_bytes32 \<Rightarrow> int \<times> 'r" where
  "evmdb_state_set_storage redisCommand s addr key value =
     (0, snd (redisCommand s [''HSET'', ''storage:'' @ addr_to_hex addr, bytes32_to_hex key, bytes32_to_hex value]))"

subsection \<open>Code and receipts\<close>

text \<open>
  An \<open>evmdb_bytes_t\<close> that a getter fills: the data pointer, \<open>None\<close> for \<open>NULL\<close>, and the length. When
  the allocation fails the length is that of the stored value while the pointer is \<open>NULL\<close>.
\<close>

type_synonym out_bytes = "bytes option \<times> size_t"

definition evmdb_state_get_code ::
  "(nat \<Rightarrow> bool) \<Rightarrow> 'r redis \<Rightarrow> 'r \<Rightarrow> evmdb_address \<Rightarrow> out_bytes \<times> 'r" where
  "evmdb_state_get_code alloc redisCommand s addr =
     (case redisCommand s [''GET'', ''code:'' @ addr_to_hex addr] of
        (Some (REDIS_REPLY_STRING str), s) \<Rightarrow>
          ((if alloc (length str + 1) then Some (map char_to_byte str) else None,
            word_of_nat (length str)), s)
      | (_, s) \<Rightarrow> ((None, 0), s))"

definition evmdb_state_set_code :: "'r redis \<Rightarrow> 'r \<Rightarrow> evmdb_address \<Rightarrow> bytes \<Rightarrow> int \<times> 'r" where
  "evmdb_state_set_code redisCommand s addr code =
     (0, snd (redisCommand s [''SET'', ''code:'' @ addr_to_hex addr, map byte_to_char code]))"

definition evmdb_state_get_receipt ::
  "(nat \<Rightarrow> bool) \<Rightarrow> 'r redis \<Rightarrow> 'r \<Rightarrow> evmdb_hash \<Rightarrow> out_bytes \<times> 'r" where
  "evmdb_state_get_receipt alloc redisCommand s h =
     (case redisCommand s [''GET'', ''receipt:'' @ hash_to_hex h] of
        (Some (REDIS_REPLY_STRING str), s) \<Rightarrow>
          ((if alloc (length str) then Some (map char_to_byte str) else None,
            word_of_nat (length str)), s)
      | (_, s) \<Rightarrow> ((None, 0), s))"

definition evmdb_state_set_receipt :: "'r redis \<Rightarrow> 'r \<Rightarrow> evmdb_hash \<Rightarrow> bytes \<Rightarrow> int \<times> 'r" where
  "evmdb_state_set_receipt redisCommand s h data =
     (0, snd (redisCommand s [''SET'', ''receipt:'' @ hash_to_hex h, map byte_to_char data]))"

subsection \<open>Block number\<close>

definition evmdb_state_get_block_number :: "'r redis \<Rightarrow> 'r \<Rightarrow> u64 \<times> 'r" where
  "evmdb_state_get_block_number redisCommand s =
     (case redisCommand s [''GET'', ''block:latest''] of
        (Some (REDIS_REPLY_STRING str), s) \<Rightarrow> (strtoull 10 str, s)
      | (_, s) \<Rightarrow> (0, s))"

definition evmdb_state_set_block_number :: "'r redis \<Rightarrow> 'r \<Rightarrow> u64 \<Rightarrow> int \<times> 'r" where
  "evmdb_state_set_block_number redisCommand s number =
     (0, snd (redisCommand s [''SET'', ''block:latest'', print_u64 number]))"

end
