(* ===== verification/Evm_World.thy ===== *)
theory Evm_World
  imports Evm_State
begin

text \<open>
  What the state layer promises: an abstract world of nonces, balances, code hashes, storage
  words, code, receipts and a block number. A keyspace is well-formed when every entry under the
  program's keys is text that the program itself would have written. On a well-formed keyspace
  each getter returns the world's value and each setter is an update of the world at one point.
\<close>

subsection \<open>The abstract world\<close>

record world =
  w_nonce :: "evmdb_address \<Rightarrow> u64"
  w_balance :: "evmdb_address \<Rightarrow> evmdb_bytes32"
  w_codehash :: "evmdb_address \<Rightarrow> evmdb_hash"
  w_storage :: "evmdb_address \<Rightarrow> evmdb_bytes32 \<Rightarrow> evmdb_bytes32"
  w_code :: "evmdb_address \<Rightarrow> bytes option"
  w_receipt :: "evmdb_hash \<Rightarrow> bytes option"
  w_block :: u64

definition hash_field :: "keyspace \<Rightarrow> string \<Rightarrow> string \<Rightarrow> string option" where
  "hash_field m k f = (case m k of Some (RHash h) \<Rightarrow> h f | _ \<Rightarrow> None)"

definition string_at :: "keyspace \<Rightarrow> string \<Rightarrow> string option" where
  "string_at m k = (case m k of Some (RString v) \<Rightarrow> Some v | _ \<Rightarrow> None)"

definition number_of :: "string option \<Rightarrow> u64" where
  "number_of v = (case v of Some str \<Rightarrow> strtoull 10 str | None \<Rightarrow> 0)"

definition word_of :: "string option \<Rightarrow> evmdb_bytes32" where
  "word_of v = (case v of Some str \<Rightarrow> decode_into str zero_bytes32 | None \<Rightarrow> zero_bytes32)"

definition account_key :: "evmdb_address \<Rightarrow> string" where
  "account_key a = ''account:'' @ hex_of_bytes a"

definition storage_key :: "evmdb_address \<Rightarrow> string" where
  "storage_key a = ''storage:'' @ hex_of_bytes a"

definition code_key :: "evmdb_address \<Rightarrow> string" where
  "code_key a = ''code:'' @ hex_of_bytes a"

definition receipt_key :: "evmdb_hash \<Rightarrow> string" where
  "receipt_key h = ''receipt:'' @ hex_of_bytes h"

definition block_key :: string where
  "block_key = ''block:latest''"

definition world_of :: "keyspace \<Rightarrow> world" where
  "world_of m = \<lparr>
     w_nonce = (\<lambda>a. number_of (hash_field m (account_key a) ''nonce'')),
     w_balance = (\<lambda>a. word_of (hash_field m (account_key a) ''balance'')),
     w_codehash = (\<lambda>a. word_of (hash_field m (account_key a) ''codehash'')),
     w_storage = (\<lambda>a k. word_of (hash_field m (storage_key a) (hex_of_bytes k))),
     w_code = (\<lambda>a. map_option (map char_to_byte) (string_at m (code_key a))),
     w_receipt = (\<lambda>h. map_option (map char_to_byte) (string_at m (receipt_key h))),
     w_block = number_of (string_at m block_key)\<rparr>"

subsection \<open>Well-formed keyspaces\<close>

definition word_text :: "string option \<Rightarrow> bool" where
  "word_text v \<longleftrightarrow> (case v of None \<Rightarrow> True | Some str \<Rightarrow> \<exists>b. length b = 32 \<and> str = hex_of_bytes b)"

definition wf_db :: "keyspace \<Rightarrow> bool" where
  "wf_db m \<longleftrightarrow>
     (\<forall>a. hash_of (m (account_key a)) \<noteq> None
        \<and> word_text (hash_field m (account_key a) ''balance'')
        \<and> word_text (hash_field m (account_key a) ''codehash''))
     \<and> (\<forall>a. hash_of (m (storage_key a)) \<noteq> None
        \<and> (\<forall>k. word_text (hash_field m (storage_key a) (hex_of_bytes k))))
     \<and> (\<forall>a. case string_at m (code_key a) of None \<Rightarrow> True | Some v \<Rightarrow> length v < 2 ^ 64)
     \<and> (\<forall>h. case string_at m (receipt_key h) of None \<Rightarrow> True | Some v \<Rightarrow> length v < 2 ^ 64)"

lemma hex_of_bytes_inject [simp]: "hex_of_bytes a = hex_of_bytes b \<longleftrightarrow> a = b"
proof
  assume "hex_of_bytes a = hex_of_bytes b"
  then have eq: "concat (map hex_byte a) = concat (map hex_byte b)" by (simp add: hex_of_bytes_def)
  have "be_val a = be_val b" using arg_cong [OF eq, of "hex_num 0"] by (simp add: hex_num_bytes)
  moreover have "length a = length b" using arg_cong [OF eq, of length] by simp
  ultimately show "a = b" by (intro be_val_inject)
qed simp

lemmas key_defs = account_key_def storage_key_def code_key_def receipt_key_def block_key_def

lemma keys_distinct [simp]:
  "account_key a \<noteq> storage_key b" "account_key a \<noteq> code_key b" "account_key a \<noteq> receipt_key h"
  "account_key a \<noteq> block_key" "storage_key a \<noteq> account_key b" "storage_key a \<noteq> code_key b"
  "storage_key a \<noteq> receipt_key h" "storage_key a \<noteq> block_key" "code_key a \<noteq> account_key b"
  "code_key a \<noteq> storage_key b" "code_key a \<noteq> receipt_key h" "code_key a \<noteq> block_key"
  "receipt_key h \<noteq> account_key b" "receipt_key h \<noteq> storage_key b" "receipt_key h \<noteq> code_key b"
  "receipt_key h \<noteq> block_key" "block_key \<noteq> account_key a" "block_key \<noteq> storage_key a"
  "block_key \<noteq> code_key a" "block_key \<noteq> receipt_key h"
  by (simp_all add: key_defs)

lemma keys_inject [simp]:
  "account_key a = account_key b \<longleftrightarrow> a = b" "storage_key a = storage_key b \<longleftrightarrow> a = b"
  "code_key a = code_key b \<longleftrightarrow> a = b" "receipt_key h = receipt_key g \<longleftrightarrow> h = g"
  by (simp_all add: key_defs)

lemma to_hex [simp]:
  "length a = 20 \<Longrightarrow> addr_to_hex a = hex_of_bytes a"
  "length b = 32 \<Longrightarrow> bytes32_to_hex b = hex_of_bytes b"
  "length b = 32 \<Longrightarrow> hash_to_hex b = hex_of_bytes b"
  by (simp_all add: addr_to_hex_def bytes32_to_hex_def hash_to_hex_def hex_encode_fits hex_of_bytes_def)

lemma decode_into_hex [simp]:
  "length b = 32 \<Longrightarrow> length out = 32 \<Longrightarrow> decode_into (hex_of_bytes b) out = b"
  using hex_decode_hex_bytes [of b 32 out] by (simp add: decode_into_def hex_of_bytes_def)

lemma word_text_decode:
  "word_text (Some str) \<Longrightarrow> length out = 32 \<Longrightarrow> decode_into str out = word_of (Some str)"
  by (auto simp: word_text_def word_of_def)

lemma hash_field_hash_of: "hash_of (m k) = Some h \<Longrightarrow> hash_field m k f = h f"
  by (auto simp: hash_of_def hash_field_def split: option.splits redis_value.splits)

lemma wf_dbD:
  assumes "wf_db m"
  shows "hash_of (m (account_key a)) \<noteq> None" and "hash_of (m (storage_key a)) \<noteq> None"
    and "word_text (hash_field m (account_key a) ''balance'')"
    and "word_text (hash_field m (account_key a) ''codehash'')"
    and "word_text (hash_field m (storage_key a) (hex_of_bytes k))"
    and "string_at m (code_key a) = Some v \<Longrightarrow> length v < 2 ^ 64"
    and "string_at m (receipt_key h) = Some v \<Longrightarrow> length v < 2 ^ 64"
  using assms unfolding wf_db_def by (auto dest: spec [of _ a] spec [of _ h] split: option.splits)

subsection \<open>Updates of a keyspace are updates of the world\<close>

lemma string_update:
  "string_at (m(k \<mapsto> RString v)) k' = (if k' = k then Some v else string_at m k')"
  "hash_field (m(k \<mapsto> RString v)) k' f = (if k' = k then None else hash_field m k' f)"
  by (simp_all add: string_at_def hash_field_def)

lemma hash_update:
  "string_at (m(k \<mapsto> RHash h)) k' = (if k' = k then None else string_at m k')"
  "hash_field (m(k \<mapsto> RHash h)) k' f = (if k' = k then h f else hash_field m k' f)"
  "hash_of (Some (RHash h)) = Some h"
  by (simp_all add: string_at_def hash_field_def hash_of_def)

lemma world_set_field:
  assumes h: "hash_of (m (account_key a)) = Some h"
  shows "world_of (m(account_key a \<mapsto> RHash (h(''nonce'' \<mapsto> v))))
      = (world_of m)\<lparr>w_nonce := (w_nonce (world_of m))(a := number_of (Some v))\<rparr>"
    and "world_of (m(account_key a \<mapsto> RHash (h(''balance'' \<mapsto> v))))
      = (world_of m)\<lparr>w_balance := (w_balance (world_of m))(a := word_of (Some v))\<rparr>"
  using hash_field_hash_of [of m, OF h]
  by (auto simp: world_of_def hash_update fun_eq_iff)

lemma world_set_storage:
  assumes h: "hash_of (m (storage_key a)) = Some h"
  shows "world_of (m(storage_key a \<mapsto> RHash (h(hex_of_bytes k \<mapsto> v))))
      = (world_of m)\<lparr>w_storage := (w_storage (world_of m))(a := (w_storage (world_of m) a)(k := word_of (Some v)))\<rparr>"
  using hash_field_hash_of [of m, OF h]
  by (auto simp: world_of_def hash_update fun_eq_iff)

lemma world_set_account:
  assumes h: "hash_of (m (account_key a)) = Some h"
  shows "world_of (m(account_key a \<mapsto> RHash (h(''nonce'' \<mapsto> n, ''balance'' \<mapsto> b, ''codehash'' \<mapsto> c))))
      = (world_of m)\<lparr>w_nonce := (w_nonce (world_of m))(a := number_of (Some n)),
          w_balance := (w_balance (world_of m))(a := word_of (Some b)),
          w_codehash := (w_codehash (world_of m))(a := word_of (Some c))\<rparr>"
  using hash_field_hash_of [of m, OF h]
  by (auto simp: world_of_def hash_update fun_eq_iff)

lemma world_set_string:
  "world_of (m(code_key a \<mapsto> RString v))
     = (world_of m)\<lparr>w_code := (w_code (world_of m))(a := Some (map char_to_byte v))\<rparr>"
  "world_of (m(receipt_key g \<mapsto> RString v))
     = (world_of m)\<lparr>w_receipt := (w_receipt (world_of m))(g := Some (map char_to_byte v))\<rparr>"
  "world_of (m(block_key \<mapsto> RString v)) = (world_of m)\<lparr>w_block := number_of (Some v)\<rparr>"
  by (auto simp: world_of_def string_update fun_eq_iff)

lemma wf_db_set_account:
  assumes "wf_db m" and h: "hash_of (m (account_key a)) = Some h"
    and "word_text (h' ''balance'')" and "word_text (h' ''codehash'')"
  shows "wf_db (m(account_key a \<mapsto> RHash h'))"
  using assms(1,3,4) unfolding wf_db_def
  by (auto simp: hash_update)

lemma wf_db_set_storage:
  assumes "wf_db m" and h: "hash_of (m (storage_key a)) = Some h" and "length v = 32"
  shows "wf_db (m(storage_key a \<mapsto> RHash (h(hex_of_bytes k \<mapsto> hex_of_bytes v))))"
  using assms(1,3) hash_field_hash_of [of m, OF h] wf_dbD(5) [OF assms(1), of a] unfolding wf_db_def
  by (auto simp: hash_update word_text_def)

lemma wf_db_set_string:
  assumes "wf_db m" and "length v < 2 ^ 64"
  shows "wf_db (m(code_key a \<mapsto> RString v))" and "wf_db (m(receipt_key g \<mapsto> RString v))"
    and "wf_db (m(block_key \<mapsto> RString v))"
  using assms unfolding wf_db_def by (auto simp: string_update)

subsection \<open>The operations on a well-formed keyspace\<close>

context redis_server
begin

text \<open>The connection is up and the keyspace well-formed.\<close>

definition ok :: "'r \<Rightarrow> bool" where
  "ok s \<longleftrightarrow> up s \<and> wf_db (kv s)"

text \<open>A read: the value \<open>v\<close>, and a state with the same keyspace.\<close>

definition reads :: "'a \<times> 'r \<Rightarrow> 'r \<Rightarrow> 'a \<Rightarrow> bool" where
  "reads res s v \<longleftrightarrow> (\<exists>s'. res = (v, s') \<and> kv s' = kv s \<and> ok s')"

lemma hget_reads:
  assumes "ok s" and "hash_of (kv s k) = Some h"
  obtains s' where "redisCommand s [''HGET'', k, f] = (Some (bulk (h f)), s')" "kv s' = kv s" "ok s'"
  using hget [of s k f] assms by (auto simp: ok_def)

lemma get_reads:
  assumes "ok s"
  obtains s' where "redisCommand s [''GET'', k] = (Some (get_reply (kv s k)), s')" "kv s' = kv s" "ok s'"
  using get [of s k] assms by (auto simp: ok_def)

lemma get_nonce_reads:
  assumes "ok s" and "length a = 20"
  shows "reads (evmdb_state_get_nonce redisCommand s a) s (w_nonce (world_of (kv s)) a)"
proof -
  obtain h where h: "hash_of (kv s (account_key a)) = Some h"
    using assms(1) wf_dbD(1) by (auto simp: ok_def)
  from hget_reads [OF assms(1) this, of "''nonce''"] obtain s' where
    "redisCommand s [''HGET'', account_key a, ''nonce''] = (Some (bulk (h ''nonce'')), s')"
    "kv s' = kv s" "ok s'" .
  with assms(2) hash_field_hash_of [of "kv s", OF h] show ?thesis
    by (cases "h ''nonce''")
      (auto simp: reads_def evmdb_state_get_nonce_def account_key_def world_of_def number_of_def)
qed

lemma get_balance_reads:
  assumes "ok s" and "length a = 20" and "length out = 32"
  shows "reads (evmdb_state_get_balance redisCommand s a out) s (w_balance (world_of (kv s)) a)"
proof -
  obtain h where h: "hash_of (kv s (account_key a)) = Some h"
    using assms(1) wf_dbD(1) by (auto simp: ok_def)
  then have "word_text (h ''balance'')"
    using wf_dbD(3) [of "kv s" a] assms(1) hash_field_hash_of [of "kv s", OF h] by (simp add: ok_def)
  moreover from hget_reads [OF assms(1) h, of "''balance''"] obtain s' where
    "redisCommand s [''HGET'', account_key a, ''balance''] = (Some (bulk (h ''balance'')), s')"
    "kv s' = kv s" "ok s'" .
  ultimately show ?thesis using assms(2,3) hash_field_hash_of [of "kv s", OF h]
    by (cases "h ''balance''")
      (auto simp: reads_def evmdb_state_get_balance_def account_key_def world_of_def
        word_text_decode word_of_def [of None])
qed

lemma get_storage_reads:
  assumes "ok s" and "length a = 20" and "length k = 32" and "length out = 32"
  shows "reads (evmdb_state_get_storage redisCommand s a k out) s (w_storage (world_of (kv s)) a k)"
proof -
  obtain h where h: "hash_of (kv s (storage_key a)) = Some h"
    using assms(1) wf_dbD(2) by (auto simp: ok_def)
  then have "word_text (h (hex_of_bytes k))"
    using wf_dbD(5) [of "kv s" a] assms(1) hash_field_hash_of [of "kv s", OF h] by (simp add: ok_def)
  moreover from hget_reads [OF assms(1) h, of "hex_of_bytes k"] obtain s' where
    "redisCommand s [''HGET'', storage_key a, hex_of_bytes k] = (Some (bulk (h (hex_of_bytes k))), s')"
    "kv s' = kv s" "ok s'" .
  ultimately show ?thesis using assms(2-4) hash_field_hash_of [of "kv s", OF h]
    by (cases "h (hex_of_bytes k)")
      (auto simp: reads_def evmdb_state_get_storage_def storage_key_def world_of_def
        word_text_decode word_of_def [of None])
qed

text \<open>The bytes of an out parameter: a null pointer with a length is not readable.\<close>

lemma get_code_reads:
  assumes "ok s" and "length a = 20"
  shows "reads (evmdb_state_get_code alloc redisCommand s a) s
    (case w_code (world_of (kv s)) a of None \<Rightarrow> (None, 0)
     | Some c \<Rightarrow> (if alloc (length c + 1) then Some c else None, word_of_nat (length c)))"
proof -
  from get_reads [OF assms(1), of "code_key a"] obtain s' where
    "redisCommand s [''GET'', code_key a] = (Some (get_reply (kv s (code_key a))), s')"
    "kv s' = kv s" "ok s'" .
  then show ?thesis using assms(2)
    by (auto simp: reads_def evmdb_state_get_code_def code_key_def world_of_def get_reply_def string_at_def
        wrong_type_def split: option.splits redis_value.splits)
qed

lemma get_receipt_reads:
  assumes "ok s" and "length h = 32"
  shows "reads (evmdb_state_get_receipt alloc redisCommand s h) s
    (case w_receipt (world_of (kv s)) h of None \<Rightarrow> (None, 0)
     | Some v \<Rightarrow> (if alloc (length v) then Some v else None, word_of_nat (length v)))"
proof -
  from get_reads [OF assms(1), of "receipt_key h"] obtain s' where
    "redisCommand s [''GET'', receipt_key h] = (Some (get_reply (kv s (receipt_key h))), s')"
    "kv s' = kv s" "ok s'" .
  then show ?thesis using assms(2)
    by (auto simp: reads_def evmdb_state_get_receipt_def receipt_key_def world_of_def get_reply_def string_at_def
        wrong_type_def split: option.splits redis_value.splits)
qed

lemma get_block_number_reads:
  assumes "ok s"
  shows "reads (evmdb_state_get_block_number redisCommand s) s (w_block (world_of (kv s)))"
proof -
  from get_reads [OF assms(1), of block_key] obtain s' where
    "redisCommand s [''GET'', block_key] = (Some (get_reply (kv s block_key)), s')"
    "kv s' = kv s" "ok s'" .
  then show ?thesis
    by (auto simp: reads_def evmdb_state_get_block_number_def block_key_def world_of_def get_reply_def
        string_at_def number_of_def wrong_type_def split: option.splits redis_value.splits)
qed

lemma get_account_reads:
  assumes "ok s" and "length a = 20" and "length (acc_balance out) = 32" and "length (acc_code_hash out) = 32"
  shows "reads (evmdb_state_get_account redisCommand s a out) s
    \<lparr>acc_address = a, acc_nonce = w_nonce (world_of (kv s)) a,
     acc_balance = w_balance (world_of (kv s)) a, acc_code_hash = w_codehash (world_of (kv s)) a\<rparr>"
proof -
  let ?fs = "[''nonce'', ''balance'', ''codehash'']"
  obtain h where h: "hash_of (kv s (account_key a)) = Some h"
    using assms(1) wf_dbD(1) by (auto simp: ok_def)
  note field = hash_field_hash_of [of "kv s", OF h]
  have words: "word_text (h ''balance'')" "word_text (h ''codehash'')"
    using wf_dbD(3,4) [of "kv s" a] assms(1) field by (simp_all add: ok_def)
  then have "(case bulk (h f) of REDIS_REPLY_STRING str \<Rightarrow> decode_into str out | _ \<Rightarrow> zero_bytes32) = word_of (h f)"
    if "f \<in> {''balance'', ''codehash''}" "length out = 32" for f out
    using that by (cases "h f") (auto simp: word_text_decode word_of_def [of None])
  moreover have "(case bulk (h f) of REDIS_REPLY_STRING str \<Rightarrow> strtoull 10 str | _ \<Rightarrow> 0) = number_of (h f)" for f
    by (cases "h f") (simp_all add: number_of_def)
  moreover obtain s' where "redisCommand s (''HMGET'' # account_key a # ?fs)
      = (Some (REDIS_REPLY_ARRAY (map (\<lambda>f. bulk (h f)) ?fs)), s')" "kv s' = kv s" "ok s'"
    using hmget [of s ?fs "account_key a"] assms(1) h by (auto simp: ok_def)
  ultimately show ?thesis
    using assms(2-4) field by (simp add: reads_def evmdb_state_get_account_def account_key_def world_of_def)
qed

text \<open>A write: return code 0 and a state whose world is \<open>w\<close>.\<close>

definition writes :: "int \<times> 'r \<Rightarrow> world \<Rightarrow> bool" where
  "writes res w \<longleftrightarrow> (\<exists>s'. res = (0, s') \<and> world_of (kv s') = w \<and> ok s')"

lemma hset_writes:
  assumes "ok s" and "hash_of (kv s k) = Some h" and "pairs args = Some fvs" and "fvs \<noteq> []"
    and "wf_db ((kv s)(k \<mapsto> RHash (hset h fvs)))"
  shows "writes (0, snd (redisCommand s (''HSET'' # k # args))) (world_of ((kv s)(k \<mapsto> RHash (hset h fvs))))"
proof -
  obtain s' n where "redisCommand s (''HSET'' # k # args) = (Some (REDIS_REPLY_INTEGER n), s')"
    "kv s' = (kv s)(k \<mapsto> RHash (hset h fvs))" "up s'"
    using hset [of s k h args fvs] assms by (auto simp: ok_def)
  with assms(5) show ?thesis by (auto simp: writes_def ok_def)
qed

lemma set_writes:
  assumes "ok s" and "wf_db ((kv s)(k \<mapsto> RString v))"
  shows "writes (0, snd (redisCommand s [''SET'', k, v])) (world_of ((kv s)(k \<mapsto> RString v)))"
proof -
  obtain s' where "redisCommand s [''SET'', k, v] = (Some (REDIS_REPLY_STATUS ''OK''), s')"
    "kv s' = (kv s)(k \<mapsto> RString v)" "up s'"
    using set [of s k v] assms by (auto simp: ok_def)
  with assms(2) show ?thesis by (auto simp: writes_def ok_def)
qed

lemma account_hash:
  assumes "ok s"
  obtains h where "hash_of (kv s (account_key a)) = Some h"
    "word_text (h ''balance'')" "word_text (h ''codehash'')"
proof -
  obtain h where "hash_of (kv s (account_key a)) = Some h"
    using assms wf_dbD(1) by (auto simp: ok_def)
  with that wf_dbD(3,4) [of "kv s" a] assms hash_field_hash_of [of "kv s", OF this] show thesis
    by (simp add: ok_def)
qed

lemma set_nonce_writes:
  assumes "ok s" and "length a = 20"
  shows "writes (evmdb_state_set_nonce redisCommand s a n)
    ((world_of (kv s))\<lparr>w_nonce := (w_nonce (world_of (kv s)))(a := n)\<rparr>)"
proof -
  obtain h where h: "hash_of (kv s (account_key a)) = Some h" "word_text (h ''balance'')"
    "word_text (h ''codehash'')" using account_hash [OF assms(1)] .
  then have "wf_db ((kv s)(account_key a \<mapsto> RHash (hset h [(''nonce'', print_u64 n)])))"
    using assms(1) by (intro wf_db_set_account) (auto simp: ok_def Evm_Redis.hset_def)
  from hset_writes [OF assms(1) h(1) _ _ this, of "[''nonce'', print_u64 n]"] show ?thesis
    using assms(2) h(1) world_set_field(1) [of "kv s" a h "print_u64 n"]
    by (simp add: evmdb_state_set_nonce_def account_key_def Evm_Redis.hset_def number_of_def)
qed

lemma set_balance_writes:
  assumes "ok s" and "length a = 20" and "length b = 32"
  shows "writes (evmdb_state_set_balance redisCommand s a b)
    ((world_of (kv s))\<lparr>w_balance := (w_balance (world_of (kv s)))(a := b)\<rparr>)"
proof -
  obtain h where h: "hash_of (kv s (account_key a)) = Some h" "word_text (h ''balance'')"
    "word_text (h ''codehash'')" using account_hash [OF assms(1)] .
  then have "wf_db ((kv s)(account_key a \<mapsto> RHash (hset h [(''balance'', hex_of_bytes b)])))"
    using assms by (intro wf_db_set_account) (auto simp: ok_def Evm_Redis.hset_def word_text_def)
  from hset_writes [OF assms(1) h(1) _ _ this, of "[''balance'', hex_of_bytes b]"] show ?thesis
    using assms(2,3) h(1) world_set_field(2) [of "kv s" a h "hex_of_bytes b"]
    by (simp add: evmdb_state_set_balance_def account_key_def Evm_Redis.hset_def word_of_def)
qed

lemma set_account_writes:
  assumes "ok s" and "length (acc_address x) = 20" and "length (acc_balance x) = 32"
    and "length (acc_code_hash x) = 32"
  shows "writes (evmdb_state_set_account redisCommand s x)
    ((world_of (kv s))\<lparr>w_nonce := (w_nonce (world_of (kv s)))(acc_address x := acc_nonce x),
       w_balance := (w_balance (world_of (kv s)))(acc_address x := acc_balance x),
       w_codehash := (w_codehash (world_of (kv s)))(acc_address x := acc_code_hash x)\<rparr>)"
proof -
  let ?a = "acc_address x"
  let ?fvs = "[(''nonce'', print_u64 (acc_nonce x)), (''balance'', hex_of_bytes (acc_balance x)),
    (''codehash'', hex_of_bytes (acc_code_hash x))]"
  obtain h where h: "hash_of (kv s (account_key ?a)) = Some h" using account_hash [OF assms(1)] .
  then have "wf_db ((kv s)(account_key ?a \<mapsto> RHash (hset h ?fvs)))"
    using assms by (intro wf_db_set_account) (auto simp: ok_def Evm_Redis.hset_def word_text_def)
  from hset_writes [OF assms(1) h(1) _ _ this, of "concat (map (\<lambda>(f, v). [f, v]) ?fvs)"] show ?thesis
    using assms(2-4) h(1) world_set_account [of "kv s" ?a h "print_u64 (acc_nonce x)" "hex_of_bytes (acc_balance x)"
      "hex_of_bytes (acc_code_hash x)"]
    by (simp add: evmdb_state_set_account_def account_key_def Evm_Redis.hset_def number_of_def word_of_def)
qed

lemma set_storage_writes:
  assumes "ok s" and "length a = 20" and "length k = 32" and "length v = 32"
  shows "writes (evmdb_state_set_storage redisCommand s a k v)
    ((world_of (kv s))\<lparr>w_storage := (w_storage (world_of (kv s)))(a := (w_storage (world_of (kv s)) a)(k := v))\<rparr>)"
proof -
  obtain h where h: "hash_of (kv s (storage_key a)) = Some h"
    using assms(1) wf_dbD(2) by (auto simp: ok_def)
  then have "wf_db ((kv s)(storage_key a \<mapsto> RHash (hset h [(hex_of_bytes k, hex_of_bytes v)])))"
    using assms wf_db_set_storage [of "kv s" a h v k] by (simp add: ok_def Evm_Redis.hset_def)
  from hset_writes [OF assms(1) h(1) _ _ this, of "[hex_of_bytes k, hex_of_bytes v]"] show ?thesis
    using assms(2-4) h(1) world_set_storage [of "kv s" a h k "hex_of_bytes v"]
    by (simp add: evmdb_state_set_storage_def storage_key_def Evm_Redis.hset_def word_of_def)
qed

lemma set_code_writes:
  assumes "ok s" and "length a = 20" and "length c < 2 ^ 64"
  shows "writes (evmdb_state_set_code redisCommand s a c)
    ((world_of (kv s))\<lparr>w_code := (w_code (world_of (kv s)))(a := Some c)\<rparr>)"
proof -
  have "wf_db ((kv s)(code_key a \<mapsto> RString (map byte_to_char c)))"
    using assms by (intro wf_db_set_string) (simp_all add: ok_def)
  from set_writes [OF assms(1) this] world_set_string(1) [of "kv s" a "map byte_to_char c"] assms(2)
  show ?thesis by (simp add: evmdb_state_set_code_def code_key_def comp_def)
qed

lemma set_receipt_writes:
  assumes "ok s" and "length h = 32" and "length d < 2 ^ 64"
  shows "writes (evmdb_state_set_receipt redisCommand s h d)
    ((world_of (kv s))\<lparr>w_receipt := (w_receipt (world_of (kv s)))(h := Some d)\<rparr>)"
proof -
  have "wf_db ((kv s)(receipt_key h \<mapsto> RString (map byte_to_char d)))"
    using assms by (intro wf_db_set_string) (simp_all add: ok_def)
  from set_writes [OF assms(1) this] world_set_string(2) [of "kv s" h "map byte_to_char d"] assms(2)
  show ?thesis by (simp add: evmdb_state_set_receipt_def receipt_key_def comp_def)
qed

lemma set_block_number_writes:
  assumes "ok s"
  shows "writes (evmdb_state_set_block_number redisCommand s n) ((world_of (kv s))\<lparr>w_block := n\<rparr>)"
proof -
  have "length (print_u64 n) < 2 ^ 64" using length_print_u64 [of n] by simp
  then have "wf_db ((kv s)(block_key \<mapsto> RString (print_u64 n)))"
    using assms by (intro wf_db_set_string) (simp_all add: ok_def)
  from set_writes [OF assms(1) this] world_set_string(3) [of "kv s" "print_u64 n"]
  show ?thesis by (simp add: evmdb_state_set_block_number_def block_key_def number_of_def)
qed

end

subsection \<open>Properties\<close>

lemmas server_defs = redis_server.ok_def redis_server.reads_def redis_server.writes_def

lemma server_okI: "redis_server rc kv up \<Longrightarrow> up s \<Longrightarrow> wf_db (kv s) \<Longrightarrow> redis_server.ok kv up s"
  by (simp add: redis_server.ok_def)

text \<open>
  C15: On a well-formed keyspace every getter of the state layer returns the value of the abstract
  world, whatever its out parameter held before, and changes nothing in Redis: nonce, balance,
  storage word, block number and the whole account record.
\<close>

theorem state_getters_read_world:
  assumes redis: "redis_server rc kv up" and up: "up s" and wf: "wf_db (kv s)"
    and lens: "length a = 20" "length k = 32" "length out = 32"
      "length (acc_balance x) = 32" "length (acc_code_hash x) = 32"
  defines "w \<equiv> world_of (kv s)"
  shows "(\<exists>s'. evmdb_state_get_nonce rc s a = (w_nonce w a, s') \<and> kv s' = kv s)
    \<and> (\<exists>s'. evmdb_state_get_balance rc s a out = (w_balance w a, s') \<and> kv s' = kv s)
    \<and> (\<exists>s'. evmdb_state_get_storage rc s a k out = (w_storage w a k, s') \<and> kv s' = kv s)
    \<and> (\<exists>s'. evmdb_state_get_block_number rc s = (w_block w, s') \<and> kv s' = kv s)
    \<and> (\<exists>s'. evmdb_state_get_account rc s a x
          = (\<lparr>acc_address = a, acc_nonce = w_nonce w a, acc_balance = w_balance w a,
              acc_code_hash = w_codehash w a\<rparr>, s') \<and> kv s' = kv s)"
proof -
  note ok = server_okI [OF redis up wf]
  note reads = redis_server.get_nonce_reads [OF redis ok lens(1)]
    redis_server.get_balance_reads [OF redis ok lens(1,3)]
    redis_server.get_storage_reads [OF redis ok lens(1-3)]
    redis_server.get_block_number_reads [OF redis ok]
    redis_server.get_account_reads [OF redis ok lens(1,4,5)]
  show ?thesis using reads unfolding redis_server.reads_def [OF redis] w_def by blast
qed

definition sample_db :: keyspace where
  "sample_db = Map.empty(account_key zero_address \<mapsto> RHash [''nonce'' \<mapsto> ''7''], block_key \<mapsto> RString ''12'')"

lemma wf_sample_db: "wf_db sample_db"
  by (simp add: wf_db_def sample_db_def hash_of_def hash_field_def string_at_def word_text_def)

theorem state_getters_read_world_witness:
  "fst (evmdb_state_get_nonce redis_mem sample_db zero_address) = 7"
  using state_getters_read_world [OF redis_mem.redis_server_axioms, of sample_db zero_address
      zero_bytes32 zero_bytes32 "\<lparr>acc_address = zero_address, acc_nonce = 0, acc_balance = zero_bytes32,
        acc_code_hash = zero_bytes32\<rparr>"] wf_sample_db
  by (auto simp: world_of_def sample_db_def hash_field_def number_of_def strtoull_def cstr_def NUL_def
      isspace_def scan_sign_def scan_base_def digit_val_def)

text \<open>
  C16: Every setter of the state layer is an update of the abstract world at exactly one point,
  keeps the keyspace well-formed and returns 0: nothing else in the world changes.
\<close>

theorem state_setters_update_world:
  assumes redis: "redis_server rc kv up" and up: "up s" and wf: "wf_db (kv s)"
    and lens: "length a = 20" "length k = 32" "length v = 32" "length c < 2 ^ 64"
  defines "w \<equiv> world_of (kv s)"
  shows "(\<exists>s'. evmdb_state_set_nonce rc s a n = (0, s') \<and> up s' \<and> wf_db (kv s')
        \<and> world_of (kv s') = w\<lparr>w_nonce := (w_nonce w)(a := n)\<rparr>)
    \<and> (\<exists>s'. evmdb_state_set_balance rc s a v = (0, s') \<and> up s' \<and> wf_db (kv s')
        \<and> world_of (kv s') = w\<lparr>w_balance := (w_balance w)(a := v)\<rparr>)
    \<and> (\<exists>s'. evmdb_state_set_storage rc s a k v = (0, s') \<and> up s' \<and> wf_db (kv s')
        \<and> world_of (kv s') = w\<lparr>w_storage := (w_storage w)(a := (w_storage w a)(k := v))\<rparr>)
    \<and> (\<exists>s'. evmdb_state_set_code rc s a c = (0, s') \<and> up s' \<and> wf_db (kv s')
        \<and> world_of (kv s') = w\<lparr>w_code := (w_code w)(a := Some c)\<rparr>)
    \<and> (\<exists>s'. evmdb_state_set_receipt rc s v c = (0, s') \<and> up s' \<and> wf_db (kv s')
        \<and> world_of (kv s') = w\<lparr>w_receipt := (w_receipt w)(v := Some c)\<rparr>)
    \<and> (\<exists>s'. evmdb_state_set_block_number rc s n = (0, s') \<and> up s' \<and> wf_db (kv s')
        \<and> world_of (kv s') = w\<lparr>w_block := n\<rparr>)"
proof -
  note ok = server_okI [OF redis up wf]
  note writes = redis_server.set_nonce_writes [OF redis ok lens(1), of n]
    redis_server.set_balance_writes [OF redis ok lens(1,3)]
    redis_server.set_storage_writes [OF redis ok lens(1-3)]
    redis_server.set_code_writes [OF redis ok lens(1,4)]
    redis_server.set_receipt_writes [OF redis ok lens(3,4)]
    redis_server.set_block_number_writes [OF redis ok, of n]
  show ?thesis
    using writes unfolding redis_server.writes_def [OF redis] redis_server.ok_def [OF redis] w_def by blast
qed

theorem state_setters_update_world_witness:
  "\<exists>s'. evmdb_state_set_nonce redis_mem sample_db zero_address 8 = (0, s') \<and> wf_db s'
     \<and> w_nonce (world_of s') zero_address = 8 \<and> w_block (world_of s') = w_block (world_of sample_db)"
  using state_setters_update_world [OF redis_mem.redis_server_axioms, of sample_db zero_address
      zero_bytes32 zero_bytes32 "[]" 8] wf_sample_db
  by auto

text \<open>
  Contract code is binary safe: after \<open>evmdb_state_set_code\<close>, \<open>evmdb_state_get_code\<close> of the same
  address returns exactly these bytes, zero bytes included, and of any other address what it
  returned before.
\<close>

lemma state_code_roundtrip:
  assumes redis: "redis_server rc kv up" and up: "up s" and wf: "wf_db (kv s)"
    and lens: "length a = 20" "length b = 20" "length c < 2 ^ 64" and mem: "\<forall>n. alloc n"
    and run: "evmdb_state_set_code rc s a c = (r, s')"
  shows "fst (evmdb_state_get_code alloc rc s' b)
    = (if b = a then (Some c, word_of_nat (length c)) else fst (evmdb_state_get_code alloc rc s b))"
proof -
  note ok = server_okI [OF redis up wf]
  have ok': "redis_server.ok kv up s'"
    and w: "world_of (kv s') = (world_of (kv s))\<lparr>w_code := (w_code (world_of (kv s)))(a := Some c)\<rparr>"
    using redis_server.set_code_writes [OF redis ok lens(1,3)] run
    by (auto simp: redis_server.writes_def [OF redis])
  show ?thesis
    using redis_server.get_code_reads [OF redis ok lens(2), of alloc]
      redis_server.get_code_reads [OF redis ok' lens(2), of alloc] w mem
    by (auto simp: redis_server.reads_def [OF redis])
qed

lemma state_code_roundtrip_witness:
  "fst (evmdb_state_get_code (\<lambda>_. True) redis_mem
      (snd (evmdb_state_set_code redis_mem sample_db zero_address [0x60, 0, 0x60])) zero_address)
    = (Some [0x60, 0, 0x60], 3)"
  using state_code_roundtrip [OF redis_mem.redis_server_axioms, of sample_db zero_address zero_address
      "[0x60, 0, 0x60]" "\<lambda>_. True" 0 "snd (evmdb_state_set_code redis_mem sample_db zero_address [0x60, 0, 0x60])"]
    wf_sample_db
  by (simp add: evmdb_state_set_code_def)

text \<open>
  \<open>evmdb_state_get_balance\<close> reports success without a result when the stored text is not a
  balance: for a text of odd length or of more than 32 bytes the out parameter keeps whatever it
  held before the call, which in the callers is uninitialised memory.
\<close>

lemma state_get_balance_stale:
  assumes redis: "redis_server rc kv up" and up: "up s" and "length a = 20"
    and "kv s (account_key a) = Some (RHash h)" and "h ''balance'' = Some txt"
    and "odd (length (skip_0x (cstr txt))) \<or> 64 < length (skip_0x (cstr txt))"
  shows "fst (evmdb_state_get_balance rc s a out) = out"
proof -
  obtain s' where "rc s [''HGET'', account_key a, ''balance''] = (Some (REDIS_REPLY_STRING txt), s')"
    using redis_server.hget [OF redis up, of "account_key a" "''balance''"] assms(4,5)
    by (auto simp: hash_of_def)
  moreover have "snd (evmdb_hex_decode (Some txt) out 32) = out"
    using assms(6) by (auto simp: evmdb_hex_decode_def Let_def odd_iff_mod_2_eq_one)
  ultimately show ?thesis
    using assms(3) by (simp add: evmdb_state_get_balance_def account_key_def decode_into_def)
qed

lemma state_get_balance_stale_witness:
  "fst (evmdb_state_get_balance redis_mem
      [account_key zero_address \<mapsto> RHash [''balance'' \<mapsto> ''0x1'']] zero_address [7, 7]) = [7, 7]"
  using state_get_balance_stale [OF redis_mem.redis_server_axioms, of zero_address
      "[account_key zero_address \<mapsto> RHash [''balance'' \<mapsto> ''0x1'']]" "[''balance'' \<mapsto> ''0x1'']" "''0x1''" "[7, 7]"]
  by (simp add: cstr_def NUL_def skip_0x_def)

end
