(* ===== verification/Evm_Rlp.thy ===== *)
theory Evm_Rlp
  imports Evm_Types
begin

text \<open>
  The RLP reader and writer of \<^verbatim>\<open>src/block/tx.c\<close>.

  The reader walks a buffer with pointers. The buffer is a byte list \<open>mem\<close>, a pointer an offset
  into it, and a read outside the list is \<open>Inl OutOfBounds\<close>: the C code would read memory that
  is not part of the transaction. Positions and lengths are 64-bit words, so that the checks
  \<open>pos + len > r->len\<close> wrap where the source's do.

  The writer appends to a growing buffer. \<open>alloc n\<close> says whether the allocator grants a request
  of \<open>n\<close> bytes. The capacity doubles in a loop that would not end if the capacity wrapped to 0;
  the model gives it 65 rounds, after which the C loop provably never leaves (\<open>rlp_grow_None\<close>).
\<close>

subsection \<open>Reader\<close>

record rlp_reader =
  rd_data :: nat
  rd_pos :: size_t
  rd_len :: size_t

definition mem_read :: "bytes \<Rightarrow> nat \<Rightarrow> byte cres" where
  "mem_read mem a = (if a < length mem then Inr (mem ! a) else Inl OutOfBounds)"

definition mem_read_n :: "bytes \<Rightarrow> nat \<Rightarrow> nat \<Rightarrow> bytes cres" where
  "mem_read_n mem a n =
     (if n = 0 then Inr []
      else if a + n \<le> length mem then Inr (take n (drop a mem))
      else Inl OutOfBounds)"

text \<open>The loops \<open>len = (len << 8) | data[i]\<close>.\<close>

definition shift_in :: "bytes \<Rightarrow> u64" where
  "shift_in bs = foldl (\<lambda>v b. push_bit 8 v OR ucast b) 0 bs"

definition rlp_decode_item :: "bytes \<Rightarrow> rlp_reader \<Rightarrow> ((nat \<times> size_t) \<times> rlp_reader) cres" where
  "rlp_decode_item mem r =
     (if rd_pos r \<ge> rd_len r then Inl RcError
      else bindE (mem_read mem (rd_data r + unat (rd_pos r))) (\<lambda>prefix.
        if prefix \<le> 0x7f then
          Inr ((rd_data r + unat (rd_pos r), 1), r\<lparr>rd_pos := rd_pos r + 1\<rparr>)
        else if prefix \<le> 0xb7 then
          (let str_len = ucast prefix - 0x80;
               pos = rd_pos r + 1
           in if pos + str_len > rd_len r then Inl RcError
              else Inr ((rd_data r + unat pos, str_len), r\<lparr>rd_pos := pos + str_len\<rparr>))
        else if prefix \<le> 0xbf then
          (let len_bytes = ucast prefix - 0xb7;
               pos = rd_pos r + 1
           in if pos + len_bytes > rd_len r then Inl RcError
              else bindE (mem_read_n mem (rd_data r + unat pos) (unat len_bytes)) (\<lambda>bs.
                let str_len = shift_in bs;
                    pos = pos + len_bytes
                in if pos + str_len > rd_len r then Inl RcError
                   else Inr ((rd_data r + unat pos, str_len), r\<lparr>rd_pos := pos + str_len\<rparr>)))
        else if prefix \<le> 0xf7 then
          (let list_len = ucast prefix - 0xc0;
               pos = rd_pos r + 1
           in Inr ((rd_data r + unat pos, list_len), r\<lparr>rd_pos := pos\<rparr>))
        else
          (let len_bytes = ucast prefix - 0xf7;
               pos = rd_pos r + 1
           in if pos + len_bytes > rd_len r then Inl RcError
              else bindE (mem_read_n mem (rd_data r + unat pos) (unat len_bytes)) (\<lambda>bs.
                let list_len = shift_in bs;
                    pos = pos + len_bytes
                in Inr ((rd_data r + unat pos, list_len), r\<lparr>rd_pos := pos\<rparr>)))))"

definition rlp_to_uint64 :: "bytes \<Rightarrow> nat \<Rightarrow> size_t \<Rightarrow> u64 cres" where
  "rlp_to_uint64 mem data len = bindE (mem_read_n mem data (min (unat len) 8)) (\<lambda>bs. Inr (shift_in bs))"

definition rlp_to_bytes32 :: "bytes \<Rightarrow> nat \<Rightarrow> size_t \<Rightarrow> evmdb_bytes32 cres" where
  "rlp_to_bytes32 mem data len =
     (let n = (if len > 32 then 32 else unat len)
      in bindE (mem_read_n mem data n) (\<lambda>bs. Inr (replicate (32 - n) 0 @ bs)))"

definition rlp_to_address :: "bytes \<Rightarrow> nat \<Rightarrow> size_t \<Rightarrow> evmdb_address cres" where
  "rlp_to_address mem data len =
     (let n = (if len > 20 then 20 else unat len)
      in bindE (mem_read_n mem data n) (\<lambda>bs. Inr (replicate (20 - n) 0 @ bs)))"

subsection \<open>Writer\<close>

record rlp_buffer =
  buf_data :: bytes
  buf_len :: size_t
  buf_cap :: size_t

definition empty_buffer :: rlp_buffer where
  "empty_buffer = \<lparr>buf_data = [], buf_len = 0, buf_cap = 0\<rparr>"

fun rlp_grow :: "nat \<Rightarrow> size_t \<Rightarrow> size_t \<Rightarrow> size_t option" where
  "rlp_grow 0 new_cap needed = None"
| "rlp_grow (Suc fuel) new_cap needed =
     (if new_cap < needed then rlp_grow fuel (new_cap * 2) needed else Some new_cap)"

definition rlp_buffer_reserve :: "(nat \<Rightarrow> bool) \<Rightarrow> rlp_buffer \<Rightarrow> size_t \<Rightarrow> rlp_buffer cres" where
  "rlp_buffer_reserve alloc buf additional =
     (let needed = buf_len buf + additional;
          new_cap = (if buf_cap buf \<noteq> 0 then buf_cap buf else 64)
      in if needed \<le> buf_cap buf then Inr buf
         else (case rlp_grow 65 new_cap needed of
                 None \<Rightarrow> Inl Diverges
               | Some new_cap \<Rightarrow>
                   if alloc (unat new_cap)
                   then Inr (buf\<lparr>buf_data := buf_data buf
                               @ replicate (unat new_cap - length (buf_data buf)) 0,
                             buf_cap := new_cap\<rparr>)
                   else Inl RcError))"

definition rlp_buffer_append :: "(nat \<Rightarrow> bool) \<Rightarrow> rlp_buffer \<Rightarrow> bytes \<Rightarrow> rlp_buffer cres" where
  "rlp_buffer_append alloc buf data =
     bindE (rlp_buffer_reserve alloc buf (word_of_nat (length data))) (\<lambda>buf.
       let n = unat (buf_len buf)
       in if n + length data > length (buf_data buf) then Inl OutOfBounds
          else Inr (buf\<lparr>buf_data := take n (buf_data buf) @ data @ drop (n + length data) (buf_data buf),
                        buf_len := buf_len buf + word_of_nat (length data)\<rparr>))"

definition rlp_buffer_append_byte :: "(nat \<Rightarrow> bool) \<Rightarrow> rlp_buffer \<Rightarrow> byte \<Rightarrow> rlp_buffer cres" where
  "rlp_buffer_append_byte alloc buf val = rlp_buffer_append alloc buf [val]"

text \<open>
  The loops \<open>while (v > 0) { bytes[7 - n] = v & 0xff; v >>= 8; n++; }\<close>: the bytes of \<open>v\<close> in front
  of those already written.
\<close>

function u64_bytes_loop :: "u64 \<Rightarrow> bytes \<Rightarrow> bytes" where
  "u64_bytes_loop v acc =
     (if v > 0 then u64_bytes_loop (drop_bit 8 v) (ucast (v AND 0xff) # acc) else acc)"
  by pat_completeness auto
termination
proof (relation "measure (\<lambda>(v, acc). unat v)")
  fix v :: u64 and acc :: bytes
  assume "v > 0"
  then have "unat v div 256 < unat v" by (simp add: unat_gt_0 word_neq_0_conv)
  then show "((drop_bit 8 v, ucast (v AND 0xff) # acc), (v, acc)) \<in> measure (\<lambda>(v, acc). unat v)"
    by (simp add: drop_bit_eq_div unat_div)
qed simp

declare u64_bytes_loop.simps [simp del]

definition rlp_append_length ::
  "(nat \<Rightarrow> bool) \<Rightarrow> rlp_buffer \<Rightarrow> size_t \<Rightarrow> byte \<Rightarrow> byte \<Rightarrow> rlp_buffer cres" where
  "rlp_append_length alloc buf len short_base long_base =
     (if len \<le> 55 then rlp_buffer_append_byte alloc buf (short_base + ucast len)
      else (let len_bytes = u64_bytes_loop len []
            in bindE (rlp_buffer_append_byte alloc buf (long_base + word_of_nat (length len_bytes)))
                 (\<lambda>buf. rlp_buffer_append alloc buf len_bytes)))"

definition rlp_append_bytes :: "(nat \<Rightarrow> bool) \<Rightarrow> rlp_buffer \<Rightarrow> bytes \<Rightarrow> rlp_buffer cres" where
  "rlp_append_bytes alloc buf data =
     (if length data = 1 \<and> data ! 0 \<le> 0x7f then rlp_buffer_append_byte alloc buf (data ! 0)
      else bindE (rlp_append_length alloc buf (word_of_nat (length data)) 0x80 0xb7)
             (\<lambda>buf. rlp_buffer_append alloc buf data))"

definition rlp_append_uint64 :: "(nat \<Rightarrow> bool) \<Rightarrow> rlp_buffer \<Rightarrow> u64 \<Rightarrow> rlp_buffer cres" where
  "rlp_append_uint64 alloc buf val =
     (if val = 0 then rlp_append_bytes alloc buf []
      else rlp_append_bytes alloc buf (u64_bytes_loop val []))"

definition rlp_append_bytes32 :: "(nat \<Rightarrow> bool) \<Rightarrow> rlp_buffer \<Rightarrow> evmdb_bytes32 \<Rightarrow> rlp_buffer cres" where
  "rlp_append_bytes32 alloc buf val =
     (let offset = length (takeWhile (\<lambda>b. b = 0) (take 32 val))
      in if offset = 32 then rlp_append_bytes alloc buf []
         else rlp_append_bytes alloc buf (take (32 - offset) (drop offset val)))"

definition rlp_append_address ::
  "(nat \<Rightarrow> bool) \<Rightarrow> rlp_buffer \<Rightarrow> evmdb_address \<Rightarrow> bool \<Rightarrow> rlp_buffer cres" where
  "rlp_append_address alloc buf addr is_null =
     (if is_null then rlp_append_bytes alloc buf [] else rlp_append_bytes alloc buf addr)"

definition rlp_append_empty_list :: "(nat \<Rightarrow> bool) \<Rightarrow> rlp_buffer \<Rightarrow> rlp_buffer cres" where
  "rlp_append_empty_list alloc buf = rlp_buffer_append_byte alloc buf 0xc0"

definition rlp_wrap_list :: "(nat \<Rightarrow> bool) \<Rightarrow> rlp_buffer \<Rightarrow> rlp_buffer \<Rightarrow> rlp_buffer cres" where
  "rlp_wrap_list alloc out payload =
     bindE (rlp_append_length alloc out (buf_len payload) 0xc0 0xf7)
       (\<lambda>out. rlp_buffer_append alloc out (take (unat (buf_len payload)) (buf_data payload)))"

definition rlp_buffer_free :: "rlp_buffer \<Rightarrow> rlp_buffer" where
  "rlp_buffer_free buf = \<lparr>buf_data = [], buf_len = 0, buf_cap = 0\<rparr>"

subsection \<open>Growing the buffer\<close>

lemma rlp_grow_ge: "rlp_grow fuel c n = Some c' \<Longrightarrow> n \<le> c'"
  by (induction fuel c n rule: rlp_grow.induct) (auto split: if_splits)

lemma rlp_grow_None_steps: "rlp_grow fuel c n = None \<Longrightarrow> k < fuel \<Longrightarrow> c * 2 ^ k < n"
proof (induction fuel c n arbitrary: k rule: rlp_grow.induct)
  case (1 c n)
  then show ?case by simp
next
  case (2 fuel c n)
  then have c: "c < n" and rec: "rlp_grow fuel (c * 2) n = None"
    by (auto split: if_splits)
  show ?case
  proof (cases k)
    case 0
    with c show ?thesis by simp
  next
    case (Suc j)
    with "2.IH" [OF c rec, of j] "2.prems" show ?thesis by (simp add: mult.assoc)
  qed
qed

text \<open>When 65 rounds do not suffice, no number of rounds does: the C loop never ends.\<close>

lemma rlp_grow_None: "rlp_grow 65 c n = None \<Longrightarrow> c * 2 ^ k < n"
proof -
  assume none: "rlp_grow 65 c n = None"
  have zero: "(2 :: u64) ^ j = 0" if "64 \<le> j" for j
    using that by (simp add: exp_eq_zero_iff)
  show ?thesis
  proof (cases "k < 65")
    case True
    with none show ?thesis by (rule rlp_grow_None_steps)
  next
    case False
    have "c * 2 ^ 64 < n" by (rule rlp_grow_None_steps [OF none]) simp
    moreover have "(2 :: u64) ^ 64 = 0" "(2 :: u64) ^ k = 0"
      using False zero [of k] zero [of 64] by simp_all
    ultimately show ?thesis by (simp only: mult_zero_right)
  qed
qed

lemma rlp_grow_enough:
  assumes "unat n \<le> 2 ^ 63" and "unat n \<le> unat c * 2 ^ fuel"
  shows "\<exists>c'. rlp_grow (Suc fuel) c n = Some c'"
  using assms
proof (induction fuel arbitrary: c)
  case 0
  then show ?case by (simp add: word_less_nat_alt)
next
  case (Suc fuel)
  show ?case
  proof (cases "c < n")
    case True
    then have "unat c < 2 ^ 63" using Suc.prems(1) by (simp add: word_less_nat_alt)
    then have "unat (c * 2) = unat c * 2" by (simp add: unat_word_ariths)
    with Suc.prems have "\<exists>c'. rlp_grow (Suc fuel) (c * 2) n = Some c'"
      by (intro Suc.IH) simp_all
    with True show ?thesis by simp
  next
    case False
    then show ?thesis by simp
  qed
qed

subsection \<open>A sink of bytes\<close>

text \<open>
  What the encoders rely on: appending either fails with the error return or adds exactly the
  given bytes, as long as the total stays below the bound of the sink.
\<close>

fun puts :: "('b \<Rightarrow> bytes \<Rightarrow> 'b cres) \<Rightarrow> 'b \<Rightarrow> bytes list \<Rightarrow> 'b cres" where
  "puts put b [] = Inr b"
| "puts put b (x # xs) = bindE (put b x) (\<lambda>b. puts put b xs)"

lemma puts_append: "puts put b (xs @ ys) = bindE (puts put b xs) (\<lambda>b. puts put b ys)"
  by (induction xs arbitrary: b) (simp_all add: bindE_assoc)

locale byte_sink =
  fixes put :: "'b \<Rightarrow> bytes \<Rightarrow> 'b cres"
    and content :: "'b \<Rightarrow> bytes"
    and invar :: "'b \<Rightarrow> bool"
    and bound :: nat
  assumes put_content: "invar b \<Longrightarrow> length (content b) + length xs \<le> bound \<Longrightarrow> put b xs = Inr b' \<Longrightarrow>
      content b' = content b @ xs \<and> invar b'"
    and put_error: "invar b \<Longrightarrow> length (content b) + length xs \<le> bound \<Longrightarrow> put b xs = Inl e \<Longrightarrow>
      e = RcError"
begin

lemma puts_content:
  "invar b \<Longrightarrow> length (content b) + length (concat xs) \<le> bound \<Longrightarrow> puts put b xs = Inr b' \<Longrightarrow>
    content b' = content b @ concat xs \<and> invar b'"
proof (induction xs arbitrary: b)
  case Nil
  then show ?case by simp
next
  case (Cons x xs)
  from Cons.prems(3) obtain b1 where b1: "put b x = Inr b1" "puts put b1 xs = Inr b'"
    by (auto simp: bindE_eq_Inr)
  with put_content [of b x b1] Cons.prems have "content b1 = content b @ x" "invar b1" by auto
  with Cons.IH [of b1] Cons.prems(2) b1(2) show ?case by simp
qed

lemma puts_error:
  "invar b \<Longrightarrow> length (content b) + length (concat xs) \<le> bound \<Longrightarrow> puts put b xs = Inl e \<Longrightarrow> e = RcError"
proof (induction xs arbitrary: b)
  case Nil
  then show ?case by simp
next
  case (Cons x xs)
  show ?case
  proof (cases "put b x")
    case (Inl e')
    with Cons.prems put_error [of b x e'] show ?thesis by simp
  next
    case (Inr b1)
    with put_content [of b x b1] Cons.prems have "content b1 = content b @ x" "invar b1" by auto
    with Cons.IH [of b1] Cons.prems Inr show ?thesis by simp
  qed
qed

end

text \<open>A sink whose appends never fail below the bound.\<close>

locale reliable_byte_sink = byte_sink +
  assumes put_succeeds: "invar b \<Longrightarrow> length (content b) + length xs \<le> bound \<Longrightarrow> \<exists>b'. put b xs = Inr b'"
begin

lemma puts_succeeds:
  assumes "invar b" and "length (content b) + length (concat xs) \<le> bound"
  shows "\<exists>b'. puts put b xs = Inr b' \<and> content b' = content b @ concat xs \<and> invar b'"
proof -
  have "\<exists>b'. puts put b xs = Inr b'"
    using assms
  proof (induction xs arbitrary: b)
    case Nil
    then show ?case by simp
  next
    case (Cons x xs)
    then obtain b1 where b1: "put b x = Inr b1" using put_succeeds [of b x] by auto
    with put_content [of b x b1] Cons.prems have "content b1 = content b @ x" "invar b1" by auto
    with Cons.IH [of b1] Cons.prems b1 show ?case by simp
  qed
  then show ?thesis using puts_content [OF assms] by blast
qed

end

subsection \<open>The buffer is a sink\<close>

definition buf_ok :: "rlp_buffer \<Rightarrow> bool" where
  "buf_ok b \<longleftrightarrow> length (buf_data b) = unat (buf_cap b) \<and> buf_len b \<le> buf_cap b"

definition buf_content :: "rlp_buffer \<Rightarrow> bytes" where
  "buf_content b = take (unat (buf_len b)) (buf_data b)"

definition buf_bound :: nat where
  "buf_bound = 2 ^ 63"

lemma empty_buffer_ok [simp]: "buf_ok empty_buffer" "buf_content empty_buffer = []"
  by (simp_all add: buf_ok_def buf_content_def empty_buffer_def)

lemma length_buf_content: "buf_ok b \<Longrightarrow> length (buf_content b) = unat (buf_len b)"
  by (simp add: buf_ok_def buf_content_def word_le_nat_alt)

text \<open>
  Reserving room keeps the contents; it fails only when the allocator refuses, and ends for every
  total up to the bound.
\<close>

lemma rlp_buffer_reserve_cases:
  assumes ok: "buf_ok b" and total: "unat (buf_len b) + n \<le> buf_bound"
  obtains b' where "rlp_buffer_reserve alloc b (word_of_nat n) = Inr b'" "buf_ok b'"
      "buf_content b' = buf_content b" "buf_len b' = buf_len b"
      "unat (buf_len b) + n \<le> length (buf_data b')"
  | m where "rlp_buffer_reserve alloc b (word_of_nat n) = Inl RcError" "\<not> alloc m"
proof -
  let ?needed = "buf_len b + word_of_nat n"
  have n: "n < 2 ^ 64" using total by (simp add: buf_bound_def)
  have needed: "unat ?needed = unat (buf_len b) + n"
    using total n by (simp add: unat_word_ariths unat_of_nat buf_bound_def)
  show thesis
  proof (cases "?needed \<le> buf_cap b")
    case True
    then have "rlp_buffer_reserve alloc b (word_of_nat n) = Inr b"
      by (simp add: rlp_buffer_reserve_def)
    then show thesis
      using that(1) [of b] ok True needed by (auto simp: buf_ok_def word_le_nat_alt)
  next
    case False
    let ?c = "if buf_cap b \<noteq> 0 then buf_cap b else 64"
    have "unat ?c \<noteq> 0" by (simp add: unat_eq_zero)
    then have "(2 :: nat) ^ 64 \<le> unat ?c * 2 ^ 64" by (cases "unat ?c") auto
    moreover have "unat ?needed < 2 ^ 64" using unat_lt_2p64 [of ?needed] by simp
    ultimately have "unat ?needed \<le> unat ?c * 2 ^ 64" by linarith
    moreover have "unat ?needed \<le> 2 ^ 63" using needed total by (simp add: buf_bound_def)
    ultimately obtain c where c: "rlp_grow 65 ?c ?needed = Some c"
      using rlp_grow_enough [of ?needed ?c 64] by auto
    have ge: "unat ?needed \<le> unat c" "unat (buf_cap b) \<le> unat c"
      using rlp_grow_ge [OF c] False by (auto simp: word_le_nat_alt)
    let ?b = "b\<lparr>buf_data := buf_data b @ replicate (unat c - length (buf_data b)) 0, buf_cap := c\<rparr>"
    have run: "rlp_buffer_reserve alloc b (word_of_nat n) =
        (if alloc (unat c) then Inr ?b else Inl RcError)"
      using False c by (simp add: rlp_buffer_reserve_def Let_def)
    show thesis
    proof (cases "alloc (unat c)")
      case True
      with run that(1) [of ?b] ok ge needed show thesis
        by (auto simp: buf_ok_def buf_content_def word_le_nat_alt)
    next
      case False
      with run that(2) show thesis by simp
    qed
  qed
qed

lemma rlp_buffer_append_reserved:
  assumes "buf_ok b" and "unat (buf_len b) + length xs \<le> length (buf_data b)"
  shows "let b' = b\<lparr>buf_data := take (unat (buf_len b)) (buf_data b) @ xs
             @ drop (unat (buf_len b) + length xs) (buf_data b),
           buf_len := buf_len b + word_of_nat (length xs)\<rparr>
    in buf_ok b' \<and> buf_content b' = buf_content b @ xs"
proof -
  have "length (buf_data b) < 2 ^ 64" using assms(1) by (simp add: buf_ok_def)
  then have "unat (buf_len b) + length xs < 2 ^ 64" using assms(2) by linarith
  then have "unat (buf_len b + word_of_nat (length xs)) = unat (buf_len b) + length xs"
    by (simp add: unat_word_ariths unat_of_nat)
  with assms show ?thesis
    by (simp add: buf_ok_def buf_content_def word_le_nat_alt Let_def)
qed

interpretation rlp_sink: byte_sink "rlp_buffer_append alloc" buf_content buf_ok buf_bound for alloc
proof unfold_locales
  fix b xs b'
  assume ok: "buf_ok b" and total: "length (buf_content b) + length xs \<le> buf_bound"
    and run: "rlp_buffer_append alloc b xs = Inr b'"
  have total': "unat (buf_len b) + length xs \<le> buf_bound"
    using ok total by (simp add: length_buf_content)
  show "buf_content b' = buf_content b @ xs \<and> buf_ok b'"
  proof (cases rule: rlp_buffer_reserve_cases [OF ok total', of alloc])
    case (1 b1)
    with run rlp_buffer_append_reserved [of b1 xs] show ?thesis
      by (auto simp: rlp_buffer_append_def Let_def)
  next
    case (2 m)
    with run show ?thesis by (simp add: rlp_buffer_append_def)
  qed
next
  fix b xs e
  assume ok: "buf_ok b" and total: "length (buf_content b) + length xs \<le> buf_bound"
    and run: "rlp_buffer_append alloc b xs = Inl e"
  have total': "unat (buf_len b) + length xs \<le> buf_bound"
    using ok total by (simp add: length_buf_content)
  show "e = RcError"
    by (cases rule: rlp_buffer_reserve_cases [OF ok total', of alloc])
      (use run in \<open>auto simp: rlp_buffer_append_def Let_def\<close>)
qed

interpretation rlp_sink_ok: reliable_byte_sink "rlp_buffer_append (\<lambda>_. True)" buf_content buf_ok buf_bound
proof unfold_locales
  fix b and xs :: bytes
  assume ok: "buf_ok b" and total: "length (buf_content b) + length xs \<le> buf_bound"
  have total': "unat (buf_len b) + length xs \<le> buf_bound"
    using ok total by (simp add: length_buf_content)
  show "\<exists>b'. rlp_buffer_append (\<lambda>_. True) b xs = Inr b'"
    by (cases rule: rlp_buffer_reserve_cases [OF ok total', of "\<lambda>_. True"])
      (auto simp: rlp_buffer_append_def Let_def)
qed

subsection \<open>RLP strings\<close>

lemma u64_bytes_loop_be_min: "u64_bytes_loop v acc = be_min (unat v) @ acc"
proof (induction v acc rule: u64_bytes_loop.induct)
  case (1 v acc)
  show ?case
  proof (cases "v > 0")
    case True
    have "v AND 0xff = take_bit 8 v" by (simp add: take_bit_eq_mask mask_eq_exp_minus_1)
    then have low: "(ucast (v AND 0xff) :: byte) = word_of_nat (unat v)"
      by (auto intro!: bit_word_eqI simp: bit_simps)
    have "unat v \<noteq> 0" using True by (simp add: unat_eq_zero word_neq_0_conv)
    with True 1 low show ?thesis
      by (simp add: u64_bytes_loop.simps [of v] be_min.simps [of "unat v"]
          drop_bit_eq_div unat_div)
  next
    case False
    then have "v = 0" by (simp add: word_neq_0_conv [symmetric])
    then show ?thesis by (subst u64_bytes_loop.simps) simp
  qed
qed

text \<open>The RLP encoding of a string, and the chunks in which the writer emits it.\<close>

definition rlp_len_pieces :: "nat \<Rightarrow> byte \<Rightarrow> byte \<Rightarrow> bytes list" where
  "rlp_len_pieces n short_base long_base =
     (if n \<le> 55 then [[short_base + word_of_nat n]]
      else [[long_base + word_of_nat (length (be_min n))], be_min n])"

definition rlp_str_pieces :: "bytes \<Rightarrow> bytes list" where
  "rlp_str_pieces bs =
     (if length bs = 1 \<and> bs ! 0 \<le> 0x7f then [[bs ! 0]]
      else rlp_len_pieces (length bs) 0x80 0xb7 @ [bs])"

definition rlp_str :: "bytes \<Rightarrow> bytes" where
  "rlp_str bs = concat (rlp_str_pieces bs)"

definition rlp_list :: "bytes \<Rightarrow> bytes" where
  "rlp_list payload = concat (rlp_len_pieces (length payload) 0xc0 0xf7) @ payload"

lemma rlp_append_length_puts:
  assumes "n < 2 ^ 64"
  shows "rlp_append_length alloc buf (word_of_nat n) sb lb
    = puts (rlp_buffer_append alloc) buf (rlp_len_pieces n sb lb)"
proof (cases "n \<le> 55")
  case True
  then have "(word_of_nat n :: size_t) \<le> 55"
    using assms by (simp add: word_le_nat_alt unat_of_nat)
  moreover have "(ucast (word_of_nat n :: size_t) :: byte) = word_of_nat n"
    using True by (simp add: unsigned_of_nat take_bit_nat_eq_self)
  ultimately show ?thesis
    using True by (simp add: rlp_append_length_def rlp_len_pieces_def rlp_buffer_append_byte_def)
next
  case False
  then have "\<not> (word_of_nat n :: size_t) \<le> 55"
    using assms by (simp add: word_le_nat_alt unat_of_nat)
  with False assms show ?thesis
    by (simp add: rlp_append_length_def rlp_len_pieces_def rlp_buffer_append_byte_def Let_def
        u64_bytes_loop_be_min unat_of_nat)
qed

lemma rlp_append_bytes_puts:
  assumes "length bs < 2 ^ 64"
  shows "rlp_append_bytes alloc buf bs = puts (rlp_buffer_append alloc) buf (rlp_str_pieces bs)"
  using assms rlp_append_length_puts [of "length bs" alloc buf "0x80" "0xb7"]
  by (simp add: rlp_append_bytes_def rlp_str_pieces_def rlp_buffer_append_byte_def puts_append)

lemma rlp_append_uint64_puts:
  "rlp_append_uint64 alloc buf v = puts (rlp_buffer_append alloc) buf (rlp_str_pieces (be_min (unat v)))"
proof -
  have "length (be_min (unat v)) \<le> 8"
    using length_be_min [of "unat v" 8] by simp
  then show ?thesis
    by (simp add: rlp_append_uint64_def rlp_append_bytes_puts u64_bytes_loop_be_min)
qed

lemma rlp_append_bytes32_puts:
  assumes "length w = 32"
  shows "rlp_append_bytes32 alloc buf w
    = puts (rlp_buffer_append alloc) buf (rlp_str_pieces (be_min (be_val w)))"
proof -
  let ?z = "length (takeWhile (\<lambda>b. b = 0) w)"
  have drop: "dropWhile (\<lambda>b. b = 0) w = drop ?z w" by (rule dropWhile_eq_drop)
  have "?z \<le> 32" using length_takeWhile_le [of "\<lambda>b. b = 0" w] assms by simp
  then have "rlp_append_bytes32 alloc buf w = rlp_append_bytes alloc buf (drop ?z w)"
    using assms by (auto simp: rlp_append_bytes32_def Let_def)
  then show ?thesis
    using assms by (simp add: rlp_append_bytes_puts be_min_be_val drop)
qed

lemma rlp_append_address_puts:
  assumes "length a = 20"
  shows "rlp_append_address alloc buf a is_null
    = puts (rlp_buffer_append alloc) buf (rlp_str_pieces (if is_null then [] else a))"
  using assms by (simp add: rlp_append_address_def rlp_append_bytes_puts)

lemma rlp_append_empty_list_puts:
  "rlp_append_empty_list alloc buf = puts (rlp_buffer_append alloc) buf [[0xc0]]"
  by (simp add: rlp_append_empty_list_def rlp_buffer_append_byte_def)

lemma rlp_wrap_list_puts:
  assumes "buf_ok payload"
  shows "rlp_wrap_list alloc buf payload
    = puts (rlp_buffer_append alloc) buf
        (rlp_len_pieces (length (buf_content payload)) 0xc0 0xf7 @ [buf_content payload])"
  using assms rlp_append_length_puts [of "length (buf_content payload)" alloc buf "0xc0" "0xf7"]
  by (simp add: rlp_wrap_list_def puts_append length_buf_content)
    (simp add: buf_content_def)

lemmas rlp_puts = rlp_append_bytes_puts rlp_append_uint64_puts rlp_append_bytes32_puts
  rlp_append_address_puts rlp_append_empty_list_puts rlp_wrap_list_puts

lemma concat_list_pieces:
  "concat (rlp_len_pieces (length p) 0xc0 0xf7 @ [p]) = rlp_list p"
  by (simp add: rlp_list_def)

subsection \<open>Reading back what was written\<close>

lemma shift_in_val: "shift_in bs = word_of_nat (be_val bs)"
proof -
  have "foldl (\<lambda>v b. push_bit 8 v OR ucast (b :: byte)) (word_of_nat n) bs
      = (word_of_nat (foldl (\<lambda>acc b. acc * 256 + unat b) n bs) :: u64)" for n
  proof (induction bs arbitrary: n)
    case Nil
    then show ?case by simp
  next
    case (Cons b bs)
    have "unat (ucast b :: u64) \<le> unat b" by (simp add: unsigned_ucast_eq take_bit_nat_less_eq_self)
    from le_less_trans [OF this byte_lt_256] have "unat (ucast b :: u64) < 2 ^ 8" by simp
    then have "push_bit 8 (word_of_nat n) OR (ucast b :: u64) = word_of_nat (n * 256 + unat b)"
      using word_shift_or [of "ucast b :: u64" 8 "word_of_nat n"] by simp
    with Cons [of "n * 256 + unat b"] show ?case by simp
  qed
  from this [of 0] show ?thesis by (simp add: shift_in_def be_val_def)
qed

text \<open>
  \<open>reader_at mem r bs\<close>: the reader stands in front of the bytes \<open>bs\<close>, which lie within its window.
  \<open>item_at mem p bs\<close>: the bytes \<open>bs\<close> lie in memory at \<open>p\<close>.
\<close>

definition reader_at :: "bytes \<Rightarrow> rlp_reader \<Rightarrow> bytes \<Rightarrow> bool" where
  "reader_at mem r bs \<longleftrightarrow>
     (\<exists>pre post. mem = pre @ bs @ post \<and> length pre = rd_data r + unat (rd_pos r))
     \<and> unat (rd_pos r) + length bs \<le> unat (rd_len r)"

definition item_at :: "bytes \<Rightarrow> nat \<Rightarrow> bytes \<Rightarrow> bool" where
  "item_at mem p bs \<longleftrightarrow> p + length bs \<le> length mem \<and> take (length bs) (drop p mem) = bs"

lemma reader_at_advance:
  assumes "reader_at mem r (xs @ ys)"
  shows "reader_at mem (r\<lparr>rd_pos := rd_pos r + word_of_nat (length xs)\<rparr>) ys"
    and "unat (rd_pos r + word_of_nat (length xs)) = unat (rd_pos r) + length xs"
    and "item_at mem (rd_data r + unat (rd_pos r)) xs"
proof -
  from assms obtain pre post where mem: "mem = pre @ xs @ ys @ post"
    "length pre = rd_data r + unat (rd_pos r)" and fits: "unat (rd_pos r) + length xs + length ys \<le> unat (rd_len r)"
    by (auto simp: reader_at_def)
  then have lt: "unat (rd_pos r) + length xs < 18446744073709551616"
    by (meson add_leD1 le_less_trans unat_lt_2p64)
  then have "length xs < 2 ^ 64" by simp
  with lt show pos: "unat (rd_pos r + word_of_nat (length xs)) = unat (rd_pos r) + length xs"
    by (simp add: unat_word_ariths unat_of_nat)
  have "mem = (pre @ xs) @ ys @ post" using mem by simp
  with mem fits pos show "reader_at mem (r\<lparr>rd_pos := rd_pos r + word_of_nat (length xs)\<rparr>) ys"
    unfolding reader_at_def by (intro conjI exI [of _ "pre @ xs"] exI [of _ post]) simp_all
  show "item_at mem (rd_data r + unat (rd_pos r)) xs"
    using mem by (simp add: item_at_def flip: mem(2))
qed

lemma reader_at_first:
  assumes "reader_at mem r (b # bs)"
  shows "rd_pos r < rd_len r" and "mem_read mem (rd_data r + unat (rd_pos r)) = Inr b"
  using assms by (auto simp: reader_at_def word_less_nat_alt mem_read_def nth_append)

lemma mem_read_n_item: "item_at mem p bs \<Longrightarrow> mem_read_n mem p (length bs) = Inr bs"
  by (auto simp: item_at_def mem_read_n_def)

lemma prefix_byte:
  assumes "k + n < 256"
  shows "unat (word_of_nat k + word_of_nat n :: byte) = k + n"
    and "(ucast (word_of_nat k + word_of_nat n :: byte) :: u64) - word_of_nat k = word_of_nat n"
proof -
  show u: "unat (word_of_nat k + word_of_nat n :: byte) = k + n"
    using assms by (simp add: unat_of_nat flip: of_nat_add)
  have "(ucast (word_of_nat k + word_of_nat n :: byte) :: u64) = word_of_nat (k + n)"
    by (metis of_nat_unat u)
  then show "(ucast (word_of_nat k + word_of_nat n :: byte) :: u64) - word_of_nat k = word_of_nat n"
    by simp
qed

lemma word_le_via_unat: "(a :: 'a::len word) \<le> b \<longleftrightarrow> unat a \<le> unat b"
  by (simp add: word_le_nat_alt)

lemma rlp_decode_short:
  assumes at: "reader_at mem r ((0x80 + word_of_nat (length bs)) # bs @ rest)"
    and short: "length bs \<le> 55"
  shows "\<exists>p. rlp_decode_item mem r = Inr ((p, word_of_nat (length bs)),
      r\<lparr>rd_pos := rd_pos r + 1 + word_of_nat (length bs)\<rparr>) \<and> item_at mem p bs"
proof -
  let ?b = "0x80 + word_of_nat (length bs) :: byte"
  let ?r = "r\<lparr>rd_pos := rd_pos r + 1\<rparr>"
  have b: "unat ?b = 128 + length bs" "(ucast ?b :: u64) - 0x80 = word_of_nat (length bs)"
    using prefix_byte [of 128 "length bs"] short by simp_all
  have at1: "reader_at mem ?r (bs @ rest)"
    using reader_at_advance(1) [of mem r "[?b]" "bs @ rest"] at by simp
  note adv = reader_at_advance [OF at1]
  have "unat (rd_pos r + 1 + word_of_nat (length bs)) \<le> unat (rd_len r)"
    using at1 adv(2) by (simp add: reader_at_def)
  then have "\<not> rd_pos r + 1 + word_of_nat (length bs) > rd_len r"
    by (simp add: word_less_nat_alt not_less)
  moreover have "\<not> ?b \<le> 0x7f" "?b \<le> 0xb7"
    using b(1) short by (simp_all add: word_le_via_unat)
  ultimately have "rlp_decode_item mem r = Inr ((rd_data r + unat (rd_pos r + 1), word_of_nat (length bs)),
      r\<lparr>rd_pos := rd_pos r + 1 + word_of_nat (length bs)\<rparr>)"
    using reader_at_first [OF at] b(2)
    by (simp add: rlp_decode_item_def Let_def not_le [symmetric])
  with adv(3) show ?thesis by auto
qed

lemma rlp_decode_single:
  assumes at: "reader_at mem r (b # rest)" and "b \<le> 0x7f"
  shows "\<exists>p. rlp_decode_item mem r = Inr ((p, 1), r\<lparr>rd_pos := rd_pos r + 1\<rparr>) \<and> item_at mem p [b]"
  using reader_at_first [OF at] reader_at_advance(3) [of mem r "[b]" rest] assms
  by (simp add: rlp_decode_item_def not_le [symmetric])

text \<open>The long forms: a prefix byte, the big-endian length, the payload.\<close>

lemma long_length_bytes:
  assumes "55 < n" and "n < 2 ^ 64"
  shows "0 < length (be_min n)" and "length (be_min n) \<le> 8"
    and "shift_in (be_min n) = word_of_nat n"
  using assms length_be_min [of n 8] by (simp_all add: shift_in_val)

lemma rlp_decode_long:
  assumes at: "reader_at mem r ((0xb7 + word_of_nat (length (be_min (length bs)))) # be_min (length bs) @ bs @ rest)"
    and long: "55 < length bs" "length bs < 2 ^ 64"
  shows "\<exists>p. rlp_decode_item mem r = Inr ((p, word_of_nat (length bs)),
      r\<lparr>rd_pos := rd_pos r + 1 + word_of_nat (length (be_min (length bs))) + word_of_nat (length bs)\<rparr>)
      \<and> item_at mem p bs"
proof -
  let ?l = "be_min (length bs)"
  let ?b = "0xb7 + word_of_nat (length ?l) :: byte"
  let ?r = "r\<lparr>rd_pos := rd_pos r + 1\<rparr>"
  let ?r2 = "r\<lparr>rd_pos := rd_pos r + 1 + word_of_nat (length ?l)\<rparr>"
  note l = long_length_bytes [OF long]
  have b: "unat ?b = 183 + length ?l" "(ucast ?b :: u64) - 0xb7 = word_of_nat (length ?l)"
    using prefix_byte [of 183 "length ?l"] l by simp_all
  have at1: "reader_at mem ?r (?l @ bs @ rest)"
    using reader_at_advance(1) [of mem r "[?b]" "?l @ bs @ rest"] at by simp
  note adv = reader_at_advance [OF at1]
  have at2: "reader_at mem ?r2 (bs @ rest)" using adv(1) by simp
  note adv2 = reader_at_advance [OF at2]
  have "unat (rd_pos r + 1 + word_of_nat (length ?l)) \<le> unat (rd_len r)"
    "unat (rd_pos r + 1 + word_of_nat (length ?l) + word_of_nat (length bs)) \<le> unat (rd_len r)"
    using at2 adv2(2) by (simp_all add: reader_at_def)
  moreover have "unat (word_of_nat (length ?l) :: u64) = length ?l"
    using l(2) by (intro unat_word_of_nat64) simp
  moreover have "\<not> ?b \<le> 0x7f" "\<not> ?b \<le> 0xb7" "?b \<le> 0xbf"
    using b(1) l by (simp_all add: word_le_via_unat)
  ultimately have "rlp_decode_item mem r = Inr ((rd_data r + unat (rd_pos ?r2), word_of_nat (length bs)),
      r\<lparr>rd_pos := rd_pos r + 1 + word_of_nat (length ?l) + word_of_nat (length bs)\<rparr>)"
    using reader_at_first [OF at] b(2) mem_read_n_item [OF adv(3)] l(3)
    by (simp add: rlp_decode_item_def Let_def not_le [symmetric] word_le_via_unat)
  with adv2(3) show ?thesis by auto
qed

text \<open>An encoded string is read back as that string, with the reader behind it.\<close>

lemma rlp_decode_str:
  assumes at: "reader_at mem r (rlp_str bs @ rest)" and len: "length bs < 2 ^ 64"
  obtains p where "rlp_decode_item mem r = Inr ((p, word_of_nat (length bs)),
        r\<lparr>rd_pos := rd_pos r + word_of_nat (length (rlp_str bs))\<rparr>)"
    and "item_at mem p bs"
    and "reader_at mem (r\<lparr>rd_pos := rd_pos r + word_of_nat (length (rlp_str bs))\<rparr>) rest"
proof -
  note behind = reader_at_advance(1) [OF at]
  have "\<exists>p. rlp_decode_item mem r = Inr ((p, word_of_nat (length bs)),
      r\<lparr>rd_pos := rd_pos r + word_of_nat (length (rlp_str bs))\<rparr>) \<and> item_at mem p bs"
  proof (cases "length bs = 1 \<and> bs ! 0 \<le> 0x7f")
    case True
    then obtain b where b: "bs = [b]" "b \<le> 0x7f" by (cases bs) auto
    then show ?thesis using rlp_decode_single [of mem r b rest] at
      by (simp add: rlp_str_def rlp_str_pieces_def)
  next
    case False
    show ?thesis
    proof (cases "length bs \<le> 55")
      case True
      with False have "rlp_str bs = (0x80 + word_of_nat (length bs)) # bs"
        by (auto simp: rlp_str_def rlp_str_pieces_def rlp_len_pieces_def)
      with True at rlp_decode_short [of mem r bs rest] show ?thesis by (simp add: add.assoc)
    next
      case long: False
      with False have "rlp_str bs
          = (0xb7 + word_of_nat (length (be_min (length bs)))) # be_min (length bs) @ bs"
        by (auto simp: rlp_str_def rlp_str_pieces_def rlp_len_pieces_def)
      with long at len rlp_decode_long [of mem r bs rest] show ?thesis by (simp add: add.assoc)
    qed
  qed
  with behind that show thesis by blast
qed

text \<open>A list header is read as the list's extent; the reader stays in front of its payload.\<close>

lemma rlp_decode_list:
  assumes at: "reader_at mem r (rlp_list payload @ rest)" and len: "length payload < 2 ^ 64"
  obtains p r' where "rlp_decode_item mem r = Inr ((p, word_of_nat (length payload)), r')"
    and "item_at mem p payload" and "reader_at mem r' (payload @ rest)"
proof (cases "length payload \<le> 55")
  case True
  let ?b = "0xc0 + word_of_nat (length payload) :: byte"
  have str: "rlp_list payload = ?b # payload"
    using True by (simp add: rlp_list_def rlp_len_pieces_def)
  have b: "unat ?b = 192 + length payload" "(ucast ?b :: u64) - 0xc0 = word_of_nat (length payload)"
    using prefix_byte [of 192 "length payload"] True by simp_all
  then have "\<not> ?b \<le> 0x7f" "\<not> ?b \<le> 0xb7" "\<not> ?b \<le> 0xbf" "?b \<le> 0xf7"
    using True by (simp_all add: word_le_via_unat)
  moreover have at1: "reader_at mem (r\<lparr>rd_pos := rd_pos r + 1\<rparr>) (payload @ rest)"
    using reader_at_advance(1) [of mem r "[?b]" "payload @ rest"] at str by simp
  moreover have "reader_at mem r (?b # payload @ rest)" using at str by simp
  ultimately show thesis
    using that reader_at_first [of mem r ?b "payload @ rest"] b(2) reader_at_advance(3) [OF at1]
    by (simp add: rlp_decode_item_def Let_def not_le [symmetric])
next
  case False
  let ?l = "be_min (length payload)"
  let ?b = "0xf7 + word_of_nat (length ?l) :: byte"
  let ?r2 = "r\<lparr>rd_pos := rd_pos r + 1 + word_of_nat (length ?l)\<rparr>"
  have "55 < length payload" using False by simp
  note l = long_length_bytes [OF this len]
  have str: "rlp_list payload = ?b # ?l @ payload"
    using False by (simp add: rlp_list_def rlp_len_pieces_def)
  have b: "unat ?b = 247 + length ?l" "(ucast ?b :: u64) - 0xf7 = word_of_nat (length ?l)"
    using prefix_byte [of 247 "length ?l"] l by simp_all
  have at0: "reader_at mem r (?b # ?l @ payload @ rest)" using at str by simp
  have at1: "reader_at mem (r\<lparr>rd_pos := rd_pos r + 1\<rparr>) (?l @ payload @ rest)"
    using reader_at_advance(1) [of mem r "[?b]" "?l @ payload @ rest"] at0 by simp
  note adv = reader_at_advance [OF at1]
  have at2: "reader_at mem ?r2 (payload @ rest)" using adv(1) by simp
  then have "unat (rd_pos r + 1 + word_of_nat (length ?l)) \<le> unat (rd_len r)"
    by (simp add: reader_at_def)
  moreover have "unat (word_of_nat (length ?l) :: u64) = length ?l"
    using l(2) by (intro unat_word_of_nat64) simp
  moreover have "\<not> ?b \<le> 0x7f" "\<not> ?b \<le> 0xb7" "\<not> ?b \<le> 0xbf" "\<not> ?b \<le> 0xf7"
    using b(1) l by (simp_all add: word_le_via_unat)
  ultimately have "rlp_decode_item mem r = Inr ((rd_data r + unat (rd_pos ?r2),
      word_of_nat (length payload)), ?r2)"
    using reader_at_first [OF at0] b(2) mem_read_n_item [OF adv(3)] l(3)
    by (simp add: rlp_decode_item_def Let_def not_le [symmetric] word_le_via_unat)
  then show thesis using that [OF _ reader_at_advance(3) [OF at2]] at2 by simp
qed

lemma rlp_list_Nil: "rlp_list [] = [0xc0]"
  by (simp add: rlp_list_def rlp_len_pieces_def)

text \<open>A reader opened on an item.\<close>

lemma reader_at_item:
  assumes "item_at mem p bs" and "length bs < 2 ^ 64"
  shows "reader_at mem \<lparr>rd_data = p, rd_pos = 0, rd_len = word_of_nat (length bs)\<rparr> bs"
proof -
  have "mem = take p mem @ bs @ drop (p + length bs) mem"
    using assms(1) unfolding item_at_def
    by (metis append_take_drop_id add.commute drop_drop)
  moreover have "length (take p mem) = p" using assms(1) by (simp add: item_at_def)
  ultimately show ?thesis
    unfolding reader_at_def using unat_word_of_nat64 [OF assms(2)]
    by (intro conjI exI [of _ "take p mem"] exI [of _ "drop (p + length bs) mem"]) simp_all
qed

subsection \<open>Items as values\<close>

lemma rlp_to_uint64_item:
  assumes "item_at mem p bs" and "length bs \<le> 8"
  shows "rlp_to_uint64 mem p (word_of_nat (length bs)) = Inr (word_of_nat (be_val bs))"
proof -
  have "unat (word_of_nat (length bs) :: size_t) = length bs"
    using assms(2) by (intro unat_word_of_nat64) simp
  then show ?thesis
    using assms mem_read_n_item [OF assms(1)] by (simp add: rlp_to_uint64_def shift_in_val)
qed

lemma item_size_cap:
  assumes "length bs \<le> k" and "k < 2 ^ 63"
  shows "(if (word_of_nat (length bs) :: size_t) > word_of_nat k then k
          else unat (word_of_nat (length bs) :: size_t)) = length bs"
proof -
  have "unat (word_of_nat (length bs) :: size_t) = length bs" "unat (word_of_nat k :: size_t) = k"
    using assms by (auto intro!: unat_word_of_nat64)
  then show ?thesis using assms by (simp add: word_less_nat_alt)
qed

lemma rlp_to_bytes32_item:
  assumes "item_at mem p bs" and "length bs \<le> 32"
  shows "rlp_to_bytes32 mem p (word_of_nat (length bs)) = Inr (replicate (32 - length bs) 0 @ bs)"
  using item_size_cap [of bs 32] assms mem_read_n_item [OF assms(1)]
  by (simp add: rlp_to_bytes32_def Let_def)

lemma rlp_to_address_item:
  assumes "item_at mem p bs" and "length bs \<le> 20"
  shows "rlp_to_address mem p (word_of_nat (length bs)) = Inr (replicate (20 - length bs) 0 @ bs)"
  using item_size_cap [of bs 20] assms mem_read_n_item [OF assms(1)]
  by (simp add: rlp_to_address_def Let_def)

lemma pad_be_min:
  assumes "length w = n"
  shows "replicate (n - length (be_min (be_val w))) 0 @ be_min (be_val w) = w"
proof (rule be_val_inject)
  have "length (be_min (be_val w)) \<le> n" using be_val_less [of w] assms by (intro length_be_min) simp
  then show "length (replicate (n - length (be_min (be_val w))) 0 @ be_min (be_val w)) = length w"
    using assms by simp
qed (simp add: be_val_append)

lemma length_be_min_word: "length (be_min (unat (v :: u64))) \<le> 8"
  using length_be_min [of "unat v" 8] by simp

lemma length_be_min_be_val: "length w = n \<Longrightarrow> length (be_min (be_val w)) \<le> n"
  using be_val_less [of w] by (intro length_be_min) simp

subsection \<open>The writer implements the encoding, the reader inverts it\<close>

lemma length_rlp_str_ge: "length bs \<le> length (rlp_str bs)"
  by (auto simp: rlp_str_def rlp_str_pieces_def)

lemma alloc_always: "\<forall>n. alloc n \<Longrightarrow> alloc = (\<lambda>_. True)"
  by auto

text \<open>
  A sequence of chunks below the bound: the buffer gains exactly these bytes, or the call fails
  with the error return because the allocator refused a request.
\<close>

lemma rlp_puts_cases:
  assumes "buf_ok b" and "length (buf_content b) + length (concat ps) \<le> buf_bound"
  obtains b' where "puts (rlp_buffer_append alloc) b ps = Inr b'" "buf_ok b'"
      "buf_content b' = buf_content b @ concat ps"
  | "puts (rlp_buffer_append alloc) b ps = Inl RcError" "\<exists>n. \<not> alloc n"
proof (cases "puts (rlp_buffer_append alloc) b ps")
  case (Inl e)
  then have "e = RcError" by (rule rlp_sink.puts_error [OF assms])
  moreover have "\<exists>n. \<not> alloc n"
  proof (rule ccontr)
    assume "\<nexists>n. \<not> alloc n"
    then have "alloc = (\<lambda>_. True)" by (intro alloc_always) simp
    with Inl rlp_sink_ok.puts_succeeds [OF assms] show False by simp
  qed
  ultimately show thesis using Inl that(2) by simp
next
  case (Inr b')
  with rlp_sink.puts_content [OF assms Inr] that(1) show thesis by simp
qed

text \<open>
  C30: Appending a byte string to a well-formed RLP buffer of less than 2^63 bytes in total adds
  exactly the RLP encoding of the string and keeps the buffer well-formed; the only other outcome
  is the error return, and then the allocator refused a request. In particular the capacity
  doubling loop ends and no byte is written outside the buffer.
\<close>

theorem rlp_append_bytes_refines:
  assumes "buf_ok b" and "length (buf_content b) + length (rlp_str bs) \<le> buf_bound"
  shows "case rlp_append_bytes alloc b bs of
      Inl e \<Rightarrow> e = RcError \<and> (\<exists>n. \<not> alloc n)
    | Inr b' \<Rightarrow> buf_ok b' \<and> buf_content b' = buf_content b @ rlp_str bs"
proof -
  have "length bs < 2 ^ 64"
    using assms(2) length_rlp_str_ge [of bs] by (simp add: buf_bound_def)
  then have run: "rlp_append_bytes alloc b bs = puts (rlp_buffer_append alloc) b (rlp_str_pieces bs)"
    by (rule rlp_append_bytes_puts)
  show ?thesis
    by (cases rule: rlp_puts_cases [OF assms(1), of "rlp_str_pieces bs" alloc])
      (use assms(2) in \<open>auto simp: run rlp_str_def\<close>)
qed

theorem rlp_append_bytes_refines_witness:
  "case rlp_append_bytes (\<lambda>n. n \<le> 64) empty_buffer [0x80] of
      Inl e \<Rightarrow> e = RcError \<and> (\<exists>n. \<not> n \<le> (64 :: nat))
    | Inr b' \<Rightarrow> buf_ok b' \<and> buf_content b' = [0x81, 0x80]"
  using rlp_append_bytes_refines [of empty_buffer "[0x80]" "\<lambda>n. n \<le> 64"]
  by (simp add: rlp_str_def rlp_str_pieces_def rlp_len_pieces_def buf_bound_def split: sum.splits)

text \<open>
  C29: The RLP reader inverts the RLP writer: on the bytes written for a string, decoding one item
  yields a slice that holds exactly that string, and the reader ends behind the encoding, for
  strings of every length up to 2^62 (single byte, short and long form).
\<close>

theorem rlp_item_roundtrip:
  assumes "length bs \<le> 2 ^ 62" and "rlp_append_bytes alloc empty_buffer bs = Inr b"
  shows "\<exists>p r. rlp_decode_item (buf_content b) \<lparr>rd_data = 0, rd_pos = 0, rd_len = buf_len b\<rparr>
        = Inr ((p, word_of_nat (length bs)), r)
      \<and> mem_read_n (buf_content b) p (length bs) = Inr bs \<and> rd_pos r = buf_len b"
proof -
  have len: "length bs < 2 ^ 64" using assms(1) by simp
  have "length (be_min (length bs)) \<le> 8" using len by (intro length_be_min) simp
  then have "length (rlp_str bs) \<le> buf_bound"
    using assms(1) by (auto simp: rlp_str_def rlp_str_pieces_def rlp_len_pieces_def buf_bound_def)
  then have "buf_ok b \<and> buf_content b = rlp_str bs"
    using rlp_sink.puts_content [of empty_buffer "rlp_str_pieces bs" alloc b] assms(2)
      rlp_append_bytes_puts [OF len] by (simp add: rlp_str_def)
  then have ok: "buf_ok b" "buf_content b = rlp_str bs" by simp_all
  then have blen: "unat (buf_len b) = length (rlp_str bs)"
    using length_buf_content by metis
  let ?r = "\<lparr>rd_data = 0, rd_pos = 0, rd_len = buf_len b\<rparr>"
  have "reader_at (buf_content b) ?r (rlp_str bs @ [])"
    using ok(2) blen by (simp add: reader_at_def)
  then obtain p where "rlp_decode_item (buf_content b) ?r
      = Inr ((p, word_of_nat (length bs)), ?r\<lparr>rd_pos := word_of_nat (length (rlp_str bs))\<rparr>)"
    "item_at (buf_content b) p bs"
    using rlp_decode_str [OF _ len, of "buf_content b" ?r "[]"] by auto
  moreover have "word_of_nat (length (rlp_str bs)) = buf_len b"
    by (simp flip: blen)
  ultimately show ?thesis using mem_read_n_item by auto
qed

theorem rlp_item_roundtrip_witness:
  "\<exists>b p r. rlp_decode_item (buf_content b) \<lparr>rd_data = 0, rd_pos = 0, rd_len = buf_len b\<rparr>
        = Inr ((p, word_of_nat (length [0x80, 1 :: byte])), r)
      \<and> mem_read_n (buf_content b) p (length [0x80, 1 :: byte]) = Inr [0x80, 1] \<and> rd_pos r = buf_len b"
proof -
  obtain b where "rlp_append_bytes (\<lambda>_. True) empty_buffer [0x80, 1] = Inr b"
    using rlp_sink_ok.puts_succeeds [of empty_buffer "rlp_str_pieces [0x80, 1]"]
    by (auto simp: rlp_append_bytes_puts rlp_str_pieces_def rlp_len_pieces_def buf_bound_def)
  from rlp_item_roundtrip [OF _ this] show ?thesis by auto
qed

end
