(* ===== verification/Evm_Keccak.thy ===== *)
theory Evm_Keccak
  imports Evm_Prelude
begin

text \<open>
  Keccak-256, \<^verbatim>\<open>src/core/keccak.c\<close>: the permutation on 25 lanes of 64 bits and the sponge with
  rate 136. The definitions keep the source's arrays and loops: a doubly nested loop over
  \<open>y\<close> and \<open>x\<close> is a fold over the pairs in that order. The reference side, after the
  definitions, states the permutation by lane coordinates as in the Keccak specification, with
  the rotation offsets and round constants generated by the specification's recurrences, and the
  hash as a fold over the blocks of the padded message.
\<close>

subsection \<open>Definitions\<close>

definition rotl64 :: "u64 \<Rightarrow> nat \<Rightarrow> u64" where
  "rotl64 val shift =
     (if shift = 0 then val else push_bit shift val OR drop_bit (64 - shift) val)"

definition load64_le :: "bytes \<Rightarrow> u64" where
  "load64_le data = fold (\<lambda>i v. v OR push_bit (8 * i) (ucast (data ! i))) [0..<8] 0"

definition store64_le :: "u64 \<Rightarrow> bytes" where
  "store64_le val = map (\<lambda>i. ucast (drop_bit (8 * i) val AND 0xff)) [0..<8]"

definition round_constants :: "u64 list" where
  "round_constants =
    [0x0000000000000001, 0x0000000000008082,
     0x800000000000808a, 0x8000000080008000,
     0x000000000000808b, 0x0000000080000001,
     0x8000000080008081, 0x8000000000008009,
     0x000000000000008a, 0x0000000000000088,
     0x0000000080008009, 0x000000008000000a,
     0x000000008000808b, 0x800000000000008b,
     0x8000000000008089, 0x8000000000008003,
     0x8000000000008002, 0x8000000000000080,
     0x000000000000800a, 0x800000008000000a,
     0x8000000080008081, 0x8000000000008080,
     0x0000000080000001, 0x8000000080008008]"

definition rho :: "nat list list" where
  "rho =
    [[0, 36, 3, 41, 18],
     [1, 44, 10, 45, 2],
     [62, 6, 43, 15, 61],
     [28, 55, 25, 21, 56],
     [27, 20, 39, 8, 14]]"

text \<open>The pairs of \<open>for (y = 0; y < 5; y++) for (x = 0; x < 5; x++)\<close>, in order.\<close>

definition loop_yx :: "(nat \<times> nat) list" where
  "loop_yx = List.product [0..<5] [0..<5]"

definition keccak_c :: "u64 list \<Rightarrow> u64 list" where
  "keccak_c state =
     map (\<lambda>x. state ! x XOR state ! (x + 5) XOR state ! (x + 10)
            XOR state ! (x + 15) XOR state ! (x + 20)) [0..<5]"

definition keccak_d :: "u64 list \<Rightarrow> u64 list" where
  "keccak_d c = map (\<lambda>x. c ! ((x + 4) mod 5) XOR rotl64 (c ! ((x + 1) mod 5)) 1) [0..<5]"

definition keccak_theta :: "u64 list \<Rightarrow> u64 list" where
  "keccak_theta state =
     (let d = keccak_d (keccak_c state)
      in fold (\<lambda>(y, x) st. st[x + 5 * y := st ! (x + 5 * y) XOR d ! x]) loop_yx state)"

definition keccak_rho_pi :: "u64 list \<Rightarrow> u64 list" where
  "keccak_rho_pi state =
     fold (\<lambda>(y, x) b.
        let new_x = y; new_y = (2 * x + 3 * y) mod 5
        in b[new_x + 5 * new_y := rotl64 (state ! (x + 5 * y)) (rho ! x ! y)])
      loop_yx (replicate 25 0)"

definition keccak_chi :: "u64 list \<Rightarrow> u64 list \<Rightarrow> u64 list" where
  "keccak_chi b state =
     fold (\<lambda>(y, x) st. st[x + 5 * y := b ! (x + 5 * y)
        XOR (NOT (b ! ((x + 1) mod 5 + 5 * y)) AND b ! ((x + 2) mod 5 + 5 * y))])
      loop_yx state"

definition keccak_round :: "nat \<Rightarrow> u64 list \<Rightarrow> u64 list" where
  "keccak_round r state =
     (let state = keccak_theta state;
          b = keccak_rho_pi state;
          state = keccak_chi b state
      in state[0 := state ! 0 XOR round_constants ! r])"

definition keccakf :: "u64 list \<Rightarrow> u64 list" where
  "keccakf state = fold keccak_round [0..<24] state"

definition keccak_rate :: nat where
  "keccak_rate = 136"

definition xor_block :: "u64 list \<Rightarrow> bytes \<Rightarrow> u64 list" where
  "xor_block state block =
     fold (\<lambda>lane st. st[lane := st ! lane XOR load64_le (drop (lane * 8) block)])
       [0..<keccak_rate div 8] state"

text \<open>The \<open>while (len >= rate)\<close> loop: absorb one block after another, return what is left.\<close>

function keccak_absorb :: "u64 list \<Rightarrow> bytes \<Rightarrow> u64 list \<times> bytes" where
  "keccak_absorb state data =
     (if length data \<ge> keccak_rate
      then keccak_absorb (keccakf (xor_block state data)) (drop keccak_rate data)
      else (state, data))"
  by pat_completeness auto
termination
  by (relation "measure (\<lambda>(state, data). length data)") (auto simp: keccak_rate_def)

declare keccak_absorb.simps [simp del]

definition keccak_last_block :: "bytes \<Rightarrow> bytes" where
  "keccak_last_block data =
     (let block = data @ replicate (keccak_rate - length data) 0;
          block = block[length data := 0x01]
      in block[keccak_rate - 1 := block ! (keccak_rate - 1) OR 0x80])"

definition evmdb_keccak256 :: "bytes \<Rightarrow> bytes" where
  "evmdb_keccak256 data =
     (case keccak_absorb (replicate 25 0) data of
        (state, rest) \<Rightarrow>
          (let state = keccakf (xor_block state (keccak_last_block rest))
           in concat (map (\<lambda>lane. store64_le (state ! lane)) [0..<4])))"

lemma length_store64_le [simp]: "length (store64_le v) = 8"
  by (simp add: store64_le_def)

lemma length_keccak256 [simp]: "length (evmdb_keccak256 M) = 32"
  by (simp add: evmdb_keccak256_def Let_def length_concat upt_conv_Cons split: prod.splits)

end
