(* ===== verification/Evm_Tx.thy ===== *)
theory Evm_Tx
  imports Evm_Rlp Evm_Keccak
begin

text \<open>
  Transactions, \<^verbatim>\<open>src/block/tx.c\<close>: the hash a sender signs, the decoder of signed transactions and
  the recovery of the sender.

  \<open>alloc n\<close> says whether \<open>malloc(n)\<close> succeeds. Pointer arguments are values: the \<open>NULL\<close> checks at
  the entry of the functions have no counterpart. libsecp256k1 is the parameter \<open>secp\<close>.
\<close>

subsection \<open>Signing hash\<close>

definition append_eip1559_fields :: "(nat \<Rightarrow> bool) \<Rightarrow> evmdb_tx \<Rightarrow> rlp_buffer \<Rightarrow> rlp_buffer cres" where
  "append_eip1559_fields alloc tx payload =
     bindE (rlp_append_uint64 alloc payload (tx_chain_id tx)) (\<lambda>payload.
     bindE (rlp_append_uint64 alloc payload (tx_nonce tx)) (\<lambda>payload.
     bindE (rlp_append_bytes32 alloc payload (tx_max_priority_fee tx)) (\<lambda>payload.
     bindE (rlp_append_bytes32 alloc payload (tx_max_fee_per_gas tx)) (\<lambda>payload.
     bindE (rlp_append_uint64 alloc payload (tx_gas_limit tx)) (\<lambda>payload.
     bindE (rlp_append_address alloc payload (tx_to tx) (tx_to_is_null tx)) (\<lambda>payload.
     bindE (rlp_append_bytes32 alloc payload (tx_value tx)) (\<lambda>payload.
     bindE (rlp_append_bytes alloc payload (tx_data tx)) (\<lambda>payload.
       rlp_append_empty_list alloc payload))))))))"

definition append_legacy_fields :: "(nat \<Rightarrow> bool) \<Rightarrow> evmdb_tx \<Rightarrow> rlp_buffer \<Rightarrow> rlp_buffer cres" where
  "append_legacy_fields alloc tx payload =
     bindE (rlp_append_uint64 alloc payload (tx_nonce tx)) (\<lambda>payload.
     bindE (rlp_append_bytes32 alloc payload (tx_gas_price tx)) (\<lambda>payload.
     bindE (rlp_append_uint64 alloc payload (tx_gas_limit tx)) (\<lambda>payload.
     bindE (rlp_append_address alloc payload (tx_to tx) (tx_to_is_null tx)) (\<lambda>payload.
     bindE (rlp_append_bytes32 alloc payload (tx_value tx)) (\<lambda>payload.
     bindE (rlp_append_bytes alloc payload (tx_data tx)) (\<lambda>payload.
       if tx_chain_id tx \<noteq> 0 then
         bindE (rlp_append_uint64 alloc payload (tx_chain_id tx)) (\<lambda>payload.
         bindE (rlp_append_bytes32 alloc payload zero_bytes32) (\<lambda>payload.
           rlp_append_bytes32 alloc payload zero_bytes32))
       else Inr payload))))))"

definition evmdb_tx_signing_hash :: "(nat \<Rightarrow> bool) \<Rightarrow> evmdb_tx \<Rightarrow> evmdb_hash cres" where
  "evmdb_tx_signing_hash alloc tx =
     bindE (case tx_type tx of
         EVMDB_TX_EIP1559 \<Rightarrow>
           bindE (append_eip1559_fields alloc tx empty_buffer) (\<lambda>payload.
           bindE (rlp_buffer_append_byte alloc empty_buffer 0x02) (\<lambda>encoded.
             rlp_wrap_list alloc encoded payload))
       | EVMDB_TX_LEGACY \<Rightarrow>
           bindE (append_legacy_fields alloc tx empty_buffer) (\<lambda>payload.
             rlp_wrap_list alloc empty_buffer payload)
       | EVMDB_TX_EIP2930 \<Rightarrow> Inl RcError)
       (\<lambda>encoded. Inr (evmdb_keccak256 (take (unat (buf_len encoded)) (buf_data encoded))))"

subsection \<open>Decoding\<close>

text \<open>
  One field of the list: decode an item, convert it, store it. \<open>field_to\<close> is the recipient, where
  the empty item stands for contract creation, \<open>field_data\<close> the calldata, which stays empty when
  its \<open>malloc\<close> fails, and \<open>field_skip\<close> an item whose contents the decoder ignores.
\<close>

type_synonym decode_state = "rlp_reader \<times> evmdb_tx"

definition field_u64 :: "bytes \<Rightarrow> ((u64 \<Rightarrow> u64) \<Rightarrow> evmdb_tx \<Rightarrow> evmdb_tx) \<Rightarrow> decode_state \<Rightarrow> decode_state cres" where
  "field_u64 mem upd = (\<lambda>(lr, tx). bindE (rlp_decode_item mem lr) (\<lambda>((item, item_len), lr).
     bindE (rlp_to_uint64 mem item item_len) (\<lambda>v. Inr (lr, upd (\<lambda>_. v) tx))))"

definition field_bytes32 ::
  "bytes \<Rightarrow> ((evmdb_bytes32 \<Rightarrow> evmdb_bytes32) \<Rightarrow> evmdb_tx \<Rightarrow> evmdb_tx) \<Rightarrow> decode_state \<Rightarrow> decode_state cres" where
  "field_bytes32 mem upd = (\<lambda>(lr, tx). bindE (rlp_decode_item mem lr) (\<lambda>((item, item_len), lr).
     bindE (rlp_to_bytes32 mem item item_len) (\<lambda>v. Inr (lr, upd (\<lambda>_. v) tx))))"

definition field_to :: "bytes \<Rightarrow> decode_state \<Rightarrow> decode_state cres" where
  "field_to mem = (\<lambda>(lr, tx). bindE (rlp_decode_item mem lr) (\<lambda>((item, item_len), lr).
     if item_len = 0 then Inr (lr, tx\<lparr>tx_to_is_null := True\<rparr>)
     else bindE (rlp_to_address mem item item_len) (\<lambda>a. Inr (lr, tx\<lparr>tx_to := a\<rparr>))))"

definition field_data :: "(nat \<Rightarrow> bool) \<Rightarrow> bytes \<Rightarrow> decode_state \<Rightarrow> decode_state cres" where
  "field_data alloc mem = (\<lambda>(lr, tx). bindE (rlp_decode_item mem lr) (\<lambda>((item, item_len), lr).
     if item_len > 0 \<and> alloc (unat item_len) then
       bindE (mem_read_n mem item (unat item_len)) (\<lambda>d. Inr (lr, tx\<lparr>tx_data := d\<rparr>))
     else Inr (lr, tx)))"

definition field_skip :: "bytes \<Rightarrow> decode_state \<Rightarrow> decode_state cres" where
  "field_skip mem = (\<lambda>(lr, tx). bindE (rlp_decode_item mem lr) (\<lambda>(_, lr). Inr (lr, tx)))"

definition decode_eip1559 :: "(nat \<Rightarrow> bool) \<Rightarrow> bytes \<Rightarrow> decode_state \<Rightarrow> evmdb_tx cres" where
  "decode_eip1559 alloc mem s =
     bindE (field_u64 mem tx_chain_id_update s) (\<lambda>s.
     bindE (field_u64 mem tx_nonce_update s) (\<lambda>s.
     bindE (field_bytes32 mem tx_max_priority_fee_update s) (\<lambda>s.
     bindE (field_bytes32 mem tx_max_fee_per_gas_update s) (\<lambda>s.
     bindE (field_u64 mem tx_gas_limit_update s) (\<lambda>s.
     bindE (field_to mem s) (\<lambda>s.
     bindE (field_bytes32 mem tx_value_update s) (\<lambda>s.
     bindE (field_data alloc mem s) (\<lambda>s.
     bindE (field_skip mem s) (\<lambda>s.
     bindE (field_u64 mem tx_v_update s) (\<lambda>s.
     bindE (field_bytes32 mem tx_r_update s) (\<lambda>s.
     bindE (field_bytes32 mem tx_s_update s) (\<lambda>(lr, tx). Inr tx))))))))))))"

definition decode_legacy :: "(nat \<Rightarrow> bool) \<Rightarrow> bytes \<Rightarrow> decode_state \<Rightarrow> evmdb_tx cres" where
  "decode_legacy alloc mem s =
     bindE (field_u64 mem tx_nonce_update s) (\<lambda>s.
     bindE (field_bytes32 mem tx_gas_price_update s) (\<lambda>s.
     bindE (field_u64 mem tx_gas_limit_update s) (\<lambda>s.
     bindE (field_to mem s) (\<lambda>s.
     bindE (field_bytes32 mem tx_value_update s) (\<lambda>s.
     bindE (field_data alloc mem s) (\<lambda>s.
     bindE (field_u64 mem tx_v_update s) (\<lambda>s.
     bindE (field_bytes32 mem tx_r_update s) (\<lambda>s.
     bindE (field_bytes32 mem tx_s_update s) (\<lambda>(lr, tx).
       Inr (if tx_v tx \<ge> 35 then tx\<lparr>tx_chain_id := (tx_v tx - 35) div 2\<rparr> else tx))))))))))"

definition evmdb_tx_decode :: "(nat \<Rightarrow> bool) \<Rightarrow> bytes \<Rightarrow> evmdb_tx cres" where
  "evmdb_tx_decode alloc raw =
     (if raw = [] then Inl RcError
      else if \<not> alloc (length raw) then Inl RcError
      else
        (let (ty, payload) = (if raw ! 0 = 0x01 then (EVMDB_TX_EIP2930, 1)
                              else if raw ! 0 = 0x02 then (EVMDB_TX_EIP1559, 1)
                              else (EVMDB_TX_LEGACY, 0));
             tx = zero_tx\<lparr>tx_raw := raw, tx_type := ty\<rparr>;
             reader = \<lparr>rd_data = payload, rd_pos = 0, rd_len = word_of_nat (length raw) - word_of_nat payload\<rparr>
         in bindE (rlp_decode_item raw reader) (\<lambda>((list_data, list_len), _).
            let lr = \<lparr>rd_data = list_data, rd_pos = 0, rd_len = list_len\<rparr>
            in bindE (case ty of
                  EVMDB_TX_EIP1559 \<Rightarrow> decode_eip1559 alloc raw (lr, tx)
                | EVMDB_TX_LEGACY \<Rightarrow> decode_legacy alloc raw (lr, tx)
                | EVMDB_TX_EIP2930 \<Rightarrow> Inr tx) (\<lambda>tx.
               Inr (tx\<lparr>tx_hash := evmdb_keccak256 raw\<rparr>)))))"

subsection \<open>Sender recovery\<close>

text \<open>The four calls of libsecp256k1, in their order: success is a value, failure \<open>None\<close>.\<close>

record ('sig, 'pk) secp256k1 =
  context_create :: bool
  parse_compact :: "bytes \<Rightarrow> int \<Rightarrow> 'sig option"
  ecdsa_recover :: "'sig \<Rightarrow> bytes \<Rightarrow> 'pk option"
  pubkey_serialize :: "'pk \<Rightarrow> bytes option"

definition recovery_id :: "evmdb_tx \<Rightarrow> int option" where
  "recovery_id tx =
     (if tx_type tx = EVMDB_TX_EIP1559 \<or> tx_type tx = EVMDB_TX_EIP2930 then
        if tx_v tx > 1 then None else Some (uint (tx_v tx))
      else if tx_v tx = 27 \<or> tx_v tx = 28 then Some (uint (tx_v tx - 27))
      else if tx_v tx \<ge> 35 then Some (uint ((tx_v tx - 35) mod 2))
      else None)"

definition secp_pubkey :: "('sig, 'pk) secp256k1 \<Rightarrow> bytes \<Rightarrow> int \<Rightarrow> evmdb_hash \<Rightarrow> bytes option" where
  "secp_pubkey secp compact recid h =
     Option.bind (parse_compact secp compact recid) (\<lambda>sig.
     Option.bind (ecdsa_recover secp sig h) (pubkey_serialize secp))"

definition evmdb_tx_recover_sender ::
  "(nat \<Rightarrow> bool) \<Rightarrow> ('sig, 'pk) secp256k1 \<Rightarrow> evmdb_tx \<Rightarrow> unit cres \<times> evmdb_tx" where
  "evmdb_tx_recover_sender alloc secp tx =
     (case evmdb_tx_signing_hash alloc tx of
        Inl e \<Rightarrow> (Inl e, tx)
      | Inr signing_hash \<Rightarrow>
          (case recovery_id tx of
             None \<Rightarrow> (Inl RcError, tx)
           | Some recid \<Rightarrow>
               if \<not> context_create secp then (Inl RcError, tx)
               else (case secp_pubkey secp (take 32 (tx_r tx) @ take 32 (tx_s tx)) recid signing_hash of
                       None \<Rightarrow> (Inl RcError, tx\<lparr>tx_from := zero_address\<rparr>)
                     | Some pubkey \<Rightarrow>
                         (Inr (), tx\<lparr>tx_from := take 20 (drop 12
                            (evmdb_keccak256 (take 64 (drop 1 pubkey))))\<rparr>))))"

definition evmdb_tx_free :: "evmdb_tx \<Rightarrow> evmdb_tx" where
  "evmdb_tx_free tx = tx\<lparr>tx_data := [], tx_raw := []\<rparr>"

definition evmdb_receipt_free :: "evmdb_receipt \<Rightarrow> evmdb_receipt" where
  "evmdb_receipt_free receipt = receipt\<lparr>rec_logs := [], rec_return_data := []\<rparr>"

subsection \<open>What is signed\<close>

text \<open>The integers of a transaction in RLP: big-endian without leading zeros.\<close>

definition rlp_u64 :: "u64 \<Rightarrow> bytes" where
  "rlp_u64 v = rlp_str (be_min (unat v))"

definition rlp_word :: "evmdb_bytes32 \<Rightarrow> bytes" where
  "rlp_word w = rlp_str (be_min (be_val w))"

definition rlp_recipient :: "evmdb_tx \<Rightarrow> bytes" where
  "rlp_recipient tx = rlp_str (if tx_to_is_null tx then [] else tx_to tx)"

definition eip1559_fields :: "evmdb_tx \<Rightarrow> bytes" where
  "eip1559_fields tx = rlp_u64 (tx_chain_id tx) @ rlp_u64 (tx_nonce tx)
     @ rlp_word (tx_max_priority_fee tx) @ rlp_word (tx_max_fee_per_gas tx)
     @ rlp_u64 (tx_gas_limit tx) @ rlp_recipient tx @ rlp_word (tx_value tx)
     @ rlp_str (tx_data tx) @ rlp_list []"

definition legacy_fields :: "evmdb_tx \<Rightarrow> bytes" where
  "legacy_fields tx = rlp_u64 (tx_nonce tx) @ rlp_word (tx_gas_price tx)
     @ rlp_u64 (tx_gas_limit tx) @ rlp_recipient tx @ rlp_word (tx_value tx)
     @ rlp_str (tx_data tx)"

text \<open>EIP-1559 and EIP-155: the bytes whose Keccak hash is signed.\<close>

definition signing_preimage :: "evmdb_tx \<Rightarrow> bytes" where
  "signing_preimage tx =
     (if tx_type tx = EVMDB_TX_EIP1559 then 0x02 # rlp_list (eip1559_fields tx)
      else rlp_list (legacy_fields tx
        @ (if tx_chain_id tx = 0 then [] else rlp_u64 (tx_chain_id tx) @ rlp_str [] @ rlp_str [])))"

definition eip1559_pieces :: "evmdb_tx \<Rightarrow> bytes list" where
  "eip1559_pieces tx = rlp_str_pieces (be_min (unat (tx_chain_id tx)))
     @ rlp_str_pieces (be_min (unat (tx_nonce tx)))
     @ rlp_str_pieces (be_min (be_val (tx_max_priority_fee tx)))
     @ rlp_str_pieces (be_min (be_val (tx_max_fee_per_gas tx)))
     @ rlp_str_pieces (be_min (unat (tx_gas_limit tx)))
     @ rlp_str_pieces (if tx_to_is_null tx then [] else tx_to tx)
     @ rlp_str_pieces (be_min (be_val (tx_value tx)))
     @ rlp_str_pieces (tx_data tx) @ [[0xc0]]"

definition legacy_pieces :: "evmdb_tx \<Rightarrow> bytes list" where
  "legacy_pieces tx = rlp_str_pieces (be_min (unat (tx_nonce tx)))
     @ rlp_str_pieces (be_min (be_val (tx_gas_price tx)))
     @ rlp_str_pieces (be_min (unat (tx_gas_limit tx)))
     @ rlp_str_pieces (if tx_to_is_null tx then [] else tx_to tx)
     @ rlp_str_pieces (be_min (be_val (tx_value tx)))
     @ rlp_str_pieces (tx_data tx)
     @ (if tx_chain_id tx = 0 then []
        else rlp_str_pieces (be_min (unat (tx_chain_id tx))) @ rlp_str_pieces [] @ rlp_str_pieces [])"

lemmas tx_fields_defs = eip1559_fields_def legacy_fields_def rlp_u64_def rlp_word_def rlp_recipient_def

lemma concat_eip1559_pieces: "concat (eip1559_pieces tx) = eip1559_fields tx"
  by (simp add: eip1559_pieces_def tx_fields_defs rlp_list_Nil rlp_str_def)

lemma concat_legacy_pieces:
  "concat (legacy_pieces tx) = legacy_fields tx
     @ (if tx_chain_id tx = 0 then [] else rlp_u64 (tx_chain_id tx) @ rlp_str [] @ rlp_str [])"
  by (simp add: legacy_pieces_def tx_fields_defs rlp_str_def)

lemma append_eip1559_fields_puts:
  assumes "wf_tx tx" and "length (tx_data tx) < 2 ^ 64"
  shows "append_eip1559_fields alloc tx b = puts (rlp_buffer_append alloc) b (eip1559_pieces tx)"
proof -
  have "rlp_append_empty_list alloc = (\<lambda>b. puts (rlp_buffer_append alloc) b [[0xc0]])"
    by (rule ext) (rule rlp_append_empty_list_puts)
  then show ?thesis
    using assms unfolding append_eip1559_fields_def eip1559_pieces_def wf_tx_def
    by (simp add: rlp_puts puts_append del: puts.simps)
qed

lemma append_legacy_fields_puts:
  assumes "wf_tx tx" and "length (tx_data tx) < 2 ^ 64"
  shows "append_legacy_fields alloc tx b = puts (rlp_buffer_append alloc) b (legacy_pieces tx)"
proof -
  have "be_val zero_bytes32 = 0" by (simp add: zero_bytes32_def)
  then show ?thesis
    using assms unfolding append_legacy_fields_def legacy_pieces_def wf_tx_def
    by (cases "tx_chain_id tx = 0")
      (simp_all add: rlp_puts puts_append)
qed

text \<open>A payload collected in one buffer and wrapped as a list behind a prefix in another.\<close>

lemma wrap_payload_cases:
  assumes fits: "length (concat pre) + length (rlp_list (concat ps)) \<le> buf_bound"
  obtains b where "bindE (puts (rlp_buffer_append alloc) empty_buffer ps) (\<lambda>payload.
        bindE (puts (rlp_buffer_append alloc) empty_buffer pre) (\<lambda>enc.
          rlp_wrap_list alloc enc payload)) = Inr b" "buf_content b = concat pre @ rlp_list (concat ps)"
  | "bindE (puts (rlp_buffer_append alloc) empty_buffer ps) (\<lambda>payload.
        bindE (puts (rlp_buffer_append alloc) empty_buffer pre) (\<lambda>enc.
          rlp_wrap_list alloc enc payload)) = Inl RcError" "\<exists>n. \<not> alloc n"
proof -
  have lens: "length (buf_content empty_buffer) + length (concat ps) \<le> buf_bound"
    "length (buf_content empty_buffer) + length (concat pre) \<le> buf_bound"
    using fits by (simp_all add: rlp_list_def)
  note ok = empty_buffer_ok(1)
  show thesis
  proof (cases rule: rlp_puts_cases [OF ok lens(1), of alloc])
    case (1 payload)
    note payload = 1
    show thesis
    proof (cases rule: rlp_puts_cases [OF ok lens(2), of alloc])
      case (1 enc)
      let ?ws = "rlp_len_pieces (length (buf_content payload)) 0xc0 0xf7 @ [buf_content payload]"
      have total: "length (buf_content enc) + length (concat ?ws) \<le> buf_bound"
        using fits 1 payload by (simp only: concat_list_pieces) simp
      show thesis
        by (cases rule: rlp_puts_cases [OF 1(2) total, of alloc])
          (use 1 payload that in \<open>simp_all only: rlp_wrap_list_puts concat_list_pieces bindE_Inr
             empty_buffer_ok append_Nil\<close>)
    qed (use payload that in simp)
  qed (use that in simp)
qed

lemma signing_hash_cases:
  assumes wf: "wf_tx tx" and ty: "tx_type tx \<noteq> EVMDB_TX_EIP2930"
    and fits: "length (signing_preimage tx) \<le> buf_bound"
  obtains "evmdb_tx_signing_hash alloc tx = Inr (evmdb_keccak256 (signing_preimage tx))"
  | "evmdb_tx_signing_hash alloc tx = Inl RcError" "\<exists>n. \<not> alloc n"
proof -
  have "length (tx_data tx) \<le> length (rlp_str (tx_data tx))" by (rule length_rlp_str_ge)
  also have "\<dots> \<le> length (signing_preimage tx)"
    by (simp add: signing_preimage_def rlp_list_def eip1559_fields_def legacy_fields_def)
  finally have len: "length (tx_data tx) < 2 ^ 64" using fits by (simp add: buf_bound_def)
  show thesis
  proof (cases "tx_type tx")
    case EVMDB_TX_EIP1559
    have sig: "signing_preimage tx = concat [[0x02]] @ rlp_list (concat (eip1559_pieces tx))"
      using EVMDB_TX_EIP1559 by (simp add: signing_preimage_def concat_eip1559_pieces)
    then have bound: "length (concat [[0x02 :: byte]]) + length (rlp_list (concat (eip1559_pieces tx))) \<le> buf_bound"
      using fits by simp
    show thesis
      by (rule wrap_payload_cases [OF bound, of alloc])
        (use EVMDB_TX_EIP1559 wf len sig that in \<open>simp_all add: evmdb_tx_signing_hash_def
          append_eip1559_fields_puts rlp_buffer_append_byte_def buf_content_def\<close>)
  next
    case EVMDB_TX_LEGACY
    have sig: "signing_preimage tx = concat [] @ rlp_list (concat (legacy_pieces tx))"
      using EVMDB_TX_LEGACY by (simp add: signing_preimage_def concat_legacy_pieces)
    then have bound: "length (concat [] :: bytes) + length (rlp_list (concat (legacy_pieces tx))) \<le> buf_bound"
      using fits by simp
    show thesis
      by (rule wrap_payload_cases [OF bound, of alloc])
        (use EVMDB_TX_LEGACY wf len sig that in \<open>simp_all add: evmdb_tx_signing_hash_def
          append_legacy_fields_puts buf_content_def\<close>)
  next
    case EVMDB_TX_EIP2930
    with ty show thesis by simp
  qed
qed

subsection \<open>Reading the fields\<close>

text \<open>One rule per kind of field: a reader in front of the field's encoding stores its value and goes on.\<close>

named_theorems field_intros \<open>a decoding step in front of the encoding of its field\<close>

lemma field_u64_bind [field_intros]:
  assumes "reader_at mem lr (rlp_u64 v @ rest)"
    and "\<And>lr. reader_at mem lr rest \<Longrightarrow> k (lr, upd (\<lambda>_. v) tx) = z"
  shows "bindE (field_u64 mem upd (lr, tx)) k = z"
proof -
  have len: "length (be_min (unat v)) \<le> 8" by (rule length_be_min_word)
  then have "length (be_min (unat v)) < 2 ^ 64" by simp
  from rlp_decode_str [OF assms(1) [unfolded rlp_u64_def] this] obtain p lr' where
    "rlp_decode_item mem lr = Inr ((p, word_of_nat (length (be_min (unat v)))), lr')"
    "item_at mem p (be_min (unat v))" "reader_at mem lr' rest" by metis
  with assms(2) [of lr'] rlp_to_uint64_item [OF _ len, of mem p] show ?thesis
    by (simp add: field_u64_def)
qed

lemma field_bytes32_bind [field_intros]:
  assumes "reader_at mem lr (rlp_word w @ rest)" and w: "length w = 32"
    and "\<And>lr. reader_at mem lr rest \<Longrightarrow> k (lr, upd (\<lambda>_. w) tx) = z"
  shows "bindE (field_bytes32 mem upd (lr, tx)) k = z"
proof -
  have len: "length (be_min (be_val w)) \<le> 32" using w by (rule length_be_min_be_val)
  then have "length (be_min (be_val w)) < 2 ^ 64" by simp
  from rlp_decode_str [OF assms(1) [unfolded rlp_word_def] this] obtain p lr' where
    "rlp_decode_item mem lr = Inr ((p, word_of_nat (length (be_min (be_val w)))), lr')"
    "item_at mem p (be_min (be_val w))" "reader_at mem lr' rest" by metis
  with assms(3) [of lr'] rlp_to_bytes32_item [OF _ len, of mem p] pad_be_min [OF w] show ?thesis
    by (simp add: field_bytes32_def)
qed

lemma field_to_bind [field_intros]:
  assumes "reader_at mem lr (rlp_recipient t @ rest)" and "length (tx_to t) = 20"
    and "\<And>lr. reader_at mem lr rest \<Longrightarrow>
      k (lr, if tx_to_is_null t then tx\<lparr>tx_to_is_null := True\<rparr> else tx\<lparr>tx_to := tx_to t\<rparr>) = z"
  shows "bindE (field_to mem (lr, tx)) k = z"
proof -
  let ?bs = "if tx_to_is_null t then [] else tx_to t"
  have "length ?bs < 2 ^ 64" using assms(2) by simp
  from rlp_decode_str [OF assms(1) [unfolded rlp_recipient_def] this] obtain p lr' where
    "rlp_decode_item mem lr = Inr ((p, word_of_nat (length ?bs)), lr')"
    "item_at mem p ?bs" "reader_at mem lr' rest" by metis
  with assms(2) assms(3) [of lr'] rlp_to_address_item [of mem p "tx_to t"] show ?thesis
    by (auto simp: field_to_def)
qed

lemma field_data_bind [field_intros]:
  assumes "reader_at mem lr (rlp_str d @ rest)" and "length d < 2 ^ 64" and "alloc (length d)"
    and "\<And>lr. reader_at mem lr rest \<Longrightarrow> k (lr, if d = [] then tx else tx\<lparr>tx_data := d\<rparr>) = z"
  shows "bindE (field_data alloc mem (lr, tx)) k = z"
proof -
  from rlp_decode_str [OF assms(1,2)] obtain p lr' where p:
    "rlp_decode_item mem lr = Inr ((p, word_of_nat (length d)), lr')"
    "item_at mem p d" "reader_at mem lr' rest" by metis
  have "unat (word_of_nat (length d) :: size_t) = length d"
    using assms(2) by (rule unat_word_of_nat64)
  moreover from this have "(word_of_nat (length d) :: size_t) > 0 \<longleftrightarrow> d \<noteq> []"
    by (simp add: word_less_nat_alt)
  ultimately show ?thesis
    using p assms(3) assms(4) [of lr'] mem_read_n_item [OF p(2)] by (auto simp: field_data_def)
qed

lemma field_skip_bind [field_intros]:
  assumes "reader_at mem lr (rlp_list [] @ rest)"
    and "\<And>lr. reader_at mem lr rest \<Longrightarrow> k (lr, tx) = z"
  shows "bindE (field_skip mem (lr, tx)) k = z"
proof -
  obtain p lr' where "rlp_decode_item mem lr = Inr ((p, 0), lr')" "reader_at mem lr' rest"
    by (rule rlp_decode_list [OF assms(1)]) auto
  with assms(2) [of lr'] show ?thesis by (simp add: field_skip_def)
qed

subsection \<open>Signed transactions on the wire\<close>

definition signature_fields :: "evmdb_tx \<Rightarrow> bytes" where
  "signature_fields tx = rlp_u64 (tx_v tx) @ rlp_word (tx_r tx) @ rlp_word (tx_s tx)"

definition encode_signed :: "evmdb_tx \<Rightarrow> bytes" where
  "encode_signed tx =
     (if tx_type tx = EVMDB_TX_EIP1559 then 0x02 # rlp_list (eip1559_fields tx @ signature_fields tx)
      else rlp_list (legacy_fields tx @ signature_fields tx))"

text \<open>
  The transactions the decoder can produce from an encoding: the fields a type does not carry
  have their cleared value, the chain id of a legacy transaction is the one in \<open>v\<close>.
\<close>

definition wire_tx :: "evmdb_tx \<Rightarrow> bool" where
  "wire_tx tx \<longleftrightarrow> wf_tx tx \<and> tx_type tx \<noteq> EVMDB_TX_EIP2930
     \<and> (tx_to_is_null tx \<longrightarrow> tx_to tx = zero_address) \<and> tx_from tx = zero_address
     \<and> (tx_type tx = EVMDB_TX_EIP1559 \<longrightarrow> tx_gas_price tx = zero_bytes32)
     \<and> (tx_type tx = EVMDB_TX_LEGACY \<longrightarrow> tx_max_fee_per_gas tx = zero_bytes32
          \<and> tx_max_priority_fee tx = zero_bytes32
          \<and> tx_chain_id tx = (if tx_v tx \<ge> 35 then (tx_v tx - 35) div 2 else 0))
     \<and> tx_raw tx = encode_signed tx \<and> tx_hash tx = evmdb_keccak256 (tx_raw tx)"

lemma decode_eip1559_fields:
  assumes "reader_at mem lr (eip1559_fields t @ signature_fields t @ [])"
    and "wf_tx t" and "length (tx_data t) < 2 ^ 64" and "alloc (length (tx_data t))"
    and "tx_to_is_null t \<longrightarrow> tx_to t = zero_address"
  shows "decode_eip1559 alloc mem (lr, zero_tx\<lparr>tx_raw := raw, tx_type := EVMDB_TX_EIP1559\<rparr>)
    = Inr (t\<lparr>tx_raw := raw, tx_type := EVMDB_TX_EIP1559, tx_gas_price := zero_bytes32,
        tx_hash := zero_bytes32, tx_from := zero_address\<rparr>)"
  using assms unfolding decode_eip1559_def eip1559_fields_def signature_fields_def wf_tx_def append_assoc
  by - (elim conjE, (rule field_intros, assumption+)+, cases t, simp add: zero_tx_def)

lemma decode_legacy_fields:
  assumes "reader_at mem lr (legacy_fields t @ signature_fields t @ [])"
    and "wf_tx t" and "length (tx_data t) < 2 ^ 64" and "alloc (length (tx_data t))"
    and "tx_to_is_null t \<longrightarrow> tx_to t = zero_address"
  shows "decode_legacy alloc mem (lr, zero_tx\<lparr>tx_raw := raw, tx_type := EVMDB_TX_LEGACY\<rparr>)
    = Inr (t\<lparr>tx_raw := raw, tx_type := EVMDB_TX_LEGACY, tx_max_fee_per_gas := zero_bytes32,
        tx_max_priority_fee := zero_bytes32, tx_hash := zero_bytes32, tx_from := zero_address,
        tx_chain_id := (if tx_v t \<ge> 35 then (tx_v t - 35) div 2 else 0)\<rparr>)"
  using assms unfolding decode_legacy_def legacy_fields_def signature_fields_def wf_tx_def append_assoc
  by - (elim conjE, (rule field_intros, assumption+)+, cases t, simp add: zero_tx_def)

lemma rlp_list_first: "length payload < 2 ^ 64 \<Longrightarrow> \<exists>b bs. rlp_list payload = b # bs \<and> 192 \<le> unat b"
  using prefix_byte(1) [of 192 "length payload"] prefix_byte(1) [of 247 "length (be_min (length payload))"]
    long_length_bytes(2) [of "length payload"]
  by (auto simp: rlp_list_def rlp_len_pieces_def)

text \<open>The outer list of a payload that starts at \<open>length pre\<close>: a reader on exactly its contents.\<close>

lemma decode_outer_list:
  assumes "length (rlp_list payload) < 2 ^ 64"
  obtains p r' where "rlp_decode_item (pre @ rlp_list payload)
      \<lparr>rd_data = length pre, rd_pos = 0, rd_len = word_of_nat (length (rlp_list payload))\<rparr>
      = Inr ((p, word_of_nat (length payload)), r')"
    and "reader_at (pre @ rlp_list payload)
      \<lparr>rd_data = p, rd_pos = 0, rd_len = word_of_nat (length payload)\<rparr> (payload @ [])"
proof -
  let ?mem = "pre @ rlp_list payload"
  have len: "length payload < 2 ^ 64" using assms by (simp add: rlp_list_def)
  have "item_at ?mem (length pre) (rlp_list payload)" by (simp add: item_at_def)
  from reader_at_item [OF this assms]
  have "reader_at ?mem \<lparr>rd_data = length pre, rd_pos = 0, rd_len = word_of_nat (length (rlp_list payload))\<rparr>
      (rlp_list payload @ [])" by simp
  from rlp_decode_list [OF this len] obtain p r' where p: "rlp_decode_item ?mem
      \<lparr>rd_data = length pre, rd_pos = 0, rd_len = word_of_nat (length (rlp_list payload))\<rparr>
      = Inr ((p, word_of_nat (length payload)), r')" "item_at ?mem p payload" by metis
  with reader_at_item [OF p(2) len] that show thesis by simp
qed

lemma tx_decode_encode:
  assumes wire: "wire_tx tx" and fits: "length (tx_raw tx) < 2 ^ 64"
    and mem: "alloc (length (tx_raw tx))" "alloc (length (tx_data tx))"
  shows "evmdb_tx_decode alloc (tx_raw tx) = Inr tx"
proof -
  have data: "length (tx_data tx) < 2 ^ 64"
    using fits length_rlp_str_ge [of "tx_data tx"] wire
    by (simp add: wire_tx_def encode_signed_def eip1559_fields_def legacy_fields_def rlp_list_def
        split: if_splits)
  show ?thesis
  proof (cases "tx_type tx")
    case EVMDB_TX_EIP1559
    let ?p = "eip1559_fields tx @ signature_fields tx"
    have raw: "tx_raw tx = [0x02] @ rlp_list ?p"
      using wire EVMDB_TX_EIP1559 by (simp add: wire_tx_def encode_signed_def)
    then have "length (rlp_list ?p) < 2 ^ 64" using fits by simp
    from decode_outer_list [OF this, of "[0x02]"] obtain p r' where
      "rlp_decode_item (tx_raw tx) \<lparr>rd_data = 1, rd_pos = 0, rd_len = word_of_nat (length (rlp_list ?p))\<rparr>
        = Inr ((p, word_of_nat (length ?p)), r')"
      "reader_at (tx_raw tx) \<lparr>rd_data = p, rd_pos = 0, rd_len = word_of_nat (length ?p)\<rparr>
        (eip1559_fields tx @ signature_fields tx @ [])"
      unfolding raw by auto
    moreover have "tx_raw tx \<noteq> []" "tx_raw tx ! 0 = 0x02"
      "word_of_nat (length (tx_raw tx)) - 1 = (word_of_nat (length (rlp_list ?p)) :: size_t)"
      using raw by simp_all
    ultimately have "evmdb_tx_decode alloc (tx_raw tx) = Inr (tx\<lparr>tx_raw := tx_raw tx,
        tx_type := EVMDB_TX_EIP1559, tx_gas_price := zero_bytes32,
        tx_hash := evmdb_keccak256 (tx_raw tx), tx_from := zero_address\<rparr>)"
      using decode_eip1559_fields [of "tx_raw tx" _ tx alloc "tx_raw tx"] wire mem data
      by (simp add: evmdb_tx_decode_def wire_tx_def Let_def)
    with wire EVMDB_TX_EIP1559 show ?thesis by (cases tx) (simp add: wire_tx_def)
  next
    case EVMDB_TX_LEGACY
    let ?p = "legacy_fields tx @ signature_fields tx"
    have raw: "tx_raw tx = [] @ rlp_list ?p"
      using wire EVMDB_TX_LEGACY by (simp add: wire_tx_def encode_signed_def)
    then have len: "length (rlp_list ?p) < 2 ^ 64" using fits by simp
    from decode_outer_list [OF this, of "[]"] obtain p r' where
      "rlp_decode_item (tx_raw tx) \<lparr>rd_data = 0, rd_pos = 0, rd_len = word_of_nat (length (rlp_list ?p))\<rparr>
        = Inr ((p, word_of_nat (length ?p)), r')"
      "reader_at (tx_raw tx) \<lparr>rd_data = p, rd_pos = 0, rd_len = word_of_nat (length ?p)\<rparr>
        (legacy_fields tx @ signature_fields tx @ [])"
      unfolding raw by auto
    moreover obtain b bs where "rlp_list ?p = b # bs" "192 \<le> unat b"
      using rlp_list_first [of ?p] len by (auto simp: rlp_list_def)
    ultimately show ?thesis
      using decode_legacy_fields [of "tx_raw tx" _ tx alloc "tx_raw tx"] raw wire EVMDB_TX_LEGACY mem data
      by (cases tx) (auto simp: evmdb_tx_decode_def wire_tx_def Let_def)
  next
    case EVMDB_TX_EIP2930
    with wire show ?thesis by (simp add: wire_tx_def)
  qed
qed

definition decode_option :: "bytes \<Rightarrow> evmdb_tx option" where
  "decode_option raw = (case evmdb_tx_decode (\<lambda>_. True) raw of Inl _ \<Rightarrow> None | Inr tx \<Rightarrow> Some tx)"

interpretation wire: codec tx_raw decode_option "\<lambda>tx. wire_tx tx \<and> length (tx_raw tx) < 2 ^ 64"
  by unfold_locales (simp add: decode_option_def tx_decode_encode)

subsection \<open>Unique readability\<close>

text \<open>RLP strings are prefix free, so the fields of a payload can be read off one after the other.\<close>

lemma rlp_str_prefix_free:
  assumes eq: "rlp_str bs @ xs = rlp_str cs @ ys" and len: "length (rlp_str bs @ xs) < 2 ^ 64"
  shows "bs = cs \<and> xs = ys"
proof -
  let ?mem = "rlp_str bs @ xs"
  let ?r = "\<lparr>rd_data = 0, rd_pos = 0, rd_len = word_of_nat (length ?mem)\<rparr>"
  have "item_at ?mem 0 ?mem" by (simp add: item_at_def)
  then have at: "reader_at ?mem ?r ?mem" using len by (rule reader_at_item)
  have lens: "length bs < 2 ^ 64" "length cs < 2 ^ 64"
    using len arg_cong [OF eq, of length] length_rlp_str_ge [of bs] length_rlp_str_ge [of cs] by simp_all
  obtain p where p: "rlp_decode_item ?mem ?r = Inr ((p, word_of_nat (length bs)),
      ?r\<lparr>rd_pos := rd_pos ?r + word_of_nat (length (rlp_str bs))\<rparr>)" "item_at ?mem p bs"
    using rlp_decode_str [OF at lens(1)] by metis
  obtain q where q: "rlp_decode_item ?mem ?r = Inr ((q, word_of_nat (length cs)),
      ?r\<lparr>rd_pos := rd_pos ?r + word_of_nat (length (rlp_str cs))\<rparr>)" "item_at ?mem q cs"
    using rlp_decode_str [OF at [unfolded eq] lens(2)] eq by metis
  have "length bs = length cs" using p(1) q(1) lens by (metis Inr_inject Pair_inject unat_word_of_nat64)
  moreover have "p = q" using p(1) q(1) by simp
  ultimately have "bs = cs" using p(2) q(2) by (simp add: item_at_def)
  with eq show ?thesis by simp
qed

lemma rlp_list_inject:
  assumes "rlp_list p = rlp_list q" and "length (rlp_list p) < 2 ^ 64"
  shows "p = q"
proof -
  obtain a r where a: "rlp_decode_item ([] @ rlp_list p)
      \<lparr>rd_data = length ([] :: bytes), rd_pos = 0, rd_len = word_of_nat (length (rlp_list p))\<rparr>
      = Inr ((a, word_of_nat (length p)), r)"
    using decode_outer_list [OF assms(2), of "[]"] by metis
  obtain b s where b: "rlp_decode_item ([] @ rlp_list q)
      \<lparr>rd_data = length ([] :: bytes), rd_pos = 0, rd_len = word_of_nat (length (rlp_list q))\<rparr>
      = Inr ((b, word_of_nat (length q)), s)"
    using decode_outer_list [of q "[]"] assms by metis
  have lens: "length p < 2 ^ 64" "length q < 2 ^ 64"
    using assms(2) assms(2) [unfolded assms(1)] by (simp_all add: rlp_list_def)
  have "length p = length q"
    using a b assms(1) lens by (metis Inr_inject Pair_inject unat_word_of_nat64)
  then show ?thesis using assms(1) by (simp add: rlp_list_def)
qed

lemma rlp_u64_prefix_iff:
  assumes "length (rlp_u64 v @ xs) < 2 ^ 64"
  shows "rlp_u64 v @ xs = rlp_u64 w @ ys \<longleftrightarrow> v = w \<and> xs = ys"
proof
  assume "rlp_u64 v @ xs = rlp_u64 w @ ys"
  then have eq: "be_min (unat v) = be_min (unat w) \<and> xs = ys"
    using assms unfolding rlp_u64_def by (intro rlp_str_prefix_free)
  then have "unat v = unat w" by (metis be_val_be_min)
  with eq show "v = w \<and> xs = ys" by (simp add: word_unat_eq_iff)
qed simp

lemma rlp_word_prefix_iff:
  assumes "length v = 32" and "length w = 32" and "length (rlp_word v @ xs) < 2 ^ 64"
  shows "rlp_word v @ xs = rlp_word w @ ys \<longleftrightarrow> v = w \<and> xs = ys"
proof
  assume "rlp_word v @ xs = rlp_word w @ ys"
  then have eq: "be_min (be_val v) = be_min (be_val w) \<and> xs = ys"
    using assms(3) unfolding rlp_word_def by (intro rlp_str_prefix_free)
  then have "be_val v = be_val w" by (metis be_val_be_min)
  then have "v = w" using assms(1,2) by (intro be_val_inject) simp_all
  with eq show "v = w \<and> xs = ys" by simp
qed simp

lemma rlp_u64_eq_iff: "rlp_u64 v = rlp_u64 w \<longleftrightarrow> v = w"
proof -
  have "length (rlp_u64 v @ []) < 2 ^ 64"
    using length_be_min_word [of v] by (simp add: rlp_u64_def rlp_str_def rlp_str_pieces_def rlp_len_pieces_def)
  from rlp_u64_prefix_iff [OF this, of w "[]"] show ?thesis by simp
qed

definition recipient :: "evmdb_tx \<Rightarrow> evmdb_address option" where
  "recipient tx = (if tx_to_is_null tx then None else Some (tx_to tx))"

lemma rlp_recipient_prefix_iff:
  assumes "length (tx_to t) = 20" and "length (tx_to u) = 20" and "length (rlp_recipient t @ xs) < 2 ^ 64"
  shows "rlp_recipient t @ xs = rlp_recipient u @ ys \<longleftrightarrow> recipient t = recipient u \<and> xs = ys"
proof
  assume "rlp_recipient t @ xs = rlp_recipient u @ ys"
  then have "(if tx_to_is_null t then [] else tx_to t) = (if tx_to_is_null u then [] else tx_to u) \<and> xs = ys"
    using assms(3) unfolding rlp_recipient_def by (intro rlp_str_prefix_free)
  with assms(1,2) show "recipient t = recipient u \<and> xs = ys"
    by (auto simp: recipient_def split: if_splits)
qed (auto simp: recipient_def rlp_recipient_def split: if_splits)

lemma rlp_str_prefix_iff:
  "length (rlp_str bs @ xs) < 2 ^ 64 \<Longrightarrow> rlp_str bs @ xs = rlp_str cs @ ys \<longleftrightarrow> bs = cs \<and> xs = ys"
  using rlp_str_prefix_free [of bs xs cs ys] by blast

lemma rlp_str_eq_iff: "length (rlp_str bs) < 2 ^ 64 \<Longrightarrow> rlp_str bs = rlp_str cs \<longleftrightarrow> bs = cs"
  using rlp_str_prefix_free [of bs "[]" cs "[]"] by auto

lemmas rlp_prefix_iffs = rlp_str_eq_iff rlp_u64_prefix_iff rlp_word_prefix_iff rlp_recipient_prefix_iff rlp_str_prefix_iff

definition same_intent :: "evmdb_tx \<Rightarrow> evmdb_tx \<Rightarrow> bool" where
  "same_intent t u \<longleftrightarrow> tx_type t = tx_type u \<and> tx_chain_id t = tx_chain_id u \<and> tx_nonce t = tx_nonce u
     \<and> tx_gas_limit t = tx_gas_limit u \<and> recipient t = recipient u \<and> tx_value t = tx_value u
     \<and> tx_data t = tx_data u
     \<and> (if tx_type t = EVMDB_TX_LEGACY then tx_gas_price t = tx_gas_price u
        else tx_max_fee_per_gas t = tx_max_fee_per_gas u \<and> tx_max_priority_fee t = tx_max_priority_fee u)"

lemma signing_preimage_first:
  assumes "length (signing_preimage t) < 2 ^ 64"
  shows "tx_type t = EVMDB_TX_EIP1559 \<longleftrightarrow> hd (signing_preimage t) = 0x02"
proof (cases "tx_type t = EVMDB_TX_EIP1559")
  case True
  then show ?thesis by (simp add: signing_preimage_def)
next
  case False
  then obtain payload where p: "signing_preimage t = rlp_list payload" by (simp add: signing_preimage_def)
  with assms have "length payload < 2 ^ 64" by (simp add: rlp_list_def)
  then obtain b bs where "rlp_list payload = b # bs" "192 \<le> unat b" using rlp_list_first by blast
  with p False show ?thesis by auto
qed

lemma rlp_str_not_Nil [simp]: "rlp_str bs \<noteq> []"
  by (auto simp: rlp_str_def rlp_str_pieces_def rlp_len_pieces_def)

lemma rlp_u64_not_Nil [simp]: "rlp_u64 v \<noteq> []"
  by (simp add: rlp_u64_def)

lemma signing_preimage_inject:
  assumes wf: "wf_tx t" "wf_tx u" and ty: "tx_type t \<noteq> EVMDB_TX_EIP2930" "tx_type u \<noteq> EVMDB_TX_EIP2930"
    and len: "length (signing_preimage t) < 2 ^ 64" and eq: "signing_preimage t = signing_preimage u"
  shows "same_intent t u"
proof -
  have same: "tx_type t = EVMDB_TX_EIP1559 \<longleftrightarrow> tx_type u = EVMDB_TX_EIP1559"
    using signing_preimage_first [of t] signing_preimage_first [of u] len eq by simp
  show ?thesis
  proof (cases "tx_type t = EVMDB_TX_EIP1559")
    case True
    then have "eip1559_fields t = eip1559_fields u" "length (eip1559_fields t) < 2 ^ 64"
      using eq len same rlp_list_inject [of "eip1559_fields t" "eip1559_fields u"]
      by (simp_all add: signing_preimage_def rlp_list_def)
    then show ?thesis
      using wf True same
      by (simp add: eip1559_fields_def same_intent_def wf_tx_def rlp_prefix_iffs)
  next
    case False
    define chain where "chain = (\<lambda>t :: evmdb_tx. if tx_chain_id t = 0 then []
      else rlp_u64 (tx_chain_id t) @ rlp_str [] @ rlp_str [])"
    have lists: "signing_preimage t = rlp_list (legacy_fields t @ chain t)"
      "signing_preimage u = rlp_list (legacy_fields u @ chain u)"
      using False same by (simp_all add: signing_preimage_def chain_def)
    have payload: "legacy_fields t @ chain t = legacy_fields u @ chain u"
      using eq len lists rlp_list_inject [of "legacy_fields t @ chain t" "legacy_fields u @ chain u"]
      by simp
    have bound: "length (legacy_fields t @ chain t) < 2 ^ 64"
      using len lists(1) by (simp add: rlp_list_def)
    have fields: "tx_nonce t = tx_nonce u" "tx_gas_price t = tx_gas_price u"
        "tx_gas_limit t = tx_gas_limit u" "recipient t = recipient u" "tx_value t = tx_value u"
        "tx_data t = tx_data u" "chain t = chain u" "length (chain t) < 2 ^ 64"
      using payload [unfolded legacy_fields_def append_assoc]
        bound [unfolded legacy_fields_def append_assoc length_append] wf
      by (simp_all add: wf_tx_def rlp_prefix_iffs)
    have "tx_chain_id t = tx_chain_id u"
      using fields(7,8) by (auto simp: chain_def rlp_u64_eq_iff split: if_splits)
    moreover have "tx_type t = EVMDB_TX_LEGACY" "tx_type u = EVMDB_TX_LEGACY"
      using False same ty by (metis evmdb_tx_type.exhaust)+
    ultimately show ?thesis using fields by (simp add: same_intent_def)
  qed
qed

subsection \<open>Properties\<close>

text \<open>
  C10: Decoding inverts encoding: from the signed encoding of a legacy or EIP-1559 transaction
  with an empty access list, the decoder rebuilds every field, the raw bytes and the hash, given
  that its two allocations succeed.
\<close>

theorem tx_decode_roundtrip:
  assumes "wire_tx tx" and "length (tx_raw tx) < 2 ^ 64"
    and "alloc (length (tx_raw tx))" and "alloc (length (tx_data tx))"
  shows "evmdb_tx_decode alloc (tx_raw tx) = Inr tx"
  using assms by (rule tx_decode_encode)

definition sample_tx :: evmdb_tx where
  "sample_tx = zero_tx\<lparr>tx_nonce := 9, tx_gas_limit := 21000, tx_v := 37, tx_chain_id := 1,
     tx_data := [0xca, 0xfe]\<rparr>"

lemma be_min_step: "0 < n \<Longrightarrow> be_min n = be_min (n div 256) @ [word_of_nat n]"
  by (simp add: be_min.simps [of n])

lemmas encode_eval = encode_signed_def legacy_fields_def eip1559_fields_def signature_fields_def
  rlp_u64_def rlp_word_def rlp_recipient_def rlp_str_def rlp_str_pieces_def rlp_len_pieces_def
  rlp_list_def zero_tx_def zero_bytes32_def zero_address_def be_min_step

lemma encode_sample: "encode_signed sample_tx = [0xe1, 0x09, 0x80, 0x82, 0x52, 0x08, 0x94, 0, 0, 0, 0, 0,
    0, 0, 0, 0, 0, 0, 0, 0, 0, 0, 0, 0, 0, 0, 0, 0x80, 0x82, 0xca, 0xfe, 0x25, 0x80, 0x80]"
  by (simp add: sample_tx_def encode_eval) (simp add: eval_nat_numeral)

theorem tx_decode_roundtrip_witness:
  "\<exists>tx. tx_nonce tx = 9 \<and> tx_data tx = [0xca, 0xfe]
     \<and> evmdb_tx_decode (\<lambda>n. n < 1024) (tx_raw tx) = Inr tx"
proof -
  define tx where "tx = sample_tx\<lparr>tx_raw := encode_signed sample_tx,
    tx_hash := evmdb_keccak256 (encode_signed sample_tx)\<rparr>"
  have enc: "encode_signed tx = encode_signed sample_tx"
    by (simp add: tx_def encode_signed_def legacy_fields_def eip1559_fields_def signature_fields_def
        rlp_recipient_def)
  show ?thesis
    using tx_decode_roundtrip [of tx "\<lambda>n. n < 1024"] enc
    by (intro exI [of _ tx])
      (simp add: wire_tx_def wf_tx_def tx_def encode_sample, simp add: sample_tx_def zero_tx_def)
qed

text \<open>
  C19: The signing hash of a legacy or EIP-1559 transaction is the Keccak hash of the bytes that
  EIP-155 and EIP-1559 prescribe, whatever the size of the calldata up to 2^63 encoded bytes; the
  only other outcome is the error return after a refused allocation.
\<close>

theorem tx_signing_hash_spec:
  assumes "wf_tx tx" and "tx_type tx \<noteq> EVMDB_TX_EIP2930" and "length (signing_preimage tx) \<le> buf_bound"
  shows "evmdb_tx_signing_hash alloc tx = Inr (evmdb_keccak256 (signing_preimage tx))
    \<or> evmdb_tx_signing_hash alloc tx = Inl RcError \<and> (\<exists>n. \<not> alloc n)"
  by (rule signing_hash_cases [OF assms, of alloc]) simp_all

theorem tx_signing_hash_spec_witness:
  "evmdb_tx_signing_hash (\<lambda>_. True) zero_tx
    = Inr (evmdb_keccak256 ([0xda, 0x80, 0x80, 0x80, 0x94] @ replicate 20 0 @ [0x80, 0x80]))"
  using tx_signing_hash_spec [of zero_tx "\<lambda>_. True"]
  by (simp add: signing_preimage_def encode_eval buf_bound_def wf_tx_def)

text \<open>
  C20: The signing hash binds the sender's intent: two well-formed transactions with the same
  signing hash agree in type, chain id, nonce, fees, gas limit, recipient, value and data, or
  their two signing preimages are different byte strings that Keccak-256 maps to that hash.
\<close>

theorem tx_signing_hash_binds:
  assumes "wf_tx t" and "wf_tx u"
    and "length (signing_preimage t) \<le> buf_bound" and "length (signing_preimage u) \<le> buf_bound"
    and "evmdb_tx_signing_hash alloc t = Inr h" and "evmdb_tx_signing_hash alloc' u = Inr h"
  shows "same_intent t u \<or> (signing_preimage t \<noteq> signing_preimage u
      \<and> evmdb_keccak256 (signing_preimage t) = h \<and> evmdb_keccak256 (signing_preimage u) = h)"
proof -
  have ty: "tx_type t \<noteq> EVMDB_TX_EIP2930" "tx_type u \<noteq> EVMDB_TX_EIP2930"
    using assms(5,6) by (auto simp: evmdb_tx_signing_hash_def)
  have "h = evmdb_keccak256 (signing_preimage t)"
    by (rule signing_hash_cases [OF assms(1) ty(1) assms(3), of alloc]) (use assms(5) in auto)
  moreover have "h = evmdb_keccak256 (signing_preimage u)"
    by (rule signing_hash_cases [OF assms(2) ty(2) assms(4), of alloc']) (use assms(6) in auto)
  moreover have "length (signing_preimage t) < 2 ^ 64" using assms(3) by (simp add: buf_bound_def)
  ultimately show ?thesis using signing_preimage_inject [OF assms(1,2) ty] by metis
qed

theorem tx_signing_hash_binds_witness:
  "same_intent zero_tx (zero_tx\<lparr>tx_v := 28\<rparr>)"
proof -
  have len: "length (signing_preimage zero_tx) \<le> buf_bound"
    by (simp add: signing_preimage_def encode_eval buf_bound_def)
  have pre: "signing_preimage (zero_tx\<lparr>tx_v := 28\<rparr>) = signing_preimage zero_tx"
    by (simp add: signing_preimage_def legacy_fields_def eip1559_fields_def rlp_recipient_def)
  have wf: "wf_tx zero_tx" "wf_tx (zero_tx\<lparr>tx_v := 28\<rparr>)" by (simp_all add: wf_tx_def zero_tx_def)
  have ty: "tx_type zero_tx \<noteq> EVMDB_TX_EIP2930" "tx_type (zero_tx\<lparr>tx_v := 28\<rparr>) \<noteq> EVMDB_TX_EIP2930"
    by (simp_all add: zero_tx_def)
  have "evmdb_tx_signing_hash (\<lambda>_. True) zero_tx = Inr (evmdb_keccak256 (signing_preimage zero_tx))"
    by (rule signing_hash_cases [OF wf(1) ty(1) len]) auto
  moreover have "evmdb_tx_signing_hash (\<lambda>_. True) (zero_tx\<lparr>tx_v := 28\<rparr>)
      = Inr (evmdb_keccak256 (signing_preimage zero_tx))"
    by (rule signing_hash_cases [OF wf(2) ty(2)]) (use len pre in auto)
  ultimately show ?thesis
    using tx_signing_hash_binds [OF wf] len pre by metis
qed

text \<open>The recovery id is the one that \<open>v\<close> was built from.\<close>

definition v_of_recid :: "evmdb_tx \<Rightarrow> nat \<Rightarrow> u64" where
  "v_of_recid tx recid =
     (if tx_type tx = EVMDB_TX_EIP1559 then word_of_nat recid
      else if tx_chain_id tx = 0 then 27 + word_of_nat recid
      else 35 + 2 * tx_chain_id tx + word_of_nat recid)"

lemma recovery_id_v:
  assumes "tx_type tx \<noteq> EVMDB_TX_EIP2930" and "unat (tx_chain_id tx) < 2 ^ 62" and "recid \<le> 1"
    and "tx_v tx = v_of_recid tx recid"
  shows "recovery_id tx = Some (int recid)"
proof -
  have r: "recid = 0 \<or> recid = 1" using assms(3) by auto
  let ?w = "2 * tx_chain_id tx + word_of_nat recid"
  have w: "unat ?w = 2 * unat (tx_chain_id tx) + recid"
    using assms(2) r by (auto simp: unat_word_ariths)
  then have v: "unat (35 + ?w) = 35 + 2 * unat (tx_chain_id tx) + recid"
    using assms(2) r by (auto simp: unat_word_ariths)
  have "uint (?w mod 2) = int (unat ?w mod 2)" by (simp add: uint_mod zmod_int)
  then have m: "uint (?w mod 2) = int recid" using w r by (auto simp: mod_simps)
  have "35 + ?w \<noteq> 27" "35 + ?w \<noteq> 28" "35 + ?w \<ge> 35"
    using v by (auto simp: word_unat_eq_iff word_le_nat_alt)
  with m assms r show ?thesis
    by (auto simp: recovery_id_def v_of_recid_def add.assoc)
qed

text \<open>
  C21: The sender of a signed transaction is recovered: if libsecp256k1 recovers the public key
  from a signature over the signing hash, then for the recovery id carried by \<open>v\<close> (0 or 1 for
  EIP-1559, 27/28 or 35 + 2 * chain id + recovery id for legacy) the sender becomes the last 20
  bytes of the Keccak hash of the 64 key bytes behind the format byte, and no other field changes.
\<close>

theorem tx_recover_sender_correct:
  assumes "wf_tx tx" and "tx_type tx \<noteq> EVMDB_TX_EIP2930" and "length (signing_preimage tx) \<le> buf_bound"
    and "\<forall>n. alloc n" and "context_create secp"
    and "tx_v tx = v_of_recid tx recid" and "recid \<le> 1" and "unat (tx_chain_id tx) < 2 ^ 62"
    and "parse_compact secp (tx_r tx @ tx_s tx) (int recid) = Some sig"
    and "ecdsa_recover secp sig (evmdb_keccak256 (signing_preimage tx)) = Some pk"
    and "pubkey_serialize secp pk = Some (fmt # key)" and "length key = 64"
  shows "evmdb_tx_recover_sender alloc secp tx
    = (Inr (), tx\<lparr>tx_from := drop 12 (evmdb_keccak256 key)\<rparr>)"
proof -
  have hash: "evmdb_tx_signing_hash alloc tx = Inr (evmdb_keccak256 (signing_preimage tx))"
    by (rule signing_hash_cases [OF assms(1-3), of alloc]) (use assms(4) in auto)
  have "recovery_id tx = Some (int recid)"
    using assms by (intro recovery_id_v)
  with hash assms show ?thesis
    by (simp add: evmdb_tx_recover_sender_def secp_pubkey_def wf_tx_def)
qed

text \<open>A stand-in for libsecp256k1 in which the signature is the public key.\<close>

definition sample_secp :: "(bytes, bytes) secp256k1" where
  "sample_secp = \<lparr>context_create = True,
     parse_compact = (\<lambda>c recid. if recid \<in> {0..3} then Some c else None),
     ecdsa_recover = (\<lambda>sig h. Some sig), pubkey_serialize = (\<lambda>pk. Some (4 # pk))\<rparr>"

theorem tx_recover_sender_correct_witness:
  "evmdb_tx_recover_sender (\<lambda>_. True) sample_secp (zero_tx\<lparr>tx_v := 28\<rparr>)
    = (Inr (), zero_tx\<lparr>tx_v := 28, tx_from := drop 12 (evmdb_keccak256 (replicate 64 0))\<rparr>)"
  using tx_recover_sender_correct [of "zero_tx\<lparr>tx_v := 28\<rparr>" "\<lambda>_. True" sample_secp 1
      "replicate 64 0" "replicate 64 0" 4 "replicate 64 0"]
  by (simp add: sample_secp_def v_of_recid_def wf_tx_def signing_preimage_def encode_eval buf_bound_def
      flip: replicate_add)

text \<open>
  EIP-2930 transactions are accepted by the decoder without reading their fields: whatever
  follows the type byte and a first RLP item, the result is a transaction with every field
  cleared, and the recovery of its sender always fails, so none of them can be executed.
\<close>

lemma tx_eip2930_rejected:
  assumes "evmdb_tx_decode alloc (0x01 # payload) = Inr tx"
  shows "tx = zero_tx\<lparr>tx_type := EVMDB_TX_EIP2930, tx_raw := 0x01 # payload,
      tx_hash := evmdb_keccak256 (0x01 # payload)\<rparr>
    \<and> evmdb_tx_recover_sender alloc' secp tx = (Inl RcError, tx)"
proof -
  have "tx = zero_tx\<lparr>tx_type := EVMDB_TX_EIP2930, tx_raw := 0x01 # payload,
      tx_hash := evmdb_keccak256 (0x01 # payload)\<rparr>"
    using assms
    by (auto simp: evmdb_tx_decode_def Let_def bindE_eq_Inr zero_tx_def split: if_splits)
  moreover from this have "evmdb_tx_signing_hash alloc' tx = Inl RcError"
    by (simp add: evmdb_tx_signing_hash_def)
  ultimately show ?thesis by (simp add: evmdb_tx_recover_sender_def)
qed

lemma tx_eip2930_rejected_witness:
  "evmdb_tx_decode (\<lambda>_. True) [0x01, 0xc2, 0x05, 0x80] = Inr (zero_tx\<lparr>tx_type := EVMDB_TX_EIP2930,
      tx_raw := [0x01, 0xc2, 0x05, 0x80], tx_hash := evmdb_keccak256 [0x01, 0xc2, 0x05, 0x80]\<rparr>)
   \<and> fst (evmdb_tx_recover_sender (\<lambda>_. True) sample_secp (zero_tx\<lparr>tx_type := EVMDB_TX_EIP2930,
      tx_raw := [0x01, 0xc2, 0x05, 0x80], tx_hash := evmdb_keccak256 [0x01, 0xc2, 0x05, 0x80]\<rparr>)) = Inl RcError"
proof -
  have run: "evmdb_tx_decode (\<lambda>_. True) [0x01, 0xc2, 0x05, 0x80] = Inr (zero_tx\<lparr>tx_type := EVMDB_TX_EIP2930,
      tx_raw := [0x01, 0xc2, 0x05, 0x80], tx_hash := evmdb_keccak256 [0x01, 0xc2, 0x05, 0x80]\<rparr>)"
    by (simp add: evmdb_tx_decode_def rlp_decode_item_def mem_read_def Let_def zero_tx_def)
  then show ?thesis using tx_eip2930_rejected [OF run, of "\<lambda>_. True" sample_secp] by simp
qed

text \<open>
  C36: The decoder reads past the end of its input: a list header's length is not checked against
  the buffer, so that for every claimed payload of 1 to 55 bytes the one-byte transaction with
  just that header makes the decoder access memory outside the transaction.
\<close>

theorem tx_decode_overread:
  assumes "0xc1 \<le> b" and "b \<le> 0xf7"
  shows "evmdb_tx_decode (\<lambda>_. True) [b] = Inl OutOfBounds"
proof -
  have u: "193 \<le> unat b" "unat b \<le> 247" using assms by (simp_all add: word_le_nat_alt)
  have "b = word_of_nat 192 + word_of_nat (unat b - 192)"
    using u by (simp add: word_unat_eq_iff unat_of_nat flip: of_nat_add)
  then have sub: "(ucast b - 0xc0 :: size_t) = word_of_nat (unat b - 192)"
    using prefix_byte(2) [of 192 "unat b - 192"] u by simp
  have "unat (word_of_nat (unat b - 192) :: size_t) = unat b - 192"
    using u by (intro unat_word_of_nat64) simp
  then have "unat (ucast b - 0xc0 :: size_t) = unat b - 192" by (simp only: sub)
  then have "(0 :: size_t) < ucast b - 0xc0" using u by (simp add: word_less_nat_alt)
  moreover have "\<not> b \<le> 0x7f" "\<not> b \<le> 0xb7" "\<not> b \<le> 0xbf" "b \<noteq> 1" "b \<noteq> 2"
    using u by (auto simp: word_le_nat_alt)
  ultimately show ?thesis
    using assms
    by (simp add: evmdb_tx_decode_def rlp_decode_item_def mem_read_def Let_def decode_legacy_def
        field_u64_def not_le [symmetric])
qed

theorem tx_decode_overread_witness: "evmdb_tx_decode (\<lambda>_. True) [0xc5] = Inl OutOfBounds"
  using tx_decode_overread [of "0xc5"] by simp

end
