(* ===== verification/Evm_Exec.thy ===== *)
theory Evm_Exec
  imports Evm_World Evm_Tx
begin

text \<open>
  The executor, \<^verbatim>\<open>src/evm/executor.c\<close>: the overlay of storage writes, the EVMC host interface,
  contract execution, transactions and read-only calls.

  evmone is the parameter \<open>env_execute\<close>: from a message and code to an interaction tree whose
  nodes are host calls and whose leaves are results. The tree is a datatype, so every run ends:
  the gas of the message bounds the number of steps. The host interface interprets the calls.

  \<open>env_alloc n\<close> says whether \<open>malloc(n)\<close> succeeds, \<open>env_junk\<close> is what an uninitialised 32-byte
  local holds. A read through a null pointer is \<open>Inl OutOfBounds\<close>; every other outcome is a value with
  the return code, the result struct and the state.
\<close>

subsection \<open>EVMC data\<close>

type_synonym int64 = "64 word"

record evmc_message =
  msg_kind :: nat
  msg_flags :: nat
  msg_depth :: int
  msg_gas :: int64
  msg_recipient :: evmdb_address
  msg_sender :: evmdb_address
  msg_input :: bytes
  msg_value :: evmdb_bytes32
  msg_code_address :: evmdb_address

record evmc_result =
  res_status :: int
  res_gas_left :: int64
  res_output :: bytes

record evmc_tx_context =
  tc_gas_price :: evmdb_bytes32
  tc_origin :: evmdb_address
  tc_coinbase :: evmdb_address
  tc_number :: int64
  tc_timestamp :: int64
  tc_gas_limit :: int64
  tc_chain_id :: evmdb_bytes32
  tc_base_fee :: evmdb_bytes32

datatype evmc_storage_status =
  EVMC_STORAGE_ASSIGNED | EVMC_STORAGE_ADDED | EVMC_STORAGE_DELETED | EVMC_STORAGE_MODIFIED

datatype evmc_access_status = EVMC_ACCESS_COLD | EVMC_ACCESS_WARM

definition EVMC_SUCCESS :: int where "EVMC_SUCCESS = 0"

definition EVMC_FAILURE :: int where "EVMC_FAILURE = 1"

definition EVMC_CALL :: nat where "EVMC_CALL = 0"

definition EVMC_STATIC :: nat where "EVMC_STATIC = 1"

datatype host_call =
    AccountExists evmdb_address
  | GetStorage evmdb_address evmdb_bytes32
  | SetStorage evmdb_address evmdb_bytes32 evmdb_bytes32
  | GetBalance evmdb_address
  | GetCodeSize evmdb_address
  | GetCodeHash evmdb_address
  | CopyCode evmdb_address size_t size_t
  | Selfdestruct evmdb_address evmdb_address
  | Call evmc_message
  | GetTxContext
  | GetBlockHash int64
  | EmitLog evmdb_address bytes "evmdb_bytes32 list"
  | AccessAccount evmdb_address
  | AccessStorage evmdb_address evmdb_bytes32
  | GetTransientStorage evmdb_address evmdb_bytes32
  | SetTransientStorage evmdb_address evmdb_bytes32 evmdb_bytes32

datatype host_reply =
    ReplyBool bool
  | ReplyWord bytes
  | ReplyStatus evmc_storage_status
  | ReplySize size_t
  | ReplyBytes bytes
  | ReplyResult evmc_result
  | ReplyTxContext evmc_tx_context
  | ReplyAccess evmc_access_status
  | ReplyUnit

datatype vm_run = Finish evmc_result | Ask host_call "host_reply \<Rightarrow> vm_run"

subsection \<open>Execution context\<close>

record storage_write =
  sw_address :: evmdb_address
  sw_key :: evmdb_bytes32
  sw_value :: evmdb_bytes32

record evm_exec_context =
  ec_block_ctx :: evmdb_block_context
  ec_tx_origin :: evmdb_address
  ec_tx_gas_price :: evmdb_bytes32
  ec_writes :: "storage_write list"
  ec_write_cap :: size_t

text \<open>What the code gets from outside: allocator, Redis, evmone, evmc and uninitialised memory.\<close>

record 'r exec_env =
  env_alloc :: "nat \<Rightarrow> bool"
  env_redis :: "'r redis"
  env_execute :: "evmc_message \<Rightarrow> bytes \<Rightarrow> vm_run"
  env_status_string :: "int \<Rightarrow> string"
  env_junk :: evmdb_bytes32

definition bytes32_from_uint64 :: "u64 \<Rightarrow> evmdb_bytes32" where
  "bytes32_from_uint64 val =
     fst (fold (\<lambda>i (out, v). (out[31 - i := ucast (v AND 0xff)], drop_bit 8 v)) [0..<8] (zero_bytes32, val))"

definition bytes32_is_zero :: "evmdb_bytes32 \<Rightarrow> bool" where
  "bytes32_is_zero val = list_all (\<lambda>b. b = 0) val"

definition exec_context_destroy :: "evm_exec_context \<Rightarrow> evm_exec_context" where
  "exec_context_destroy ctx = ctx\<lparr>ec_writes := [], ec_write_cap := 0\<rparr>"

definition same_slot :: "storage_write \<Rightarrow> evmdb_address \<Rightarrow> evmdb_bytes32 \<Rightarrow> bool" where
  "same_slot w address key \<longleftrightarrow> memcmp (sw_address w) address = 0 \<and> memcmp (sw_key w) key = 0"

fun get_write_loop :: "storage_write list \<Rightarrow> nat \<Rightarrow> evmdb_address \<Rightarrow> evmdb_bytes32 \<Rightarrow> evmdb_bytes32 option" where
  "get_write_loop ws 0 address key = None"
| "get_write_loop ws (Suc i) address key =
     (if same_slot (ws ! i) address key then Some (sw_value (ws ! i))
      else get_write_loop ws i address key)"

definition exec_context_get_write ::
  "evm_exec_context \<Rightarrow> evmdb_address \<Rightarrow> evmdb_bytes32 \<Rightarrow> evmdb_bytes32 option" where
  "exec_context_get_write ctx address key = get_write_loop (ec_writes ctx) (length (ec_writes ctx)) address key"

fun set_write_loop ::
  "storage_write list \<Rightarrow> evmdb_address \<Rightarrow> evmdb_bytes32 \<Rightarrow> evmdb_bytes32 \<Rightarrow> storage_write list option" where
  "set_write_loop [] address key val = None"
| "set_write_loop (w # ws) address key val =
     (if same_slot w address key then Some (w\<lparr>sw_value := val\<rparr> # ws)
      else map_option ((#) w) (set_write_loop ws address key val))"

text \<open>\<open>sizeof(storage_write_t)\<close> is 20 + 32 + 32 bytes.\<close>

definition exec_context_set_write ::
  "(nat \<Rightarrow> bool) \<Rightarrow> evm_exec_context \<Rightarrow> evmdb_address \<Rightarrow> evmdb_bytes32 \<Rightarrow> evmdb_bytes32
    \<Rightarrow> int \<times> evm_exec_context" where
  "exec_context_set_write alloc ctx address key val =
     (case set_write_loop (ec_writes ctx) address key val of
        Some ws \<Rightarrow> (0, ctx\<lparr>ec_writes := ws\<rparr>)
      | None \<Rightarrow>
          (let new_cap = (if ec_write_cap ctx \<noteq> 0 then ec_write_cap ctx * 2 else 8);
               w = \<lparr>sw_address = address, sw_key = key, sw_value = val\<rparr>
           in if word_of_nat (length (ec_writes ctx)) = ec_write_cap ctx then
                if alloc (unat (new_cap * 84))
                then (0, ctx\<lparr>ec_writes := ec_writes ctx @ [w], ec_write_cap := new_cap\<rparr>)
                else (-1, ctx)
              else (0, ctx\<lparr>ec_writes := ec_writes ctx @ [w]\<rparr>)))"

fun commit_loop :: "'r redis \<Rightarrow> storage_write list \<Rightarrow> 'r \<Rightarrow> int \<times> 'r" where
  "commit_loop rc [] s = (0, s)"
| "commit_loop rc (w # ws) s =
     (case evmdb_state_set_storage rc s (sw_address w) (sw_key w) (sw_value w) of
        (r, s) \<Rightarrow> if r \<noteq> 0 then (-1, s) else commit_loop rc ws s)"

definition exec_context_commit :: "'r redis \<Rightarrow> evm_exec_context \<Rightarrow> 'r \<Rightarrow> int \<times> 'r" where
  "exec_context_commit rc ctx s = commit_loop rc (ec_writes ctx) s"

definition copy_output :: "(nat \<Rightarrow> bool) \<Rightarrow> evmdb_exec_result \<Rightarrow> bytes \<Rightarrow> evmdb_exec_result" where
  "copy_output alloc result data =
     (if data = [] then result\<lparr>er_output := []\<rparr>
      else if alloc (length data) then result\<lparr>er_output := data\<rparr>
      else result\<lparr>er_output := []\<rparr>)"

subsection \<open>Host interface\<close>

text \<open>Reading the bytes of an out parameter; a null pointer with a length cannot be read.\<close>

definition deref :: "out_bytes \<Rightarrow> bytes cres" where
  "deref b = (case b of (Some d, n) \<Rightarrow> Inr d | (None, n) \<Rightarrow> if n = 0 then Inr [] else Inl OutOfBounds)"

definition host_account_exists :: "'r exec_env \<Rightarrow> 'r \<Rightarrow> evmdb_address \<Rightarrow> bool \<times> 'r" where
  "host_account_exists env s addr =
     (let (nonce, s) = evmdb_state_get_nonce (env_redis env) s addr;
          (balance, s) = evmdb_state_get_balance (env_redis env) s addr (env_junk env);
          (code, s) = evmdb_state_get_code (env_alloc env) (env_redis env) s addr
      in (nonce \<noteq> 0 \<or> \<not> bytes32_is_zero balance \<or> snd code \<noteq> 0, s))"

definition host_get_storage ::
  "'r exec_env \<Rightarrow> evm_exec_context \<Rightarrow> 'r \<Rightarrow> evmdb_address \<Rightarrow> evmdb_bytes32 \<Rightarrow> evmdb_bytes32 \<times> 'r" where
  "host_get_storage env ctx s addr key =
     (case exec_context_get_write ctx addr key of
        Some val \<Rightarrow> (val, s)
      | None \<Rightarrow> evmdb_state_get_storage (env_redis env) s addr key (env_junk env))"

definition host_set_storage ::
  "'r exec_env \<Rightarrow> evm_exec_context \<Rightarrow> 'r \<Rightarrow> evmdb_address \<Rightarrow> evmdb_bytes32 \<Rightarrow> evmdb_bytes32
    \<Rightarrow> evmc_storage_status \<times> evm_exec_context \<times> 'r" where
  "host_set_storage env ctx s addr key next_val =
     (let (current, s) = host_get_storage env ctx s addr key;
          (rc, ctx) = exec_context_set_write (env_alloc env) ctx addr key next_val
      in (if rc \<noteq> 0 then EVMC_STORAGE_ASSIGNED
          else if memcmp current next_val = 0 then EVMC_STORAGE_ASSIGNED
          else if bytes32_is_zero current \<and> \<not> bytes32_is_zero next_val then EVMC_STORAGE_ADDED
          else if \<not> bytes32_is_zero current \<and> bytes32_is_zero next_val then EVMC_STORAGE_DELETED
          else EVMC_STORAGE_MODIFIED, ctx, s))"

definition host_get_balance :: "'r exec_env \<Rightarrow> 'r \<Rightarrow> evmdb_address \<Rightarrow> evmdb_bytes32 \<times> 'r" where
  "host_get_balance env s addr = evmdb_state_get_balance (env_redis env) s addr (env_junk env)"

definition host_get_code_size :: "'r exec_env \<Rightarrow> 'r \<Rightarrow> evmdb_address \<Rightarrow> size_t \<times> 'r" where
  "host_get_code_size env s addr =
     (let (code, s) = evmdb_state_get_code (env_alloc env) (env_redis env) s addr in (snd code, s))"

definition host_get_code_hash :: "'r exec_env \<Rightarrow> 'r \<Rightarrow> evmdb_address \<Rightarrow> (evmdb_hash \<times> 'r) cres" where
  "host_get_code_hash env s addr =
     (let (code, s) = evmdb_state_get_code (env_alloc env) (env_redis env) s addr
      in bindE (deref code) (\<lambda>d. Inr (evmdb_keccak256 d, s)))"

definition host_copy_code ::
  "'r exec_env \<Rightarrow> 'r \<Rightarrow> evmdb_address \<Rightarrow> size_t \<Rightarrow> size_t \<Rightarrow> (bytes \<times> 'r) cres" where
  "host_copy_code env s addr code_offset buffer_size =
     (let (code, s) = evmdb_state_get_code (env_alloc env) (env_redis env) s addr
      in if code_offset < snd code then
           (let copied = (if snd code - code_offset > buffer_size then buffer_size
                          else snd code - code_offset)
            in bindE (deref code) (\<lambda>d. Inr (take (unat copied) (drop (unat code_offset) d), s)))
         else Inr ([], s))"

definition host_selfdestruct :: "evmdb_address \<Rightarrow> evmdb_address \<Rightarrow> bool" where
  "host_selfdestruct address beneficiary = False"

definition host_call_reply :: "evmc_message \<Rightarrow> evmc_result" where
  "host_call_reply msg = \<lparr>res_status = EVMC_FAILURE, res_gas_left = 0, res_output = []\<rparr>"

definition host_get_tx_context :: "evm_exec_context \<Rightarrow> evmc_tx_context" where
  "host_get_tx_context ctx = \<lparr>
     tc_gas_price = ec_tx_gas_price ctx,
     tc_origin = ec_tx_origin ctx,
     tc_coinbase = bc_coinbase (ec_block_ctx ctx),
     tc_number = bc_number (ec_block_ctx ctx),
     tc_timestamp = bc_timestamp (ec_block_ctx ctx),
     tc_gas_limit = bc_gas_limit (ec_block_ctx ctx),
     tc_chain_id = bytes32_from_uint64 (bc_chain_id (ec_block_ctx ctx)),
     tc_base_fee = bytes32_from_uint64 (bc_base_fee (ec_block_ctx ctx))\<rparr>"

definition host_get_block_hash :: "int64 \<Rightarrow> evmdb_bytes32" where
  "host_get_block_hash number = zero_bytes32"

definition host_get_transient_storage :: "evmdb_address \<Rightarrow> evmdb_bytes32 \<Rightarrow> evmdb_bytes32" where
  "host_get_transient_storage address key = zero_bytes32"

text \<open>\<open>HOST_INTERFACE\<close>: which function answers which call.\<close>

fun host_interface ::
  "'r exec_env \<Rightarrow> host_call \<Rightarrow> evm_exec_context \<Rightarrow> 'r \<Rightarrow> (host_reply \<times> evm_exec_context \<times> 'r) cres" where
  "host_interface env (AccountExists a) ctx s =
     (case host_account_exists env s a of (b, s) \<Rightarrow> Inr (ReplyBool b, ctx, s))"
| "host_interface env (GetStorage a k) ctx s =
     (case host_get_storage env ctx s a k of (v, s) \<Rightarrow> Inr (ReplyWord v, ctx, s))"
| "host_interface env (SetStorage a k v) ctx s =
     (case host_set_storage env ctx s a k v of (st, ctx, s) \<Rightarrow> Inr (ReplyStatus st, ctx, s))"
| "host_interface env (GetBalance a) ctx s =
     (case host_get_balance env s a of (v, s) \<Rightarrow> Inr (ReplyWord v, ctx, s))"
| "host_interface env (GetCodeSize a) ctx s =
     (case host_get_code_size env s a of (n, s) \<Rightarrow> Inr (ReplySize n, ctx, s))"
| "host_interface env (GetCodeHash a) ctx s =
     bindE (host_get_code_hash env s a) (\<lambda>(h, s). Inr (ReplyWord h, ctx, s))"
| "host_interface env (CopyCode a off sz) ctx s =
     bindE (host_copy_code env s a off sz) (\<lambda>(bs, s). Inr (ReplyBytes bs, ctx, s))"
| "host_interface env (Selfdestruct a b) ctx s = Inr (ReplyBool (host_selfdestruct a b), ctx, s)"
| "host_interface env (Call msg) ctx s = Inr (ReplyResult (host_call_reply msg), ctx, s)"
| "host_interface env GetTxContext ctx s = Inr (ReplyTxContext (host_get_tx_context ctx), ctx, s)"
| "host_interface env (GetBlockHash n) ctx s = Inr (ReplyWord (host_get_block_hash n), ctx, s)"
| "host_interface env (EmitLog a d ts) ctx s = Inr (ReplyUnit, ctx, s)"
| "host_interface env (AccessAccount a) ctx s = Inr (ReplyAccess EVMC_ACCESS_COLD, ctx, s)"
| "host_interface env (AccessStorage a k) ctx s = Inr (ReplyAccess EVMC_ACCESS_COLD, ctx, s)"
| "host_interface env (GetTransientStorage a k) ctx s =
     Inr (ReplyWord (host_get_transient_storage a k), ctx, s)"
| "host_interface env (SetTransientStorage a k v) ctx s = Inr (ReplyUnit, ctx, s)"

primrec run_vm ::
  "'r exec_env \<Rightarrow> vm_run \<Rightarrow> evm_exec_context \<Rightarrow> 'r \<Rightarrow> (evmc_result \<times> evm_exec_context \<times> 'r) cres" where
  "run_vm env (Finish r) = (\<lambda>ctx s. Inr (r, ctx, s))"
| "run_vm env (Ask q k) = (\<lambda>ctx s. bindE (host_interface env q ctx s)
     (\<lambda>(reply, ctx, s). run_vm env (k reply) ctx s))"

subsection \<open>Contract execution\<close>

definition set_error :: "string \<Rightarrow> evmdb_exec_result \<Rightarrow> evmdb_exec_result" where
  "set_error msg result = result\<lparr>er_error := snprintf 256 msg\<rparr>"

definition new_exec_context :: "evmdb_block_context option \<Rightarrow> evmdb_address \<Rightarrow> evm_exec_context" where
  "new_exec_context block_ctx origin =
     (let bc = (case block_ctx of Some bc \<Rightarrow> bc | None \<Rightarrow> zero_block_context)
      in \<lparr>ec_block_ctx = bc, ec_tx_origin = origin,
          ec_tx_gas_price = bytes32_from_uint64 (bc_base_fee bc), ec_writes = [], ec_write_cap = 0\<rparr>)"

definition call_message ::
  "evmdb_address \<Rightarrow> evmdb_address \<Rightarrow> bytes \<Rightarrow> evmdb_bytes32 \<Rightarrow> u64 \<Rightarrow> nat \<Rightarrow> evmc_message" where
  "call_message sender to data val gas flags =
     \<lparr>msg_kind = EVMC_CALL, msg_flags = flags, msg_depth = 0, msg_gas = gas, msg_recipient = to,
      msg_sender = sender, msg_input = data, msg_value = val, msg_code_address = to\<rparr>"

text \<open>What follows \<open>evmc_execute\<close>: the status, the result struct and the commit.\<close>

definition finish_contract ::
  "'r exec_env \<Rightarrow> evmc_result \<Rightarrow> evm_exec_context \<Rightarrow> u64 \<Rightarrow> bool \<Rightarrow> evmdb_exec_result \<Rightarrow> 'r
    \<Rightarrow> int \<times> evmdb_exec_result \<times> 'r" where
  "finish_contract env exec_result ctx gas commit_state result s =
     (let status = res_status exec_result
      in if status < 0 then (-1, set_error (env_status_string env status) result, s)
         else
           (let gas_left = (if 0 <s res_gas_left exec_result then res_gas_left exec_result else 0);
                result = copy_output (env_alloc env)
                  (result\<lparr>er_success := (status = EVMC_SUCCESS), er_gas_used := gas - gas_left,
                          er_logs := [], er_error := []\<rparr>) (res_output exec_result)
            in if status \<noteq> EVMC_SUCCESS then (0, set_error (env_status_string env status) result, s)
               else if commit_state then
                 (case exec_context_commit (env_redis env) ctx s of
                    (rc, s) \<Rightarrow>
                      if rc \<noteq> 0 then
                        (-1, (set_error ''failed to commit state changes'' result)\<lparr>er_output := []\<rparr>, s)
                      else (0, result, s))
               else (0, result, s)))"

definition execute_contract ::
  "'r exec_env \<Rightarrow> 'r \<Rightarrow> evmdb_block_context option \<Rightarrow> evmdb_address \<Rightarrow> evmdb_address \<Rightarrow> evmdb_address
    \<Rightarrow> bytes \<Rightarrow> evmdb_bytes32 \<Rightarrow> u64 \<Rightarrow> nat \<Rightarrow> bool \<Rightarrow> evmdb_exec_result
    \<Rightarrow> (int \<times> evmdb_exec_result \<times> 'r) cres" where
  "execute_contract env s block_ctx origin sender to data val gas flags commit_state result =
     (let (code, s) = evmdb_state_get_code (env_alloc env) (env_redis env) s to
      in if snd code = 0 then
           Inr (0, result\<lparr>er_success := True, er_gas_used := 0, er_output := [], er_logs := [],
                          er_error := []\<rparr>, s)
         else
           bindE (deref code) (\<lambda>code.
           bindE (run_vm env (env_execute env (call_message sender to data val gas flags) code)
                    (new_exec_context block_ctx origin) s) (\<lambda>(exec_result, ctx, s).
             Inr (finish_contract env exec_result ctx gas commit_state result s))))"

subsection \<open>Contract addresses\<close>

text \<open>The executor's own RLP writer, for the short payloads of contract addresses.\<close>

definition rlp_encode_bytes :: "bytes \<Rightarrow> bytes" where
  "rlp_encode_bytes data =
     (if length data = 1 \<and> data ! 0 \<le> 0x7f then [data ! 0]
      else (0x80 + word_of_nat (length data)) # data)"

definition rlp_encode_uint64 :: "u64 \<Rightarrow> bytes" where
  "rlp_encode_uint64 val = (if val = 0 then [0x80] else rlp_encode_bytes (u64_bytes_loop val []))"

definition rlp_encode_list :: "bytes \<Rightarrow> bytes" where
  "rlp_encode_list payload = (0xc0 + word_of_nat (length payload)) # payload"

definition evmdb_evm_compute_create_address :: "evmdb_address \<Rightarrow> u64 \<Rightarrow> evmdb_address" where
  "evmdb_evm_compute_create_address sender nonce =
     (let payload = rlp_encode_bytes sender @ rlp_encode_uint64 nonce;
          hash = evmdb_keccak256 (rlp_encode_list payload)
      in take 20 (drop 12 hash))"

subsection \<open>Transactions and calls\<close>

definition tx_intrinsic_gas :: "bytes \<Rightarrow> u64" where
  "tx_intrinsic_gas data = foldl (\<lambda>gas b. gas + (if b = 0 then 4 else 16)) 21000 data"

definition evmdb_evm_execute_tx ::
  "bool \<Rightarrow> 'r exec_env \<Rightarrow> 'r \<Rightarrow> evmdb_tx \<Rightarrow> evmdb_block_context option \<Rightarrow> evmdb_exec_result
    \<Rightarrow> (int \<times> evmdb_exec_result \<times> 'r) cres" where
  "evmdb_evm_execute_tx initialized env s tx block_ctx result =
     (if \<not> initialized then Inr (-1, set_error ''EVM not initialized'' result, s)
      else if (case block_ctx of None \<Rightarrow> False
               | Some bc \<Rightarrow> tx_chain_id tx \<noteq> 0 \<and> tx_chain_id tx \<noteq> bc_chain_id bc) then
        Inr (-1, set_error (''chain id mismatch: expected '' @ print_u64 (bc_chain_id (the block_ctx))
               @ '', got '' @ print_u64 (tx_chain_id tx)) result, s)
      else
        (let (current_nonce, s) = evmdb_state_get_nonce (env_redis env) s (tx_from tx);
             intrinsic_gas = tx_intrinsic_gas (tx_data tx)
         in if tx_nonce tx \<noteq> current_nonce then
              Inr (-1, set_error (''nonce mismatch: expected '' @ print_u64 current_nonce
                     @ '', got '' @ print_u64 (tx_nonce tx)) result, s)
            else if intrinsic_gas > tx_gas_limit tx then
              Inr (-1, set_error ''intrinsic gas too low'' result, s)
            else
              (let result = result\<lparr>er_output := [], er_logs := []\<rparr>
               in bindE
                 (if tx_to_is_null tx then
                    (let contract_address = evmdb_evm_compute_create_address (tx_from tx) current_nonce;
                         (_, s) = evmdb_state_set_code (env_redis env) s contract_address (tx_data tx)
                     in Inr (0, result\<lparr>er_success := True, er_gas_used := intrinsic_gas, er_error := []\<rparr>, s))
                  else
                    bindE (execute_contract env s block_ctx (tx_from tx) (tx_from tx) (tx_to tx) (tx_data tx)
                             zero_bytes32 (tx_gas_limit tx - intrinsic_gas) 0 True result)
                      (\<lambda>(rc, result, s).
                        Inr (rc, if rc \<noteq> 0 then result
                                 else result\<lparr>er_gas_used := er_gas_used result + intrinsic_gas\<rparr>, s)))
                 (\<lambda>(rc, result, s).
                    if rc \<noteq> 0 then Inr (rc, result, s)
                    else (case evmdb_state_set_nonce (env_redis env) s (tx_from tx) (current_nonce + 1) of
                            (_, s) \<Rightarrow> Inr (0, result, s))))))"

definition evmdb_evm_call ::
  "bool \<Rightarrow> 'r exec_env \<Rightarrow> 'r \<Rightarrow> evmdb_address \<Rightarrow> evmdb_address \<Rightarrow> bytes \<Rightarrow> evmdb_block_context option
    \<Rightarrow> u64 \<Rightarrow> evmdb_exec_result \<Rightarrow> (int \<times> evmdb_exec_result \<times> 'r) cres" where
  "evmdb_evm_call initialized env s from to data block_ctx gas result =
     (if \<not> initialized then Inr (-1, set_error ''EVM not initialized'' result, s)
      else execute_contract env s block_ctx from from to data zero_bytes32 gas EVMC_STATIC False result)"

subsection \<open>The handle\<close>

text \<open>
  \<open>evm_vm\<close> says whether the pointer to the virtual machine is set; the argument \<open>created\<close> of
  \<open>evmdb_evm_create\<close> says whether \<open>evmc_create_evmone\<close> returned one. The struct has 16 bytes.
\<close>

record evmdb_evm =
  evm_vm :: bool
  evm_initialized :: int

definition evmdb_evm_create :: "(nat \<Rightarrow> bool) \<Rightarrow> bool \<Rightarrow> evmdb_evm option" where
  "evmdb_evm_create alloc created =
     (if \<not> alloc 16 then None
      else if \<not> created then None
      else Some \<lparr>evm_vm = True, evm_initialized = 1\<rparr>)"

definition evmdb_evm_destroy :: "evmdb_evm option \<Rightarrow> evmdb_evm option" where
  "evmdb_evm_destroy evm = None"

definition evm_ready :: "evmdb_evm option \<Rightarrow> bool" where
  "evm_ready evm = (case evm of None \<Rightarrow> False | Some e \<Rightarrow> evm_initialized e \<noteq> 0)"

end
