(* ===== verification/Evm_Exec_Correct.thy ===== *)
theory Evm_Exec_Correct
  imports Evm_Exec
begin

text \<open>
  Correctness of the executor. The storage overlay is a finite map over the world's storage
  (locale \<open>overlay\<close>, interpreted on the execution context); a run of the VM leaves Redis alone;
  a transaction either fails without a trace or updates the world as its outcome says.
\<close>

subsection \<open>Overlays\<close>

text \<open>
  The contract of an overlay: lookups see the latest update of their key, every key has one
  entry, and so writing the entries back to a store gives what lookups with the store as a
  fallback showed.
\<close>

definition flush :: "('k \<times> 'v) list \<Rightarrow> ('k \<Rightarrow> 'v) \<Rightarrow> 'k \<Rightarrow> 'v" where
  "flush es f = fold (\<lambda>(k, v) f. f(k := v)) es f"

locale overlay =
  fixes lookup :: "'c \<Rightarrow> 'k \<Rightarrow> 'v option"
    and update :: "'c \<Rightarrow> 'k \<Rightarrow> 'v \<Rightarrow> 'c option"
    and entries :: "'c \<Rightarrow> ('k \<times> 'v) list"
    and invar :: "'c \<Rightarrow> bool"
    and key_ok :: "'k \<Rightarrow> bool"
    and val_ok :: "'v \<Rightarrow> bool"
  assumes lookup_entries: "invar c \<Longrightarrow> key_ok k \<Longrightarrow> lookup c k = map_of (entries c) k"
    and distinct_entries: "invar c \<Longrightarrow> distinct (map fst (entries c))"
    and update_entries: "invar c \<Longrightarrow> key_ok k \<Longrightarrow> val_ok v \<Longrightarrow> update c k v = Some c' \<Longrightarrow>
      invar c' \<and> map_of (entries c') = (map_of (entries c))(k \<mapsto> v)"
begin

lemma lookup_update:
  "invar c \<Longrightarrow> key_ok k \<Longrightarrow> key_ok k' \<Longrightarrow> val_ok v \<Longrightarrow> update c k v = Some c' \<Longrightarrow>
    lookup c' k' = (if k' = k then Some v else lookup c k')"
  using update_entries [of c k v c'] by (simp add: lookup_entries)

lemma flush_distinct:
  "distinct (map fst es) \<Longrightarrow> flush es f k = (case map_of es k of Some v \<Rightarrow> v | None \<Rightarrow> f k)"
proof (induction es arbitrary: f)
  case Nil
  then show ?case by (simp add: flush_def)
next
  case (Cons e es)
  obtain k' v' where e: "e = (k', v')" by (cases e)
  have "flush (e # es) f = flush es (f(k' := v'))" by (simp add: flush_def e)
  moreover have "map_of es k' = None" using Cons.prems e by (simp add: map_of_eq_None_iff)
  ultimately show ?case using Cons e by (cases "k = k'") (simp_all split: option.split)
qed

lemma flush_entries:
  "invar c \<Longrightarrow> key_ok k \<Longrightarrow> flush (entries c) f k = (case lookup c k of Some v \<Rightarrow> v | None \<Rightarrow> f k)"
  by (simp add: flush_distinct distinct_entries lookup_entries)

end

subsection \<open>The execution context is an overlay\<close>

lemma memcmp_0_iff: "length a = length b \<Longrightarrow> memcmp a b = 0 \<longleftrightarrow> a = b"
  by (induction a b rule: list_induct2) auto

definition wf_write :: "storage_write \<Rightarrow> bool" where
  "wf_write w \<longleftrightarrow> length (sw_address w) = 20 \<and> length (sw_key w) = 32 \<and> length (sw_value w) = 32"

definition slot :: "storage_write \<Rightarrow> evmdb_address \<times> evmdb_bytes32" where
  "slot w = (sw_address w, sw_key w)"

definition ctx_entries :: "evm_exec_context \<Rightarrow> ((evmdb_address \<times> evmdb_bytes32) \<times> evmdb_bytes32) list" where
  "ctx_entries ctx = map (\<lambda>w. (slot w, sw_value w)) (ec_writes ctx)"

definition ctx_ok :: "evm_exec_context \<Rightarrow> bool" where
  "ctx_ok ctx \<longleftrightarrow> list_all wf_write (ec_writes ctx) \<and> distinct (map slot (ec_writes ctx))"

definition slot_ok :: "evmdb_address \<times> evmdb_bytes32 \<Rightarrow> bool" where
  "slot_ok k \<longleftrightarrow> length (fst k) = 20 \<and> length (snd k) = 32"

definition ctx_lookup :: "evm_exec_context \<Rightarrow> evmdb_address \<times> evmdb_bytes32 \<Rightarrow> evmdb_bytes32 option" where
  "ctx_lookup ctx k = exec_context_get_write ctx (fst k) (snd k)"

definition ctx_update ::
  "(nat \<Rightarrow> bool) \<Rightarrow> evm_exec_context \<Rightarrow> evmdb_address \<times> evmdb_bytes32 \<Rightarrow> evmdb_bytes32 \<Rightarrow> evm_exec_context option" where
  "ctx_update al ctx k v =
     (case exec_context_set_write al ctx (fst k) (snd k) v of (rc, ctx) \<Rightarrow> if rc = 0 then Some ctx else None)"

lemma same_slot_iff: "wf_write w \<Longrightarrow> slot_ok (a, k) \<Longrightarrow> same_slot w a k \<longleftrightarrow> slot w = (a, k)"
  by (auto simp: same_slot_def slot_def wf_write_def slot_ok_def memcmp_0_iff)

lemma get_write_loop_map_of:
  assumes "list_all wf_write ws" and "slot_ok (a, k)" and "i \<le> length ws"
  shows "get_write_loop ws i a k = map_of (rev (map (\<lambda>w. (slot w, sw_value w)) (take i ws))) (a, k)"
  using assms(3)
proof (induction i)
  case 0
  then show ?case by simp
next
  case (Suc i)
  then have "wf_write (ws ! i)" using assms(1) by (simp add: list_all_length)
  with Suc assms(2) show ?case by (simp add: take_Suc_conv_app_nth same_slot_iff)
qed

lemma set_write_loop_None:
  assumes "list_all wf_write ws" and "slot_ok (a, k)"
  shows "set_write_loop ws a k v = None \<longleftrightarrow> (a, k) \<notin> set (map slot ws)"
  using assms by (induction ws) (auto simp: same_slot_iff)

lemma set_write_loop_Some:
  assumes "list_all wf_write ws" and "slot_ok (a, k)" and "length v = 32"
    and "set_write_loop ws a k v = Some ws'"
  shows "list_all wf_write ws' \<and> map slot ws' = map slot ws
    \<and> map_of (map (\<lambda>w. (slot w, sw_value w)) ws') = (map_of (map (\<lambda>w. (slot w, sw_value w)) ws))((a, k) \<mapsto> v)"
  using assms
proof (induction ws arbitrary: ws')
  case Nil
  then show ?case by simp
next
  case (Cons w ws)
  show ?case
  proof (cases "slot w = (a, k)")
    case True
    with Cons.prems have "ws' = w\<lparr>sw_value := v\<rparr> # ws" by (simp add: same_slot_iff)
    with True Cons.prems show ?thesis by (auto simp: wf_write_def slot_def)
  next
    case False
    with Cons.prems obtain ws1 where "ws' = w # ws1" "set_write_loop ws a k v = Some ws1"
      by (auto simp: same_slot_iff)
    with Cons.IH [of ws1] Cons.prems False show ?thesis by (auto simp: fun_eq_iff)
  qed
qed

interpretation journal: overlay ctx_lookup "ctx_update al" ctx_entries ctx_ok slot_ok "\<lambda>v. length v = 32" for al
proof unfold_locales
  fix c k
  assume c: "ctx_ok c" and k: "slot_ok k"
  have "distinct (map fst (ctx_entries c))" using c by (simp add: ctx_ok_def ctx_entries_def comp_def)
  then have "map_of (rev (ctx_entries c)) = map_of (ctx_entries c)"
    by (simp add: map_of_inject_set rev_map [symmetric])
  then show "ctx_lookup c k = map_of (ctx_entries c) k"
    using c k get_write_loop_map_of [of "ec_writes c" "fst k" "snd k" "length (ec_writes c)"]
    by (simp add: ctx_lookup_def exec_context_get_write_def ctx_ok_def ctx_entries_def)
next
  fix c
  assume "ctx_ok c"
  then show "distinct (map fst (ctx_entries c))" by (simp add: ctx_ok_def ctx_entries_def comp_def)
next
  fix c k and v :: evmdb_bytes32 and c'
  assume c: "ctx_ok c" and k: "slot_ok k" and v: "length v = 32" and run: "ctx_update al c k v = Some c'"
  obtain a key where ak: "k = (a, key)" by (cases k)
  show "ctx_ok c' \<and> map_of (ctx_entries c') = (map_of (ctx_entries c))(k \<mapsto> v)"
  proof (cases "set_write_loop (ec_writes c) a key v")
    case (Some ws)
    with run ak have "c' = c\<lparr>ec_writes := ws\<rparr>"
      by (simp add: ctx_update_def exec_context_set_write_def)
    with set_write_loop_Some [OF _ _ v Some] c k ak show ?thesis
      by (simp add: ctx_ok_def ctx_entries_def)
  next
    case None
    let ?w = "\<lparr>sw_address = a, sw_key = key, sw_value = v\<rparr>"
    from None run ak have "ec_writes c' = ec_writes c @ [?w]"
      by (auto simp: ctx_update_def exec_context_set_write_def Let_def split: if_splits)
    moreover have new: "(a, key) \<notin> set (map slot (ec_writes c))"
      using None set_write_loop_None [of "ec_writes c" a key v] c k ak by (simp add: ctx_ok_def)
    moreover from this have "map_of (ctx_entries c) (a, key) = None"
      by (auto simp: map_of_eq_None_iff ctx_entries_def)
    moreover have "slot ?w = (a, key)" "wf_write ?w" using k v ak by (simp_all add: slot_def wf_write_def slot_ok_def)
    ultimately show ?thesis
      using c ak by (auto simp: ctx_ok_def ctx_entries_def map_add_def fun_eq_iff split: option.split)
  qed
qed

subsection \<open>Admission\<close>

text \<open>The conditions under which a transaction is executed at all.\<close>

definition tx_admitted :: "world \<Rightarrow> evmdb_tx \<Rightarrow> evmdb_block_context option \<Rightarrow> bool" where
  "tx_admitted w tx bc \<longleftrightarrow> tx_nonce tx = w_nonce w (tx_from tx)
     \<and> (case bc of None \<Rightarrow> True | Some b \<Rightarrow> tx_chain_id tx = 0 \<or> tx_chain_id tx = bc_chain_id b)
     \<and> tx_intrinsic_gas (tx_data tx) \<le> tx_gas_limit tx"

primrec all_results :: "(evmc_result \<Rightarrow> bool) \<Rightarrow> vm_run \<Rightarrow> bool" where
  "all_results P (Finish r) \<longleftrightarrow> P r"
| "all_results P (Ask q k) \<longleftrightarrow> (\<forall>reply. all_results P (k reply))"

lemma run_vm_all_results:
  "all_results P t \<Longrightarrow> run_vm env t ctx s = Inr (r, ctx', s') \<Longrightarrow> P r"
proof (induction t arbitrary: ctx s)
  case (Ask q k)
  then obtain reply ctx1 s1 where "run_vm env (k reply) ctx1 s1 = Inr (r, ctx', s')"
    by (auto simp: bindE_eq_Inr)
  with Ask.IH [of "k reply"] Ask.prems show ?case by auto
qed simp

text \<open>
  evmone returns no more gas than the message carried. EVMC's gas is a signed number; nothing is assumed
  of a message with negative gas.
\<close>

definition gas_law :: "'r exec_env \<Rightarrow> bool" where
  "gas_law env \<longleftrightarrow> (\<forall>msg code. 0 \<le>s msg_gas msg \<longrightarrow>
     all_results (\<lambda>r. res_gas_left r \<le>s msg_gas msg) (env_execute env msg code))"

subsection \<open>A run of the VM leaves Redis alone\<close>

text \<open>The arguments of host calls are arrays of 20 and 32 bytes.\<close>

fun wf_call :: "host_call \<Rightarrow> bool" where
  "wf_call (AccountExists a) \<longleftrightarrow> length a = 20"
| "wf_call (GetStorage a k) \<longleftrightarrow> length a = 20 \<and> length k = 32"
| "wf_call (SetStorage a k v) \<longleftrightarrow> length a = 20 \<and> length k = 32 \<and> length v = 32"
| "wf_call (GetBalance a) \<longleftrightarrow> length a = 20"
| "wf_call (GetCodeSize a) \<longleftrightarrow> length a = 20"
| "wf_call (GetCodeHash a) \<longleftrightarrow> length a = 20"
| "wf_call (CopyCode a off sz) \<longleftrightarrow> length a = 20"
| "wf_call _ \<longleftrightarrow> True"

primrec wf_run :: "vm_run \<Rightarrow> bool" where
  "wf_run (Finish r) \<longleftrightarrow> True"
| "wf_run (Ask q k) \<longleftrightarrow> wf_call q \<and> (\<forall>reply. wf_run (k reply))"

definition storage_view :: "evm_exec_context \<Rightarrow> world \<Rightarrow> evmdb_address \<Rightarrow> evmdb_bytes32 \<Rightarrow> evmdb_bytes32" where
  "storage_view ctx w a k = (case ctx_lookup ctx (a, k) of Some v \<Rightarrow> v | None \<Rightarrow> w_storage w a k)"

definition wf_env :: "'r redis \<Rightarrow> 'r exec_env \<Rightarrow> bool" where
  "wf_env rc env \<longleftrightarrow> env_redis env = rc \<and> length (env_junk env) = 32
     \<and> (\<forall>msg code. wf_run (env_execute env msg code))"

lemma set_write_ctx_ok:
  assumes "ctx_ok ctx" and "slot_ok (a, k)" and "length v = 32"
    and "exec_context_set_write al ctx a k v = (r, ctx')"
  shows "ctx_ok ctx'" and "r = 0 \<Longrightarrow> ctx_update al ctx (a, k) v = Some ctx'" and "r \<noteq> 0 \<Longrightarrow> ctx' = ctx"
proof -
  show upd: "ctx_update al ctx (a, k) v = Some ctx'" if "r = 0"
    using that assms(4) by (simp add: ctx_update_def)
  show same: "ctx' = ctx" if "r \<noteq> 0"
    using that assms(4) by (auto simp: exec_context_set_write_def Let_def split: option.splits if_splits)
  show "ctx_ok ctx'"
    using journal.update_entries [OF assms(1-3)] upd same assms(1) by (cases "r = 0") auto
qed

context redis_server
begin

lemma readsE:
  assumes "reads res s v"
  obtains s' where "res = (v, s')" "kv s' = kv s" "ok s'"
  using assms by (auto simp: reads_def)

lemma readsI: "res = (v, s') \<Longrightarrow> kv s' = kv s \<Longrightarrow> ok s' \<Longrightarrow> reads res s v"
  by (auto simp: reads_def)

lemma host_get_storage_reads:
  assumes "wf_env redisCommand env" and "ok s" and "slot_ok (a, k)"
  shows "reads (host_get_storage env ctx s a k) s (storage_view ctx (world_of (kv s)) a k)"
  using assms get_storage_reads [of s a k "env_junk env"]
  by (auto simp: host_get_storage_def storage_view_def ctx_lookup_def wf_env_def slot_ok_def reads_def
      split: option.splits)

lemma host_account_exists_reads:
  assumes "wf_env redisCommand env" and "ok s" and "length a = 20"
  shows "\<exists>b. reads (host_account_exists env s a) s b"
proof -
  obtain s1 where 1: "evmdb_state_get_nonce redisCommand s a = (w_nonce (world_of (kv s)) a, s1)"
    "kv s1 = kv s" "ok s1"
    using get_nonce_reads [OF assms(2,3)] by (rule readsE)
  obtain s2 where 2: "evmdb_state_get_balance redisCommand s1 a (env_junk env) = (w_balance (world_of (kv s1)) a, s2)"
    "kv s2 = kv s1" "ok s2"
    using get_balance_reads [OF 1(3) assms(3), of "env_junk env"] assms(1)
    by (auto simp: wf_env_def reads_def)
  from get_code_reads [OF 2(3) assms(3), of "env_alloc env"] obtain c s3 where
    "evmdb_state_get_code (env_alloc env) redisCommand s2 a = (c, s3)" "kv s3 = kv s2" "ok s3"
    unfolding reads_def by blast
  with 1 2 assms(1) show ?thesis
    by (auto simp: host_account_exists_def wf_env_def reads_def)
qed

lemma host_interface_frame:
  assumes env: "wf_env redisCommand env" and s: "ok s" and ctx: "ctx_ok ctx" and q: "wf_call q"
    and run: "host_interface env q ctx s = Inr (reply, ctx', s')"
  shows "kv s' = kv s \<and> ok s' \<and> ctx_ok ctx'"
proof (cases q)
  case (AccountExists a)
  with run host_account_exists_reads [OF env s, of a] q ctx show ?thesis
    by (auto simp: reads_def)
next
  case (GetStorage a k)
  with run host_get_storage_reads [OF env s, of a k ctx] q ctx show ?thesis
    by (auto simp: reads_def slot_ok_def)
next
  case (SetStorage a k v)
  with q have slot: "slot_ok (a, k)" "length v = 32" by (simp_all add: slot_ok_def)
  from host_get_storage_reads [OF env s slot(1), of ctx] obtain s1 where
    "host_get_storage env ctx s a k = (storage_view ctx (world_of (kv s)) a k, s1)" "kv s1 = kv s" "ok s1"
    by (rule readsE)
  with SetStorage run set_write_ctx_ok(1) [OF ctx slot] show ?thesis
    by (auto simp: host_set_storage_def split: prod.splits)
next
  case (GetBalance a)
  with run get_balance_reads [OF s, of a "env_junk env"] q ctx env show ?thesis
    by (auto simp: reads_def host_get_balance_def wf_env_def)
next
  case (GetCodeSize a)
  with run get_code_reads [OF s, of a "env_alloc env"] q ctx env show ?thesis
    by (auto simp: reads_def host_get_code_size_def wf_env_def)
next
  case (GetCodeHash a)
  with run get_code_reads [OF s, of a "env_alloc env"] q ctx env show ?thesis
    by (auto simp: reads_def host_get_code_hash_def wf_env_def bindE_eq_Inr)
next
  case (CopyCode a off sz)
  with run get_code_reads [OF s, of a "env_alloc env"] q ctx env show ?thesis
    by (auto simp: reads_def host_copy_code_def wf_env_def bindE_eq_Inr Let_def split: if_splits)
qed (use run s ctx in auto)

lemma run_vm_frame:
  assumes env: "wf_env redisCommand env"
  shows "wf_run t \<Longrightarrow> ok s \<Longrightarrow> ctx_ok ctx \<Longrightarrow> run_vm env t ctx s = Inr (r, ctx', s') \<Longrightarrow>
    kv s' = kv s \<and> ok s' \<and> ctx_ok ctx'"
proof (induction t arbitrary: s ctx)
  case (Finish x)
  then show ?case by simp
next
  case (Ask q k)
  then obtain reply ctx1 s1 where step: "host_interface env q ctx s = Inr (reply, ctx1, s1)"
    and rest: "run_vm env (k reply) ctx1 s1 = Inr (r, ctx', s')"
    by (auto simp: bindE_eq_Inr)
  have "kv s1 = kv s \<and> ok s1 \<and> ctx_ok ctx1"
    using host_interface_frame [OF env _ _ _ step] Ask.prems by simp
  with Ask.IH [of "k reply" s1 ctx1] Ask.prems rest show ?case by auto
qed

subsection \<open>Committing\<close>

lemma commit_loop_writes:
  assumes "list_all wf_write ws" and "ok s"
  shows "writes (commit_loop redisCommand ws s)
    ((world_of (kv s))\<lparr>w_storage := (\<lambda>a k. flush (map (\<lambda>w. (slot w, sw_value w)) ws)
        (\<lambda>(a, k). w_storage (world_of (kv s)) a k) (a, k))\<rparr>)"
  using assms
proof (induction ws arbitrary: s)
  case Nil
  then show ?case by (simp add: writes_def flush_def)
next
  case (Cons w ws)
  let ?a = "sw_address w" and ?k = "sw_key w" and ?v = "sw_value w"
  have "length ?a = 20" "length ?k = 32" "length ?v = 32" using Cons.prems(1) by (simp_all add: wf_write_def)
  from set_storage_writes [OF Cons.prems(2) this] obtain s1 where
    s1: "evmdb_state_set_storage redisCommand s ?a ?k ?v = (0, s1)" "ok s1"
      "world_of (kv s1) = (world_of (kv s))\<lparr>w_storage := (w_storage (world_of (kv s)))
         (?a := (w_storage (world_of (kv s)) ?a)(?k := ?v))\<rparr>"
    by (auto simp: writes_def)
  have "(\<lambda>(a, k). w_storage (world_of (kv s1)) a k)
      = (\<lambda>(a, k). w_storage (world_of (kv s)) a k)(slot w := ?v)"
    by (auto simp: s1(3) slot_def)
  with Cons.IH [OF _ s1(2)] Cons.prems(1) s1 show ?case by (simp add: flush_def)
qed

lemma exec_context_commit_writes:
  assumes "ctx_ok ctx" and "ok s"
  obtains s' where "exec_context_commit redisCommand ctx s = (0, s')" "ok s'"
    "world_of (kv s') = (world_of (kv s))\<lparr>w_storage := w_storage (world_of (kv s'))\<rparr>"
    "\<forall>a k. slot_ok (a, k) \<longrightarrow> w_storage (world_of (kv s')) a k = storage_view ctx (world_of (kv s)) a k"
proof -
  from commit_loop_writes [of "ec_writes ctx" s] assms obtain s' where
    s': "exec_context_commit redisCommand ctx s = (0, s')" "ok s'"
      "world_of (kv s') = (world_of (kv s))\<lparr>w_storage := (\<lambda>a k. flush (ctx_entries ctx)
        (\<lambda>(a, k). w_storage (world_of (kv s)) a k) (a, k))\<rparr>"
    by (auto simp: writes_def exec_context_commit_def ctx_ok_def ctx_entries_def)
  moreover have "w_storage (world_of (kv s')) a k = storage_view ctx (world_of (kv s)) a k"
    if "slot_ok (a, k)" for a k
    using journal.flush_entries [OF assms(1) that] by (simp add: s'(3) storage_view_def split: option.split)
  ultimately show thesis using that by simp
qed

subsection \<open>Contracts\<close>

lemma new_exec_context_ok [simp]: "ctx_ok (new_exec_context bc origin)"
  by (simp add: ctx_ok_def new_exec_context_def Let_def)

text \<open>
  The outcomes of \<open>execute_contract\<close>: no code; or a finished run from which either nothing was
  written, or the overlay was committed.
\<close>

lemma execute_contract_cases:
  assumes env: "wf_env redisCommand env" and s: "ok s" and to: "length to = 20"
    and run: "execute_contract env s bc origin sender to data val gas flags commit result = Inr (rc, res, s')"
  obtains (empty) "kv s' = kv s" "ok s'" "rc = 0"
      "res = result\<lparr>er_success := True, er_gas_used := 0, er_output := [], er_logs := [], er_error := []\<rparr>"
      "case w_code (world_of (kv s)) to of None \<Rightarrow> True | Some c \<Rightarrow> word_of_nat (length c) = (0 :: size_t)"
  | (ran) code r ctx s1 s0 where "w_code (world_of (kv s)) to = Some code"
      "run_vm env (env_execute env (call_message sender to data val gas flags) code)
        (new_exec_context bc origin) s0 = Inr (r, ctx, s1)" "kv s1 = kv s" "ok s1" "ctx_ok ctx"
      "(rc, res, s') = finish_contract env r ctx gas commit result s1" "kv s0 = kv s"
proof -
  from get_code_reads [OF s to, of "env_alloc env"] obtain s0 where
    code: "evmdb_state_get_code (env_alloc env) redisCommand s to =
      (case w_code (world_of (kv s)) to of None \<Rightarrow> (None, 0)
       | Some c \<Rightarrow> (if env_alloc env (length c + 1) then Some c else None, word_of_nat (length c)), s0)"
    "kv s0 = kv s" "ok s0" by (rule readsE)
  show thesis
  proof (cases "snd (case w_code (world_of (kv s)) to of None \<Rightarrow> (None, 0)
      | Some c \<Rightarrow> (if env_alloc env (length c + 1) then Some c else None, word_of_nat (length c) :: size_t)) = 0")
    case True
    with code run env show thesis
      by (intro empty) (auto simp: execute_contract_def wf_env_def split: option.splits)
  next
    case False
    then obtain c where c: "w_code (world_of (kv s)) to = Some c" by (auto split: option.splits)
    with False code run env obtain r ctx s1 where
      vm: "run_vm env (env_execute env (call_message sender to data val gas flags) c)
        (new_exec_context bc origin) s0 = Inr (r, ctx, s1)"
      and fin: "(rc, res, s') = finish_contract env r ctx gas commit result s1"
      by (auto simp: execute_contract_def wf_env_def deref_def bindE_eq_Inr split: if_splits)
    have "kv s1 = kv s0 \<and> ok s1 \<and> ctx_ok ctx"
      using run_vm_frame [OF env _ code(3) _ vm] env by (simp add: wf_env_def)
    then have "kv s1 = kv s" "ok s1" "ctx_ok ctx" using code(2) by simp_all
    with ran [OF c vm _ _ _ fin code(2)] show thesis by blast
  qed
qed

lemma finish_contract_cases:
  assumes env: "wf_env redisCommand env" and ctx: "ctx_ok ctx" and s: "ok s"
    and fin: "finish_contract env r ctx gas commit result s = (rc, res, s')"
  obtains (committed) "rc = 0" "er_success res" "commit" "ok s'"
      "world_of (kv s') = (world_of (kv s))\<lparr>w_storage := w_storage (world_of (kv s'))\<rparr>"
      "\<forall>a k. slot_ok (a, k) \<longrightarrow> w_storage (world_of (kv s')) a k = storage_view ctx (world_of (kv s)) a k"
  | (dropped) "kv s' = kv s" "ok s'" "\<not> commit \<or> rc \<noteq> 0 \<or> \<not> er_success res"
proof (cases "res_status r = EVMC_SUCCESS \<and> commit")
  case True
  obtain s1 where
    s1: "exec_context_commit redisCommand ctx s = (0, s1)" "ok s1"
      "world_of (kv s1) = (world_of (kv s))\<lparr>w_storage := w_storage (world_of (kv s1))\<rparr>"
      "\<forall>a k. slot_ok (a, k) \<longrightarrow> w_storage (world_of (kv s1)) a k = storage_view ctx (world_of (kv s)) a k"
    by (rule exec_context_commit_writes [OF ctx s])
  with True fin env have "rc = 0" "er_success res" "s' = s1"
    by (auto simp: finish_contract_def Let_def copy_output_def EVMC_SUCCESS_def wf_env_def split: if_splits)
  with True s1 show thesis by (intro committed) simp_all
next
  case False
  then show thesis
    using fin s dropped
    by (auto simp: finish_contract_def Let_def copy_output_def set_error_def split: if_splits)
qed

lemma execute_contract_effect:
  assumes env: "wf_env redisCommand env" and s: "ok s" and to: "length to = 20"
    and run: "execute_contract env s bc origin sender to data val gas flags commit result = Inr (rc, res, s')"
  shows "ok s'" and "world_of (kv s') = (world_of (kv s))\<lparr>w_storage := w_storage (world_of (kv s'))\<rparr>"
    and "\<not> commit \<or> rc \<noteq> 0 \<or> \<not> er_success res \<Longrightarrow> kv s' = kv s"
proof -
  have "ok s' \<and> world_of (kv s') = (world_of (kv s))\<lparr>w_storage := w_storage (world_of (kv s'))\<rparr>
    \<and> (\<not> commit \<or> rc \<noteq> 0 \<or> \<not> er_success res \<longrightarrow> kv s' = kv s)"
  proof (cases rule: execute_contract_cases [OF env s to run])
    case 1
    then show ?thesis by simp
  next
    case (2 code r ctx s1 s0)
    show ?thesis
      by (cases rule: finish_contract_cases [OF env 2(5,4) 2(6) [symmetric]]) (use 2(3) in auto)
  qed
  then show "ok s'" "world_of (kv s') = (world_of (kv s))\<lparr>w_storage := w_storage (world_of (kv s'))\<rparr>"
    "\<not> commit \<or> rc \<noteq> 0 \<or> \<not> er_success res \<Longrightarrow> kv s' = kv s" by blast+
qed

subsection \<open>Transactions\<close>

text \<open>\<open>execute_tx\<close> behind its guards: the two kinds of transaction, then the nonce.\<close>

lemma execute_tx_failed:
  assumes env: "wf_env redisCommand env" and s: "ok s" and tx: "wf_tx tx"
    and run: "evmdb_evm_execute_tx ini env s tx bc result = Inr (rc, res, s')" and "rc \<noteq> 0"
  shows "kv s' = kv s \<and> ok s'"
proof -
  have len: "length (tx_from tx) = 20" "length (tx_to tx) = 20" using tx by (simp_all add: wf_tx_def)
  obtain s1 where s1: "evmdb_state_get_nonce (env_redis env) s (tx_from tx)
      = (w_nonce (world_of (kv s)) (tx_from tx), s1)" "kv s1 = kv s" "ok s1"
    using get_nonce_reads [OF s len(1)] env by (auto simp: reads_def wf_env_def)
  have "kv s' = kv s1 \<and> ok s'"
    if "execute_contract env s1 bc (tx_from tx) (tx_from tx) (tx_to tx) (tx_data tx) zero_bytes32 g 0 True r0
        = Inr (rc, res, s')" for g r0
    using execute_contract_effect [OF env s1(3) len(2) that] \<open>rc \<noteq> 0\<close> by simp
  with run s s1 \<open>rc \<noteq> 0\<close> show ?thesis
    by (auto simp: evmdb_evm_execute_tx_def Let_def bindE_eq_Inr split: if_splits option.splits prod.splits)
qed

lemma execute_tx_done:
  assumes env: "wf_env redisCommand env" and s: "ok s" and tx: "wf_tx tx" "length (tx_data tx) < 2 ^ 64"
    and run: "evmdb_evm_execute_tx ini env s tx bc result = Inr (0, res, s')"
  defines "w \<equiv> world_of (kv s)"
  defines "w' \<equiv> w\<lparr>w_nonce := (w_nonce w)(tx_from tx := tx_nonce tx + 1)\<rparr>"
  obtains (created) "tx_admitted w tx bc" "tx_to_is_null tx" "ok s'" "er_success res"
      "er_gas_used res = tx_intrinsic_gas (tx_data tx)"
      "world_of (kv s') = w'\<lparr>w_code := (w_code w)
         (evmdb_evm_compute_create_address (tx_from tx) (tx_nonce tx) := Some (tx_data tx))\<rparr>"
  | (called) s1 r2 s2 where "tx_admitted w tx bc" "\<not> tx_to_is_null tx" "ok s'" "kv s1 = kv s" "ok s1"
      "execute_contract env s1 bc (tx_from tx) (tx_from tx) (tx_to tx) (tx_data tx) zero_bytes32
         (tx_gas_limit tx - tx_intrinsic_gas (tx_data tx)) 0 True (result\<lparr>er_output := [], er_logs := []\<rparr>)
         = Inr (0, r2, s2)"
      "res = r2\<lparr>er_gas_used := er_gas_used r2 + tx_intrinsic_gas (tx_data tx)\<rparr>"
      "world_of (kv s') = (world_of (kv s2))\<lparr>w_nonce := (w_nonce (world_of (kv s2)))(tx_from tx := tx_nonce tx + 1)\<rparr>"
proof -
  have len: "length (tx_from tx) = 20" "length (tx_to tx) = 20" using tx by (simp_all add: wf_tx_def)
  have rc: "env_redis env = redisCommand" using env by (simp add: wf_env_def)
  obtain s1 where s1: "evmdb_state_get_nonce redisCommand s (tx_from tx) = (w_nonce w (tx_from tx), s1)"
    "kv s1 = kv s" "ok s1"
    using get_nonce_reads [OF s len(1)] by (auto simp: reads_def w_def)
  from run have adm: "tx_admitted w tx bc"
    by (auto simp: evmdb_evm_execute_tx_def Let_def tx_admitted_def rc s1 split: if_splits option.splits)
  have run': "bindE (if tx_to_is_null tx
        then Inr (0, result\<lparr>er_output := [], er_logs := [], er_success := True,
              er_gas_used := tx_intrinsic_gas (tx_data tx), er_error := []\<rparr>,
            snd (evmdb_state_set_code redisCommand s1
              (evmdb_evm_compute_create_address (tx_from tx) (tx_nonce tx)) (tx_data tx)))
        else bindE (execute_contract env s1 bc (tx_from tx) (tx_from tx) (tx_to tx) (tx_data tx) zero_bytes32
              (tx_gas_limit tx - tx_intrinsic_gas (tx_data tx)) 0 True (result\<lparr>er_output := [], er_logs := []\<rparr>))
            (\<lambda>(rc, r, s). Inr (rc, if rc \<noteq> 0 then r
              else r\<lparr>er_gas_used := er_gas_used r + tx_intrinsic_gas (tx_data tx)\<rparr>, s)))
      (\<lambda>(rc, r, s). if rc \<noteq> 0 then Inr (rc, r, s)
         else Inr (0, r, snd (evmdb_state_set_nonce redisCommand s (tx_from tx) (tx_nonce tx + 1))))
      = Inr (0, res, s')"
    using run adm
    by (simp add: evmdb_evm_execute_tx_def Let_def rc s1 tx_admitted_def case_prod_beta not_less [symmetric]
        cong: if_cong split: if_splits option.splits)
  show thesis
  proof (cases "tx_to_is_null tx")
    case True
    let ?a = "evmdb_evm_compute_create_address (tx_from tx) (tx_nonce tx)"
    have "length ?a = 20" by (simp add: evmdb_evm_compute_create_address_def Let_def)
    from set_code_writes [OF s1(3) this tx(2)] obtain s2 where
      s2: "evmdb_state_set_code redisCommand s1 ?a (tx_data tx) = (0, s2)" "ok s2"
        "world_of (kv s2) = w\<lparr>w_code := (w_code w)(?a := Some (tx_data tx))\<rparr>"
      by (auto simp: writes_def s1(2) w_def)
    from set_nonce_writes [OF s2(2) len(1), of "tx_nonce tx + 1"] True run' s2 adm show thesis
      by (intro created) (auto simp: writes_def w'_def)
  next
    case False
    with run' obtain r2 s2 where
      s2: "execute_contract env s1 bc (tx_from tx) (tx_from tx) (tx_to tx) (tx_data tx) zero_bytes32
         (tx_gas_limit tx - tx_intrinsic_gas (tx_data tx)) 0 True (result\<lparr>er_output := [], er_logs := []\<rparr>)
         = Inr (0, r2, s2)"
        "res = r2\<lparr>er_gas_used := er_gas_used r2 + tx_intrinsic_gas (tx_data tx)\<rparr>"
        "s' = snd (evmdb_state_set_nonce redisCommand s2 (tx_from tx) (tx_nonce tx + 1))"
      by (auto simp: bindE_eq_Inr split: if_splits)
    note s2_ok = execute_contract_effect(1) [OF env s1(3) len(2) s2(1)]
    from set_nonce_writes [OF s2_ok len(1), of "tx_nonce tx + 1"] False s2 s1 adm show thesis
      by (intro called) (auto simp: writes_def)
  qed
qed

end

end
