(* ===== verification/Evm_Exec_Props.thy ===== *)
theory Evm_Exec_Props
  imports Evm_Exec_Correct
begin

text \<open>
  The properties of the executor, over any Redis server that keeps its contract, any allocator and
  any EVM that speaks to the host through well-formed calls.
\<close>

subsection \<open>Contract addresses\<close>

lemma rlp_encode_bytes_rlp_str: "length bs \<le> 55 \<Longrightarrow> rlp_encode_bytes bs = rlp_str bs"
  by (auto simp: rlp_encode_bytes_def rlp_str_def rlp_str_pieces_def rlp_len_pieces_def)

lemma rlp_encode_uint64_rlp: "rlp_encode_uint64 v = rlp_u64 v"
  using length_be_min_word [of v]
  by (auto simp: rlp_encode_uint64_def rlp_u64_def u64_bytes_loop_be_min rlp_encode_bytes_rlp_str
      rlp_str_def rlp_str_pieces_def rlp_len_pieces_def)

lemma length_rlp_u64: "length (rlp_u64 v) \<le> 9"
  using length_be_min_word [of v] by (auto simp: rlp_u64_def rlp_str_def rlp_str_pieces_def rlp_len_pieces_def)

lemma create_address_rlp:
  assumes "length sender = 20"
  shows "evmdb_evm_compute_create_address sender nonce
    = drop 12 (evmdb_keccak256 (rlp_list (rlp_str sender @ rlp_u64 nonce)))"
proof -
  have "length (rlp_str sender) = 21"
    using assms by (simp add: rlp_str_def rlp_str_pieces_def rlp_len_pieces_def)
  with length_rlp_u64 [of nonce] assms show ?thesis
    by (simp add: evmdb_evm_compute_create_address_def Let_def rlp_encode_bytes_rlp_str
        rlp_encode_uint64_rlp rlp_encode_list_def rlp_list_def rlp_len_pieces_def)
qed

text \<open>
  C31: The address of a new contract is the one Ethereum prescribes: the last 20 bytes of the
  Keccak hash of the RLP list of sender and nonce, for every nonce. The executor's own
  short-form RLP writer agrees with the full encoding, and its payload and encoding fit the
  32-byte and 64-byte buffers on the stack.
\<close>

theorem create_address_spec:
  assumes "length sender = 20"
  shows "evmdb_evm_compute_create_address sender nonce
      = drop 12 (evmdb_keccak256 (rlp_list (rlp_str sender @ rlp_u64 nonce)))
    \<and> length (rlp_encode_bytes sender @ rlp_encode_uint64 nonce) \<le> 32
    \<and> length (rlp_encode_list (rlp_encode_bytes sender @ rlp_encode_uint64 nonce)) \<le> 64"
  using create_address_rlp [OF assms] length_rlp_u64 [of nonce] assms
  by (simp add: rlp_encode_uint64_rlp rlp_encode_list_def rlp_encode_bytes_def)

theorem create_address_spec_witness:
  "evmdb_evm_compute_create_address zero_address 1
    = drop 12 (evmdb_keccak256 ([0xd6, 0x94] @ zero_address @ [0x01]))"
  using create_address_spec [of zero_address 1]
  by (simp add: rlp_u64_def rlp_list_def rlp_str_def rlp_str_pieces_def rlp_len_pieces_def be_min_step)

subsection \<open>Storage during a run\<close>

text \<open>
  C12: The host answers storage reads with the latest write of the run, and with Redis for slots
  the run has not written: after a store that found memory for its entry, the stored slot reads
  as the new value and every other slot as before, and nothing is written to Redis.
\<close>

theorem host_storage_read_your_writes:
  assumes redis: "redis_server rc kv up" and up: "up s" and wf: "wf_db (kv s)"
    and env: "wf_env rc env" and ctx: "ctx_ok ctx"
    and lens: "length a = 20" "length k = 32" "length v = 32" "length b = 20" "length j = 32"
    and mem: "\<forall>n. env_alloc env n"
    and run: "host_set_storage env ctx s a k v = (status, ctx', s')"
  shows "fst (host_get_storage env ctx' s' b j)
      = (if (b, j) = (a, k) then v else fst (host_get_storage env ctx s b j)) \<and> kv s' = kv s"
proof -
  note ok = server_okI [OF redis up wf]
  have slots: "slot_ok (a, k)" "slot_ok (b, j)" using lens by (simp_all add: slot_ok_def)
  obtain s1 where s1: "host_get_storage env ctx s a k = (storage_view ctx (world_of (kv s)) a k, s1)"
    "kv s1 = kv s" "redis_server.ok kv up s1"
    using redis_server.host_get_storage_reads [OF redis env ok slots(1), of ctx]
    by (auto simp: redis_server.reads_def [OF redis])
  obtain r where set: "exec_context_set_write (env_alloc env) ctx a k v = (r, ctx')" and s': "s' = s1"
    using run s1 by (auto simp: host_set_storage_def split: prod.splits)
  have "r = 0" using set mem by (auto simp: exec_context_set_write_def Let_def split: option.splits if_splits)
  then have upd: "ctx_update (env_alloc env) ctx (a, k) v = Some ctx'"
    using set_write_ctx_ok(2) [OF ctx slots(1) lens(3) set] by simp
  have "storage_view ctx' (world_of (kv s)) b j
      = (if (b, j) = (a, k) then v else storage_view ctx (world_of (kv s)) b j)"
    using journal.lookup_update [OF ctx slots lens(3) upd] by (simp add: storage_view_def)
  then show ?thesis
    using redis_server.host_get_storage_reads [OF redis env ok slots(2), of ctx]
      redis_server.host_get_storage_reads [OF redis env s1(3) slots(2), of ctx'] s1(2) s'
    by (auto simp: redis_server.reads_def [OF redis])
qed

text \<open>A host environment over the in-memory server: its EVM stores 1 in slot 0 and stops.\<close>

definition one_word :: evmdb_bytes32 where
  "one_word = replicate 31 0 @ [1]"

definition store_one :: "evmc_message \<Rightarrow> vm_run" where
  "store_one msg = Ask (SetStorage zero_address zero_bytes32 one_word)
     (\<lambda>_. Finish \<lparr>res_status = 0, res_gas_left = 0, res_output = [42]\<rparr>)"

definition sample_env :: "keyspace exec_env" where
  "sample_env = \<lparr>env_alloc = (\<lambda>_. True), env_redis = redis_mem, env_execute = (\<lambda>msg code. store_one msg),
     env_status_string = (\<lambda>_. ''failure''), env_junk = zero_bytes32\<rparr>"

lemma wf_sample_env: "wf_env redis_mem sample_env"
  by (simp add: wf_env_def sample_env_def store_one_def one_word_def)

theorem host_storage_read_your_writes_witness:
  "\<exists>status ctx' s'. host_set_storage sample_env (new_exec_context None zero_address) sample_db zero_address
      zero_bytes32 one_word = (status, ctx', s')
    \<and> fst (host_get_storage sample_env ctx' s' zero_address zero_bytes32) = one_word"
proof -
  obtain status ctx' s' where run: "host_set_storage sample_env (new_exec_context None zero_address) sample_db
      zero_address zero_bytes32 one_word = (status, ctx', s')"
    by (metis prod_cases3)
  from host_storage_read_your_writes [OF redis_mem.redis_server_axioms _ wf_sample_db wf_sample_env _ _ _ _ _ _ _ run,
      of zero_address zero_bytes32]
  have "fst (host_get_storage sample_env ctx' s' zero_address zero_bytes32) = one_word"
    by (auto simp: one_word_def sample_env_def)
  with run show ?thesis by blast
qed

subsection \<open>Read-only calls\<close>

text \<open>
  C5: \<open>eth_call\<close> never changes the database, whatever the EVM does, even when it stores to
  contract storage in spite of the static flag, and whatever the outcome of the run.
\<close>

theorem evm_call_read_only:
  assumes redis: "redis_server rc kv up" and up: "up s" and wf: "wf_db (kv s)"
    and env: "wf_env rc env" and to: "length to = 20"
    and run: "evmdb_evm_call ini env s from to data bc gas result = Inr (r, res, s')"
  shows "kv s' = kv s \<and> up s'"
proof (cases ini)
  case True
  with run have "execute_contract env s bc from from to data zero_bytes32 gas EVMC_STATIC False result
      = Inr (r, res, s')" by (simp add: evmdb_evm_call_def)
  from redis_server.execute_contract_effect(1,3) [OF redis env server_okI [OF redis up wf] to this]
  show ?thesis by (simp add: redis_server.ok_def [OF redis])
next
  case False
  with run up show ?thesis by (simp add: evmdb_evm_call_def)
qed

definition code_db :: keyspace where
  "code_db = Map.empty(account_key zero_address \<mapsto> RHash [''nonce'' \<mapsto> ''7''], code_key zero_address \<mapsto> RString ''x'')"

lemma wf_code_db: "wf_db code_db"
  by (simp add: wf_db_def code_db_def hash_of_def hash_field_def string_at_def word_text_def)

lemmas exec_eval = execute_contract_def evmdb_state_get_code_def redis_mem_def code_db_def code_key_def
  get_reply_def deref_def sample_env_def store_one_def host_set_storage_def host_get_storage_def
  exec_context_get_write_def new_exec_context_def evmdb_state_get_storage_def storage_key_def
  account_key_def hash_of_def exec_context_set_write_def finish_contract_def copy_output_def

lemma sample_call_runs:
  "\<exists>res s'. evmdb_evm_call True sample_env code_db zero_address zero_address [] None 100 zero_exec_result
    = Inr (0, res, s') \<and> er_output res = [42]"
  by (simp add: evmdb_evm_call_def exec_eval Let_def EVMC_SUCCESS_def)

theorem evm_call_read_only_witness:
  "\<exists>res s'. evmdb_evm_call True sample_env code_db zero_address zero_address [] None 100 zero_exec_result
    = Inr (0, res, s') \<and> s' = code_db"
proof -
  obtain res s' where run: "evmdb_evm_call True sample_env code_db zero_address zero_address [] None 100
      zero_exec_result = Inr (0, res, s')" using sample_call_runs by blast
  from evm_call_read_only [OF redis_mem.redis_server_axioms _ wf_code_db wf_sample_env _ run] run
  show ?thesis by auto
qed

subsection \<open>Transactions\<close>

text \<open>
  C3: A transaction that \<open>evmdb_evm_execute_tx\<close> refuses or that the EVM aborts with an internal
  error (any non-zero return code) leaves no trace in the database.
\<close>

theorem tx_failure_atomic:
  assumes redis: "redis_server rc kv up" and up: "up s" and wf: "wf_db (kv s)"
    and env: "wf_env rc env" and tx: "wf_tx tx"
    and run: "evmdb_evm_execute_tx ini env s tx bc result = Inr (r, res, s')" and "r \<noteq> 0"
  shows "kv s' = kv s \<and> up s'"
  using redis_server.execute_tx_failed [OF redis env server_okI [OF redis up wf] tx run \<open>r \<noteq> 0\<close>]
  by (simp add: redis_server.ok_def [OF redis])

lemma sample_tx_refused:
  "\<exists>res s'. evmdb_evm_execute_tx True sample_env code_db zero_tx None zero_exec_result = Inr (-1, res, s')
    \<and> er_error res = ''nonce mismatch: expected 7, got 0''"
  by (simp add: evmdb_evm_execute_tx_def evmdb_state_get_nonce_def redis_mem_def sample_env_def code_db_def
      account_key_def code_key_def hash_of_def strtoull_def cstr_def NUL_def isspace_def scan_sign_def
      scan_base_def digit_val_def zero_tx_def print_u64_def print_base.simps hex_chars_def set_error_def
      snprintf_def)

theorem tx_failure_atomic_witness:
  "\<exists>res s'. evmdb_evm_execute_tx True sample_env code_db zero_tx None zero_exec_result = Inr (-1, res, s')
    \<and> s' = code_db"
proof -
  obtain res s' where run: "evmdb_evm_execute_tx True sample_env code_db zero_tx None zero_exec_result
      = Inr (-1, res, s')" using sample_tx_refused by blast
  from tx_failure_atomic [OF redis_mem.redis_server_axioms _ wf_code_db wf_sample_env wf_zero_tx run] run
  show ?thesis by auto
qed

lemma tx_world_effect:
  assumes redis: "redis_server rc kv up" and up: "up s" and wf: "wf_db (kv s)"
    and env: "wf_env rc env" and tx: "wf_tx tx" "length (tx_data tx) < 2 ^ 64"
    and run: "evmdb_evm_execute_tx ini env s tx bc result = Inr (0, res, s')"
  defines "w \<equiv> world_of (kv s)"
  shows "tx_admitted w tx bc \<and> up s' \<and> wf_db (kv s')
    \<and> (\<exists>st. world_of (kv s') = w\<lparr>w_nonce := (w_nonce w)(tx_from tx := tx_nonce tx + 1),
          w_code := (if tx_to_is_null tx then (w_code w)(evmdb_evm_compute_create_address (tx_from tx)
                      (tx_nonce tx) := Some (tx_data tx)) else w_code w),
          w_storage := st\<rparr>
        \<and> (tx_to_is_null tx \<or> \<not> er_success res \<longrightarrow> st = w_storage w))"
proof -
  note ok = server_okI [OF redis up wf]
  note okD = redis_server.ok_def [OF redis]
  show ?thesis
  proof (cases rule: redis_server.execute_tx_done [OF redis env ok tx run])
    case 1
    then show ?thesis by (auto simp: w_def okD intro!: exI [of _ "w_storage w"])
  next
    case (2 s1 r2 s2)
    have to: "length (tx_to tx) = 20" using tx(1) by (simp add: wf_tx_def)
    note eff = redis_server.execute_contract_effect [OF redis env 2(5) to 2(6)]
    have "world_of (kv s') = w\<lparr>w_nonce := (w_nonce w)(tx_from tx := tx_nonce tx + 1),
        w_storage := w_storage (world_of (kv s2))\<rparr>"
      using 2(8) arg_cong [OF eff(2), of w_nonce] by (subst 2(8), subst eff(2)) (simp add: 2(4) w_def)
    moreover have "\<not> er_success res \<Longrightarrow> w_storage (world_of (kv s2)) = w_storage w"
      using eff(3) 2(4,7) by (simp add: w_def)
    ultimately show ?thesis using 2(1,2,3) by (auto simp: w_def okD)
  qed
qed

text \<open>
  C2: An accepted transaction (return code 0) passed the nonce, chain id and intrinsic gas checks,
  and its effect on the world is exactly this: the sender's nonce goes up by one; a creation
  stores its data as the code of the new contract's address; a call may change contract storage
  if it succeeded, and changes none if it reverted. Balances, code hashes, receipts and the block
  number stay as they are: the transferred value is ignored.
\<close>

theorem tx_accepted_effect:
  assumes redis: "redis_server rc kv up" and up: "up s" and wf: "wf_db (kv s)"
    and env: "wf_env rc env" and tx: "wf_tx tx" "length (tx_data tx) < 2 ^ 64"
    and run: "evmdb_evm_execute_tx ini env s tx bc result = Inr (0, res, s')"
  defines "w \<equiv> world_of (kv s)"
  shows "tx_admitted w tx bc \<and> up s' \<and> wf_db (kv s')
    \<and> (\<exists>st. world_of (kv s') = w\<lparr>w_nonce := (w_nonce w)(tx_from tx := tx_nonce tx + 1),
          w_code := (if tx_to_is_null tx then (w_code w)(evmdb_evm_compute_create_address (tx_from tx)
                      (tx_nonce tx) := Some (tx_data tx)) else w_code w),
          w_storage := st\<rparr>
        \<and> (tx_to_is_null tx \<or> \<not> er_success res \<longrightarrow> st = w_storage w))"
  unfolding w_def by (rule tx_world_effect [OF redis up wf env tx run])

definition sample_creation :: evmdb_tx where
  "sample_creation = zero_tx\<lparr>tx_nonce := 7, tx_gas_limit := 30000, tx_to_is_null := True, tx_data := [0x60, 0]\<rparr>"

lemma wf_sample_creation: "wf_tx sample_creation"
  by (simp add: sample_creation_def wf_tx_def zero_tx_def)

lemma creation_runs:
  "env_redis env = redis_mem \<Longrightarrow>
    \<exists>res s'. evmdb_evm_execute_tx True env code_db sample_creation None zero_exec_result = Inr (0, res, s')"
  by (simp add: evmdb_evm_execute_tx_def evmdb_state_get_nonce_def redis_mem_def code_db_def
      account_key_def code_key_def hash_of_def strtoull_def cstr_def NUL_def isspace_def scan_sign_def
      scan_base_def digit_val_def sample_creation_def zero_tx_def tx_intrinsic_gas_def
      evmdb_state_set_code_def evmdb_state_set_nonce_def)

lemma sample_creation_runs:
  "\<exists>res s'. evmdb_evm_execute_tx True sample_env code_db sample_creation None zero_exec_result = Inr (0, res, s')"
  by (rule creation_runs) (simp add: sample_env_def)

theorem tx_accepted_effect_witness:
  "\<exists>res s'. evmdb_evm_execute_tx True sample_env code_db sample_creation None zero_exec_result = Inr (0, res, s')
    \<and> w_nonce (world_of s') zero_address = 8
    \<and> w_code (world_of s') (evmdb_evm_compute_create_address zero_address 7) = Some [0x60, 0]"
proof -
  obtain res s' where run: "evmdb_evm_execute_tx True sample_env code_db sample_creation None zero_exec_result
      = Inr (0, res, s')" using sample_creation_runs by blast
  have len: "length (tx_data sample_creation) < 2 ^ 64" by (simp add: sample_creation_def)
  from tx_accepted_effect [OF redis_mem.redis_server_axioms _ wf_code_db wf_sample_env wf_sample_creation len run] run
  show ?thesis by (auto simp: sample_creation_def zero_tx_def)
qed

text \<open>
  Every transaction that is not admissible (wrong nonce, wrong chain id, too little gas for
  its data) is refused with return code -1 and an error message.
\<close>

lemma not_admitted_refused:
  assumes redis: "redis_server rc kv up" and ok: "redis_server.ok kv up s" and env: "wf_env rc env"
    and tx: "wf_tx tx" and bad: "\<not> tx_admitted (world_of (kv s)) tx bc"
  shows "\<exists>msg s'. evmdb_evm_execute_tx ini env s tx bc result = Inr (-1, set_error msg result, s')"
proof -
  have len: "length (tx_from tx) = 20" using tx by (simp add: wf_tx_def)
  obtain s1 where "evmdb_state_get_nonce (env_redis env) s (tx_from tx)
      = (w_nonce (world_of (kv s)) (tx_from tx), s1)"
    using redis_server.get_nonce_reads [OF redis ok len] env
    by (auto simp: redis_server.reads_def [OF redis] wf_env_def)
  with bad show ?thesis
    by (auto simp: evmdb_evm_execute_tx_def Let_def tx_admitted_def not_le split: option.splits)
qed

lemma tx_inadmissible_refused:
  assumes redis: "redis_server rc kv up" and up: "up s" and wf: "wf_db (kv s)"
    and env: "wf_env rc env" and tx: "wf_tx tx" and bad: "\<not> tx_admitted (world_of (kv s)) tx bc"
  shows "\<exists>msg s'. evmdb_evm_execute_tx ini env s tx bc result = Inr (-1, set_error msg result, s')"
  by (rule not_admitted_refused [OF redis server_okI [OF redis up wf] env tx bad])

lemma tx_inadmissible_refused_witness:
  "\<exists>msg s'. evmdb_evm_execute_tx True sample_env sample_db zero_tx None zero_exec_result
    = Inr (-1, set_error msg zero_exec_result, s')"
proof -
  have "\<not> tx_admitted (world_of sample_db) zero_tx None"
    by (simp add: tx_admitted_def tx_intrinsic_gas_def zero_tx_def)
  from tx_inadmissible_refused [OF redis_mem.redis_server_axioms, OF _ wf_sample_db wf_sample_env wf_zero_tx this]
  show ?thesis by blast
qed

text \<open>
  C4: No replay: after a transaction was accepted, the same transaction is refused and changes
  nothing, for as long as the sender's nonce has not come back to its value (here: at once).
\<close>

theorem tx_no_replay:
  assumes redis: "redis_server rc kv up" and up: "up s" and wf: "wf_db (kv s)"
    and env: "wf_env rc env" and tx: "wf_tx tx" "length (tx_data tx) < 2 ^ 64"
    and run: "evmdb_evm_execute_tx ini env s tx bc result = Inr (0, res, s1)"
  shows "\<exists>msg s2. evmdb_evm_execute_tx ini env s1 tx bc' result' = Inr (-1, set_error msg result', s2)
    \<and> kv s2 = kv s1"
proof -
  note ok = server_okI [OF redis up wf]
  have "redis_server.ok kv up s1 \<and> w_nonce (world_of (kv s1)) (tx_from tx) = tx_nonce tx + 1"
  proof (cases rule: redis_server.execute_tx_done [OF redis env ok tx run])
    case 1
    then show ?thesis by simp
  next
    case (2 s' r2 s2)
    then show ?thesis by simp
  qed
  then have ok1: "redis_server.ok kv up s1" and "\<not> tx_admitted (world_of (kv s1)) tx bc'"
    by (auto simp: tx_admitted_def)
  then obtain msg s2 where again: "evmdb_evm_execute_tx ini env s1 tx bc' result'
      = Inr (-1, set_error msg result', s2)"
    using not_admitted_refused [OF redis ok1 env tx(1)] by blast
  with redis_server.execute_tx_failed [OF redis env ok1 tx(1) again] show ?thesis by auto
qed

theorem tx_no_replay_witness:
  "\<exists>res s1 msg s2. evmdb_evm_execute_tx True sample_env code_db sample_creation None zero_exec_result = Inr (0, res, s1)
    \<and> evmdb_evm_execute_tx True sample_env s1 sample_creation None res = Inr (-1, set_error msg res, s2)"
proof -
  obtain res s1 where run: "evmdb_evm_execute_tx True sample_env code_db sample_creation None zero_exec_result
      = Inr (0, res, s1)" using sample_creation_runs by blast
  have len: "length (tx_data sample_creation) < 2 ^ 64" by (simp add: sample_creation_def)
  from tx_no_replay [OF redis_mem.redis_server_axioms _ wf_code_db wf_sample_env wf_sample_creation len run] run
  show ?thesis by blast
qed

lemma uint_of_nonneg: "0 \<le> sint w \<Longrightarrow> uint (w :: u64) = sint w"
proof -
  assume "0 \<le> sint w"
  moreover have "sint w < 2 ^ 63" using sint_lt [of w] by simp
  ultimately have "take_bit 64 (sint w) = sint w" by (intro take_bit_int_eq_self) simp_all
  then show ?thesis by (simp add: uint_sint)
qed

lemma uint_of_neg: "sint w < 0 \<Longrightarrow> 2 ^ 63 \<le> uint (w :: u64)"
proof (rule ccontr)
  assume "sint w < 0" and "\<not> 2 ^ 63 \<le> uint w"
  then have "signed_take_bit 63 (uint w) = uint w"
    using order_trans [OF _ uint_nonnegative [of w], of "- (2 ^ 63)"] by (intro signed_take_bit_int_eq_self) simp_all
  with \<open>sint w < 0\<close> show False using uint_nonnegative [of w] by (simp add: sint_uint)
qed

lemma finish_contract_gas:
  assumes "finish_contract env r ctx gas commit result s = (0, res, s')" and "0 \<le>s gas \<longrightarrow> res_gas_left r \<le>s gas"
  shows "er_gas_used res \<le> gas"
proof -
  let ?left = "if 0 <s res_gas_left r then res_gas_left r else 0"
  have "er_gas_used res = gas - ?left"
    using assms(1)
    by (auto simp: finish_contract_def Let_def copy_output_def set_error_def split: if_splits prod.splits)
  moreover have "?left \<le> gas"
  proof (cases "0 <s res_gas_left r")
    case True
    then have left: "0 < sint (res_gas_left r)" "uint (res_gas_left r) = sint (res_gas_left r)"
      by (simp_all add: word_sless_alt uint_of_nonneg)
    have "uint (res_gas_left r) \<le> uint gas"
    proof (cases "0 \<le>s gas")
      case True
      then have "sint (res_gas_left r) \<le> sint gas" "uint gas = sint gas"
        using assms(2) by (simp_all add: word_sle_eq uint_of_nonneg)
      with left show ?thesis by simp
    next
      case False
      then have "2 ^ 63 \<le> uint gas" using uint_of_neg [of gas] by (simp add: word_sle_eq)
      moreover have "sint (res_gas_left r) < 2 ^ 63" using sint_lt [of "res_gas_left r"] by simp
      ultimately show ?thesis using left by simp
    qed
    with True show ?thesis by (simp add: word_le_def)
  qed simp
  ultimately show ?thesis by (simp add: word_sub_le)
qed

text \<open>
  C13: The gas charged for an accepted transaction lies between its intrinsic gas and its gas
  limit, with no wrap-around, given that the EVM never returns more gas than it was handed. This
  holds for gas limits of 2^63 and more too, where the EVM sees a negative number and nothing is
  assumed of it. The intrinsic gas is the one the executor charges: 21000 and the calldata, for
  creations too, where \<^verbatim>\<open>src/evm/gas.c\<close> documents 53000.
\<close>

theorem tx_gas_bounds:
  assumes redis: "redis_server rc kv up" and up: "up s" and wf: "wf_db (kv s)"
    and env: "wf_env rc env" and gas: "gas_law env" and tx: "wf_tx tx" "length (tx_data tx) < 2 ^ 64"
    and run: "evmdb_evm_execute_tx ini env s tx bc result = Inr (0, res, s')"
  shows "tx_intrinsic_gas (tx_data tx) \<le> er_gas_used res \<and> er_gas_used res \<le> tx_gas_limit tx"
proof -
  let ?i = "tx_intrinsic_gas (tx_data tx)"
  note ok = server_okI [OF redis up wf]
  show ?thesis
  proof (cases rule: redis_server.execute_tx_done [OF redis env ok tx run])
    case 1
    then show ?thesis by (simp add: tx_admitted_def)
  next
    case (2 s1 r2 s2)
    have le: "?i \<le> tx_gas_limit tx" using 2(1) by (simp add: tx_admitted_def)
    have to: "length (tx_to tx) = 20" using tx(1) by (simp add: wf_tx_def)
    have "er_gas_used r2 \<le> tx_gas_limit tx - ?i"
    proof (cases rule: redis_server.execute_contract_cases [OF redis env 2(5) to 2(6)])
      case 1
      then show ?thesis by simp
    next
      case (2 code r ctx s3 s0)
      have "res_gas_left r \<le>s tx_gas_limit tx - ?i" if "0 \<le>s tx_gas_limit tx - ?i"
        using run_vm_all_results [OF _ 2(2), of "\<lambda>r. res_gas_left r \<le>s tx_gas_limit tx - ?i"]
          gas [unfolded gas_law_def, rule_format, of "call_message (tx_from tx) (tx_to tx) (tx_data tx) zero_bytes32
            (tx_gas_limit tx - ?i) 0" code] that by (simp add: call_message_def)
      with 2(6) show ?thesis by (metis finish_contract_gas)
    qed
    then have "unat (er_gas_used r2) \<le> unat (tx_gas_limit tx) - unat ?i"
      using le by (simp add: word_le_nat_alt unat_sub)
    then have sum: "unat (er_gas_used r2) + unat ?i \<le> unat (tx_gas_limit tx)"
      using le by (simp add: word_le_nat_alt)
    from le_less_trans [OF this unat_lt_2p64]
    have "unat (er_gas_used r2 + ?i) = unat (er_gas_used r2) + unat ?i"
      by (simp add: unat_plus_if')
    with sum 2(7) show ?thesis by (simp add: word_le_nat_alt)
  qed
qed

definition sample_call_tx :: evmdb_tx where
  "sample_call_tx = zero_tx\<lparr>tx_nonce := 7, tx_gas_limit := 30000\<rparr>"

text \<open>An EVM that stores 1 in slot 0 and uses 100 gas, all of the gas when it has less.\<close>

definition spend_100 :: "evmc_message \<Rightarrow> vm_run" where
  "spend_100 msg = Ask (SetStorage zero_address zero_bytes32 one_word)
     (\<lambda>_. Finish \<lparr>res_status = 0, res_gas_left = (if 100 \<le>s msg_gas msg then msg_gas msg - 100 else 0), res_output = []\<rparr>)"

definition spend_env :: "keyspace exec_env" where
  "spend_env = sample_env\<lparr>env_execute := (\<lambda>msg code. spend_100 msg)\<rparr>"

lemma wf_spend_env: "wf_env redis_mem spend_env"
  using wf_sample_env by (simp add: wf_env_def spend_env_def spend_100_def one_word_def)

lemma spend_env_gas: "gas_law spend_env"
proof -
  have "g - 100 \<le>s g" if "100 \<le>s g" for g :: u64
  proof -
    have "100 \<le> sint g" using that by (simp add: word_sle_eq)
    moreover have "sint g < 2 ^ 63" using sint_lt [of g] by simp
    ultimately have "sint (g - 100) = sint g - 100"
      by (simp add: sint_word_ariths signed_take_bit_int_eq_self)
    then show ?thesis by (simp add: word_sle_eq)
  qed
  then show ?thesis by (simp add: gas_law_def spend_env_def spend_100_def)
qed

lemma spend_runs:
  "\<exists>res s'. evmdb_evm_execute_tx True spend_env code_db sample_call_tx None zero_exec_result = Inr (0, res, s')
    \<and> er_gas_used res = 21100"
  by (simp add: evmdb_evm_execute_tx_def evmdb_state_get_nonce_def strtoull_def cstr_def NUL_def isspace_def
      scan_sign_def scan_base_def digit_val_def sample_call_tx_def zero_tx_def tx_intrinsic_gas_def
      evmdb_state_set_nonce_def exec_eval Let_def EVMC_SUCCESS_def exec_context_commit_def
      evmdb_state_set_storage_def spend_env_def spend_100_def call_message_def word_sle_eq word_sless_alt)

theorem tx_gas_bounds_witness:
  "\<exists>res s'. evmdb_evm_execute_tx True spend_env code_db sample_call_tx None zero_exec_result = Inr (0, res, s')
    \<and> er_gas_used res = 21100 \<and> 21000 \<le> er_gas_used res \<and> er_gas_used res \<le> 30000"
proof -
  obtain res s' where run: "evmdb_evm_execute_tx True spend_env code_db sample_call_tx None zero_exec_result
      = Inr (0, res, s')" "er_gas_used res = 21100" using spend_runs by blast
  have tx: "wf_tx sample_call_tx" "length (tx_data sample_call_tx) < 2 ^ 64"
    by (simp_all add: sample_call_tx_def wf_tx_def zero_tx_def)
  from tx_gas_bounds [OF redis_mem.redis_server_axioms _ wf_code_db wf_spend_env spend_env_gas tx run(1)] run
  show ?thesis by (auto simp: sample_call_tx_def zero_tx_def tx_intrinsic_gas_def)
qed

text \<open>
  C11: The storage that an accepted call leaves behind is what the contract last saw: if the EVM's
  run on the recipient's code succeeded, then it started and ended on the keyspace as it was before
  the transaction, and every slot of every account holds afterwards the value that the host would
  have answered at the end of the run: the last value stored in the run, and for an untouched slot
  the value from before the transaction.
\<close>

theorem tx_commits_final_view:
  assumes redis: "redis_server rc kv up" and up: "up s" and wf: "wf_db (kv s)"
    and env: "wf_env rc env" and tx: "wf_tx tx" "length (tx_data tx) < 2 ^ 64"
    and run: "evmdb_evm_execute_tx ini env s tx bc result = Inr (0, res, s')"
    and call: "\<not> tx_to_is_null tx" "er_success res"
    and code: "w_code (world_of (kv s)) (tx_to tx) = Some code" "0 < length code" "length code < 2 ^ 64"
  shows "\<exists>ctx r s0 s1. run_vm env (env_execute env (call_message (tx_from tx) (tx_to tx) (tx_data tx)
        zero_bytes32 (tx_gas_limit tx - tx_intrinsic_gas (tx_data tx)) 0) code)
        (new_exec_context bc (tx_from tx)) s0 = Inr (r, ctx, s1) \<and> res_status r = EVMC_SUCCESS
      \<and> kv s0 = kv s \<and> kv s1 = kv s
      \<and> (\<forall>a k. length a = 20 \<longrightarrow> length k = 32 \<longrightarrow>
           w_storage (world_of (kv s')) a k = fst (host_get_storage env ctx s1 a k)
           \<and> (exec_context_get_write ctx a k = None \<longrightarrow> w_storage (world_of (kv s')) a k = w_storage (world_of (kv s)) a k))"
proof -
  note ok = server_okI [OF redis up wf]
  show ?thesis
  proof (cases rule: redis_server.execute_tx_done [OF redis env ok tx run])
    case 1
    with call show ?thesis by simp
  next
    case (2 s1 r2 s2)
    note called = 2
    have to: "length (tx_to tx) = 20" using tx(1) by (simp add: wf_tx_def)
    have nonempty: "word_of_nat (length code) \<noteq> (0 :: size_t)"
      using unat_word_of_nat64 [OF code(3)] code(2) by (metis less_irrefl unat_0)
    show ?thesis
    proof (cases rule: redis_server.execute_contract_cases [OF redis env 2(5) to 2(6)])
      case 1
      with nonempty code(1) called(4) show ?thesis by simp
    next
      case (2 code' r ctx s3 s0)
      have "code' = code" using 2(1) code(1) called(4) by simp
      have "er_success r2" using call(2) called(7) by simp
      show ?thesis
      proof (cases rule: redis_server.finish_contract_cases [OF redis env 2(5,4) 2(6) [symmetric]])
        case 1
        have "res_status r = EVMC_SUCCESS" using 2(6) 1(1,2)
          by (auto simp: finish_contract_def Let_def copy_output_def set_error_def split: if_splits prod.splits)
        moreover have view: "w_storage (world_of (kv s')) a k = storage_view ctx (world_of (kv s)) a k"
          if "length a = 20" "length k = 32" for a k
          using that 1(6) called(4,8) 2(3) by (simp add: slot_ok_def)
        moreover have "fst (host_get_storage env ctx s3 a k) = storage_view ctx (world_of (kv s)) a k"
          if "length a = 20" "length k = 32" for a k
          using redis_server.host_get_storage_reads [OF redis env 2(4), of a k ctx] that called(4) 2(3)
          by (auto simp: redis_server.reads_def [OF redis] slot_ok_def)
        moreover have "kv s0 = kv s" "kv s3 = kv s" using 2(3,7) called(4) by simp_all
        ultimately show ?thesis using 2(2) \<open>code' = code\<close>
          by (intro exI [of _ ctx] exI [of _ r] exI [of _ s0] exI [of _ s3])
            (simp add: storage_view_def ctx_lookup_def)
      next
        case 2
        with \<open>er_success r2\<close> show ?thesis by simp
      qed
    qed
  qed
qed

lemma sample_call_tx_runs:
  "\<exists>res s'. evmdb_evm_execute_tx True sample_env code_db sample_call_tx None zero_exec_result = Inr (0, res, s')
    \<and> er_success res"
  by (simp add: evmdb_evm_execute_tx_def evmdb_state_get_nonce_def strtoull_def cstr_def NUL_def isspace_def
      scan_sign_def scan_base_def digit_val_def sample_call_tx_def zero_tx_def tx_intrinsic_gas_def
      evmdb_state_set_nonce_def exec_eval Let_def EVMC_SUCCESS_def exec_context_commit_def
      evmdb_state_set_storage_def)

lemma one_word_neq: "length one_word = 32" "zero_bytes32 \<noteq> one_word"
proof -
  show "length one_word = 32" by (simp add: one_word_def)
  have "zero_bytes32 ! 31 = 0" "one_word ! 31 = 1" by (simp_all add: zero_bytes32_def one_word_def nth_append)
  then show "zero_bytes32 \<noteq> one_word" by auto
qed

theorem tx_commits_final_view_witness:
  "\<exists>res s'. evmdb_evm_execute_tx True sample_env code_db sample_call_tx None zero_exec_result = Inr (0, res, s')
    \<and> w_storage (world_of s') zero_address zero_bytes32 = one_word
    \<and> w_storage (world_of s') zero_address one_word = zero_bytes32"
proof -
  obtain res s' where run: "evmdb_evm_execute_tx True sample_env code_db sample_call_tx None zero_exec_result
      = Inr (0, res, s')" and succ: "er_success res" using sample_call_tx_runs by blast
  have tx: "wf_tx sample_call_tx" "length (tx_data sample_call_tx) < 2 ^ 64" "\<not> tx_to_is_null sample_call_tx"
    "tx_to sample_call_tx = zero_address"
    by (simp_all add: sample_call_tx_def wf_tx_def zero_tx_def)
  have code: "w_code (world_of code_db) zero_address = Some [char_to_byte CHR ''x'']"
    by (simp add: world_of_def code_db_def string_at_def)
  from tx_commits_final_view [OF redis_mem.redis_server_axioms, OF _ wf_code_db wf_sample_env tx(1,2) run tx(3) succ,
      of "[char_to_byte CHR ''x'']"] code tx(4)
  obtain ctx r s1 where vm: "run_vm sample_env (store_one undefined) (new_exec_context None (tx_from sample_call_tx))
        code_db = Inr (r, ctx, s1)"
      and fin: "\<forall>a k. length a = 20 \<longrightarrow> length k = 32 \<longrightarrow>
        w_storage (world_of s') a k = fst (host_get_storage sample_env ctx s1 a k)
        \<and> (exec_context_get_write ctx a k = None \<longrightarrow> w_storage (world_of s') a k = w_storage (world_of code_db) a k)"
    by (auto simp: sample_env_def store_one_def)
  have "exec_context_get_write ctx zero_address zero_bytes32 = Some one_word"
    "exec_context_get_write ctx zero_address one_word = None"
    using vm one_word_neq by (auto simp: exec_eval Let_def same_slot_def memcmp_0_iff)
  then have "fst (host_get_storage sample_env ctx s1 zero_address zero_bytes32) = one_word"
    by (simp add: host_get_storage_def)
  moreover have "w_storage (world_of code_db) zero_address one_word = zero_bytes32"
    by (simp add: world_of_def code_db_def hash_field_def word_of_def)
  ultimately show ?thesis
    using fin \<open>exec_context_get_write ctx zero_address one_word = None\<close> run
      length_zero_address length_zero_bytes32 one_word_neq(1) by metis
qed

end
