(* ===== verification/Evm_Keccak_Ref.thy ===== *)
theory Evm_Keccak_Ref
  imports Evm_Keccak
begin

text \<open>
  Keccak-256 as its specification states it, and the proof that \<^verbatim>\<open>src/core/keccak.c\<close> computes it.
  The state is a function from lane coordinates; the step mappings are theta, rho, pi, chi and
  iota; the rotation offsets come from the walk \<open>(x, y) := (y, 2x + 3y)\<close> and the round constants
  from the 8-bit feedback shift register, so that the source's tables are checked, not copied.
\<close>

subsection \<open>The specification\<close>

type_synonym lanes = "nat \<Rightarrow> nat \<Rightarrow> u64"

definition theta :: "lanes \<Rightarrow> lanes" where
  "theta A =
     (let C = (\<lambda>x. A x 0 XOR A x 1 XOR A x 2 XOR A x 3 XOR A x 4)
      in (\<lambda>x y. A x y XOR (C ((x + 4) mod 5) XOR word_rotl 1 (C ((x + 1) mod 5)))))"

fun rho_walk :: "nat \<Rightarrow> nat \<times> nat" where
  "rho_walk 0 = (1, 0)"
| "rho_walk (Suc t) = (case rho_walk t of (x, y) \<Rightarrow> (y, (2 * x + 3 * y) mod 5))"

definition rho_offset :: "nat \<Rightarrow> nat \<Rightarrow> nat" where
  "rho_offset x y =
     (case map_of (map (\<lambda>t. (rho_walk t, (t + 1) * (t + 2) div 2 mod 64)) [0..<24]) (x, y) of
        None \<Rightarrow> 0
      | Some n \<Rightarrow> n)"

definition rho_step :: "lanes \<Rightarrow> lanes" where
  "rho_step A = (\<lambda>x y. word_rotl (rho_offset x y) (A x y))"

definition pi_step :: "lanes \<Rightarrow> lanes" where
  "pi_step A = (\<lambda>x y. A ((x + 3 * y) mod 5) x)"

definition chi :: "lanes \<Rightarrow> lanes" where
  "chi A = (\<lambda>x y. A x y XOR (NOT (A ((x + 1) mod 5) y) AND A ((x + 2) mod 5) y))"

text \<open>The shift register of the round constants, as the list of its eight bits.\<close>

fun lfsr_step :: "bool list \<Rightarrow> bool list" where
  "lfsr_step [r0, r1, r2, r3, r4, r5, r6, r7] =
     [r7, r0, r1, r2, r3 \<noteq> r7, r4 \<noteq> r7, r5 \<noteq> r7, r6]"
| "lfsr_step r = r"

primrec lfsr :: "nat \<Rightarrow> bool list" where
  "lfsr 0 = [True, False, False, False, False, False, False, False]"
| "lfsr (Suc t) = lfsr_step (lfsr t)"

definition RC :: "nat \<Rightarrow> u64" where
  "RC r = sum_list (map (\<lambda>j. if hd (lfsr (j + 7 * r)) then 2 ^ (2 ^ j - 1) else 0) [0..<7])"

definition iota :: "nat \<Rightarrow> lanes \<Rightarrow> lanes" where
  "iota r A = (\<lambda>x y. if x = 0 \<and> y = 0 then A x y XOR RC r else A x y)"

definition ref_round :: "nat \<Rightarrow> lanes \<Rightarrow> lanes" where
  "ref_round r A = iota r (chi (pi_step (rho_step (theta A))))"

definition ref_keccakf :: "lanes \<Rightarrow> lanes" where
  "ref_keccakf A = fold ref_round [0..<24] A"

subsection \<open>Loops that write distinct positions\<close>

lemma length_fold_update [simp]:
  "length (fold (\<lambda>p st. st[i p := f p st]) ps xs) = length xs"
  by (induction ps arbitrary: xs) auto

lemma fold_update_other:
  "j \<notin> i ` set ps \<Longrightarrow> fold (\<lambda>p st. st[i p := f p (st ! i p)]) ps xs ! j = xs ! j"
  by (induction ps arbitrary: xs) auto

lemma fold_update_nth:
  assumes "distinct (map i ps)" and "p \<in> set ps" and "\<forall>q \<in> set ps. i q < length xs"
  shows "fold (\<lambda>p st. st[i p := f p (st ! i p)]) ps xs ! i p = f p (xs ! i p)"
  using assms
proof (induction ps arbitrary: xs)
  case Nil
  then show ?case by simp
next
  case (Cons q ps)
  show ?case
  proof (cases "p = q")
    case True
    with Cons.prems show ?thesis by (simp add: fold_update_other image_iff)
  next
    case False
    with Cons.prems have p: "p \<in> set ps" by simp
    with Cons.prems have "i q \<noteq> i p" by (metis distinct.simps(2) image_eqI list.set_map list.simps(9))
    with p Cons show ?thesis by simp
  qed
qed

subsection \<open>Tables and rotations\<close>

lemma rotl64_word_rotl:
  assumes "n < 64"
  shows "rotl64 w n = word_rotl n w"
proof (rule bit_word_eqI)
  fix k assume "k < LENGTH(64)"
  then have k: "k < 64" by simp
  show "bit (rotl64 w n) k = bit (word_rotl n w) k"
  proof (cases "n \<le> k")
    case True
    have "\<not> bit w (64 - n + k)" if "n \<noteq> 0"
      using True assms by (auto dest: bit_imp_le_length)
    moreover have "(k + (64 - n)) mod 64 = k - n"
      using True k assms by (simp add: mod_if)
    ultimately show ?thesis
      using True k assms by (auto simp: rotl64_def bit_simps)
  next
    case False
    then have "(k + (64 - n)) mod 64 = 64 - n + k" using assms by simp
    with False k assms show ?thesis by (simp add: rotl64_def bit_simps)
  qed
qed

lemma round_constants_RC: "r < 24 \<Longrightarrow> round_constants ! r = RC r"
proof -
  have "\<forall>r \<in> set [0..<24]. round_constants ! r = RC r"
    by code_simp
  then show "r < 24 \<Longrightarrow> round_constants ! r = RC r" by simp
qed

lemma lt5_cases:
  assumes "n < (5::nat)"
  obtains "n = 0" | "n = 1" | "n = 2" | "n = 3" | "n = 4"
proof -
  have "n \<in> set [0..<5]" using assms by simp
  then show ?thesis using that by (auto simp: upt_conv_Cons)
qed

lemma rho_walk_table:
  "map (\<lambda>t. (rho_walk t, (t + 1) * (t + 2) div 2 mod 64)) [0..<24] =
    [((1, 0), 1), ((0, 2), 3), ((2, 1), 6), ((1, 2), 10), ((2, 3), 15), ((3, 3), 21), ((3, 0), 28),
     ((0, 1), 36), ((1, 3), 45), ((3, 1), 55), ((1, 4), 2), ((4, 4), 14), ((4, 0), 27), ((0, 3), 41),
     ((3, 4), 56), ((4, 3), 8), ((3, 2), 25), ((2, 2), 43), ((2, 0), 62), ((0, 4), 18), ((4, 2), 39),
     ((2, 4), 61), ((4, 1), 20), ((1, 1), 44)]"
  by code_simp

lemma rho_offsets:
  assumes "x < 5" and "y < 5"
  shows "rho ! x ! y = rho_offset x y" and "rho_offset x y < 64"
  using assms unfolding rho_offset_def rho_walk_table
  by (elim lt5_cases, simp_all add: rho_def)+

subsection \<open>The permutation\<close>

definition lanes_rel :: "u64 list \<Rightarrow> lanes \<Rightarrow> bool" where
  "lanes_rel st A \<longleftrightarrow> length st = 25 \<and> (\<forall>x < 5. \<forall>y < 5. st ! (x + 5 * y) = A x y)"

lemma set_loop_yx: "set loop_yx = {..<5} \<times> {..<5}"
  by (auto simp: loop_yx_def)

lemma loop_yx_index: "(y, x) \<in> set loop_yx \<Longrightarrow> x + 5 * y < 25"
  by (auto simp: set_loop_yx)

lemma distinct_row_major: "distinct (map (\<lambda>(y, x). x + 5 * y) loop_yx)"
  by code_simp

lemma distinct_rho_pi: "distinct (map (\<lambda>(y, x). y + 5 * ((2 * x + 3 * y) mod 5)) loop_yx)"
  by code_simp

lemma lanes_relD: "lanes_rel st A \<Longrightarrow> x < 5 \<Longrightarrow> y < 5 \<Longrightarrow> st ! (x + 5 * y) = A x y"
  by (simp add: lanes_rel_def)

lemma keccak_c_column:
  assumes "lanes_rel st A" and "x < 5"
  shows "keccak_c st ! x = A x 0 XOR A x 1 XOR A x 2 XOR A x 3 XOR A x 4"
  using assms lanes_relD [OF assms(1), of x 0] lanes_relD [OF assms(1), of x 1]
    lanes_relD [OF assms(1), of x 2] lanes_relD [OF assms(1), of x 3] lanes_relD [OF assms(1), of x 4]
  by (simp add: keccak_c_def)

lemma keccak_theta_ref:
  assumes "lanes_rel st A"
  shows "lanes_rel (keccak_theta st) (theta A)"
proof -
  let ?d = "keccak_d (keccak_c st)"
  let ?run = "fold (\<lambda>p s. s[(case p of (y, x) \<Rightarrow> x + 5 * y) :=
      s ! (case p of (y, x) \<Rightarrow> x + 5 * y) XOR ?d ! snd p]) loop_yx st"
  have eq: "keccak_theta st = ?run"
    by (auto simp: keccak_theta_def Let_def intro!: fold_cong)
  have len: "length st = 25" using assms by (simp add: lanes_rel_def)
  have "?run ! (x + 5 * y) = theta A x y" if "x < 5" "y < 5" for x y
  proof -
    have "?run ! (x + 5 * y) = st ! (x + 5 * y) XOR ?d ! x"
      using fold_update_nth [OF distinct_row_major, of "(y, x)" st "\<lambda>p v. v XOR ?d ! snd p"]
        that len loop_yx_index by (auto simp: set_loop_yx)
    also have "?d ! x = keccak_c st ! ((x + 4) mod 5) XOR rotl64 (keccak_c st ! ((x + 1) mod 5)) 1"
      using that by (simp add: keccak_d_def)
    finally show ?thesis
      using that assms by (simp add: theta_def keccak_c_column lanes_relD rotl64_word_rotl)
  qed
  moreover have "length ?run = 25" using len by simp
  ultimately show ?thesis by (simp add: eq lanes_rel_def)
qed

lemma keccak_rho_pi_ref:
  assumes "lanes_rel st A"
  shows "lanes_rel (keccak_rho_pi st) (pi_step (rho_step A))"
proof -
  let ?i = "\<lambda>p. case p of (y, x) \<Rightarrow> y + 5 * ((2 * x + 3 * y) mod 5)"
  let ?run = "fold (\<lambda>p b. b[?i p :=
      (\<lambda>_. rotl64 (st ! (snd p + 5 * fst p)) (rho ! snd p ! fst p)) (b ! ?i p)]) loop_yx (replicate 25 0)"
  have eq: "keccak_rho_pi st = ?run"
    by (auto simp: keccak_rho_pi_def Let_def intro!: fold_cong)
  have bound: "\<forall>q \<in> set loop_yx. ?i q < length (replicate 25 (0 :: u64))"
  proof
    fix q assume "q \<in> set loop_yx"
    then obtain y x where "q = (y, x)" "y < 5" by (auto simp: set_loop_yx)
    then show "?i q < length (replicate 25 (0 :: u64))"
      using mod_less_divisor [of 5 "2 * x + 3 * y"] by simp
  qed
  have "?run ! (x + 5 * y) = pi_step (rho_step A) x y" if "x < 5" "y < 5" for x y
  proof -
    let ?x = "(x + 3 * y) mod 5"
    have src: "?i (x, ?x) = x + 5 * y"
      using that by (elim lt5_cases) simp_all
    have "?run ! ?i (x, ?x) = rotl64 (st ! (?x + 5 * x)) (rho ! ?x ! x)"
      using fold_update_nth [OF distinct_rho_pi _ bound, of "(x, ?x)"
          "\<lambda>p _. rotl64 (st ! (snd p + 5 * fst p)) (rho ! snd p ! fst p)"] that
      by (simp add: set_loop_yx)
    then show ?thesis
      using that assms unfolding src
      by (simp add: pi_step_def rho_step_def lanes_relD rho_offsets rotl64_word_rotl)
  qed
  then show ?thesis by (simp add: eq lanes_rel_def)
qed

lemma keccak_chi_ref:
  assumes "lanes_rel b B" and "length st = 25"
  shows "lanes_rel (keccak_chi b st) (chi B)"
proof -
  let ?i = "\<lambda>p. case p of (y, x) \<Rightarrow> x + 5 * y"
  let ?f = "\<lambda>(y, x) _. b ! (x + 5 * y)
      XOR (NOT (b ! ((x + 1) mod 5 + 5 * y)) AND b ! ((x + 2) mod 5 + 5 * y))"
  let ?run = "fold (\<lambda>p s. s[?i p := ?f p (s ! ?i p)]) loop_yx st"
  have eq: "keccak_chi b st = ?run"
    by (auto simp: keccak_chi_def intro!: fold_cong)
  have "?run ! (x + 5 * y) = chi B x y" if "x < 5" "y < 5" for x y
  proof -
    have "?run ! ?i (y, x) = ?f (y, x) (st ! ?i (y, x))"
      using fold_update_nth [OF distinct_row_major, of "(y, x)" st ?f] that assms(2) loop_yx_index
      by (auto simp: set_loop_yx)
    then show ?thesis
      using that by (simp add: chi_def lanes_relD [OF assms(1)])
  qed
  then show ?thesis using assms(2) by (simp add: eq lanes_rel_def)
qed

lemma keccak_round_ref:
  assumes "lanes_rel st A" and "r < 24"
  shows "lanes_rel (keccak_round r st) (ref_round r A)"
proof -
  let ?s = "keccak_chi (keccak_rho_pi (keccak_theta st)) (keccak_theta st)"
  let ?A = "chi (pi_step (rho_step (theta A)))"
  have th: "lanes_rel (keccak_theta st) (theta A)" using assms(1) by (rule keccak_theta_ref)
  then have rel: "lanes_rel ?s ?A"
    by (intro keccak_chi_ref keccak_rho_pi_ref) (simp_all add: lanes_rel_def)
  have len: "length ?s = 25" using rel by (simp add: lanes_rel_def)
  have "?s[0 := ?s ! 0 XOR round_constants ! r] ! (x + 5 * y) = iota r ?A x y"
    if "x < 5" "y < 5" for x y
    using that lanes_relD [OF rel that] lanes_relD [OF rel, of 0 0] len assms(2)
    by (cases "x = 0 \<and> y = 0") (auto simp: iota_def round_constants_RC)
  then show ?thesis
    using len by (simp add: lanes_rel_def keccak_round_def ref_round_def Let_def)
qed

lemma keccakf_ref:
  assumes "lanes_rel st A"
  shows "lanes_rel (keccakf st) (ref_keccakf A)"
proof -
  have "lanes_rel (fold keccak_round [0..<n] st) (fold ref_round [0..<n] A)" if "n \<le> 24" for n
    using that
  proof (induction n)
    case 0
    then show ?case using assms by simp
  next
    case (Suc n)
    then show ?case by (simp add: keccak_round_ref)
  qed
  from this [of 24] show ?thesis by (simp only: keccakf_def ref_keccakf_def order_refl)
qed

subsection \<open>Little-endian lanes\<close>

lemma load64_le_loop:
  assumes "k \<le> 8" and "8 \<le> length data"
  shows "fold (\<lambda>i v. v OR push_bit (8 * i) (ucast (data ! i))) [0..<k] 0
    = (word_of_nat (be_val (rev (take k data))) :: u64)"
  using assms
proof (induction k)
  case 0
  then show ?case by simp
next
  case (Suc k)
  let ?v = "word_of_nat (be_val (rev (take k data))) :: u64"
  have lt: "be_val (rev (take k data)) < 256 ^ k"
    using be_val_less [of "rev (take k data)"] Suc.prems by simp
  moreover have "(256 :: nat) ^ k \<le> 256 ^ 8"
    using Suc.prems by (intro power_increasing) simp_all
  ultimately have "unat ?v = be_val (rev (take k data))"
    by (intro unat_word_of_nat64) simp
  then have "unat ?v < 2 ^ (8 * k)" using lt by (simp add: power_mult)
  then have "push_bit (8 * k) (ucast (data ! k)) OR ?v = ucast (data ! k) * 2 ^ (8 * k) + ?v"
    by (rule word_shift_or)
  also have "\<dots> = word_of_nat (unat (data ! k) * 256 ^ k + be_val (rev (take k data)))"
    by (simp add: power_mult)
  also have "unat (data ! k) * 256 ^ k + be_val (rev (take k data)) = be_val (rev (take (Suc k) data))"
    using Suc.prems by (simp add: take_Suc_conv_app_nth be_val_Cons)
  finally show ?case using Suc by (simp add: or.commute)
qed

lemma load64_le_val:
  "8 \<le> length data \<Longrightarrow> load64_le data = word_of_nat (be_val (rev (take 8 data)))"
  using load64_le_loop [of 8 data] by (simp add: load64_le_def)

lemma store64_le_bytes: "store64_le v = rev (be_bytes 8 (unat v))"
proof -
  have "(ucast (drop_bit (8 * i) v AND 0xff) :: byte) = word_of_nat (unat v div 256 ^ i)" for i
  proof -
    have "drop_bit (8 * i) v AND 0xff = take_bit 8 (drop_bit (8 * i) v)"
      by (simp add: take_bit_eq_mask mask_eq_exp_minus_1)
    then have "(ucast (drop_bit (8 * i) v AND 0xff) :: byte) = ucast (drop_bit (8 * i) v)"
      by (auto intro!: bit_word_eqI simp: bit_simps)
    then show ?thesis by (simp add: ucast_drop_bit_byte power_mult)
  qed
  then have "store64_le v = map (\<lambda>i. word_of_nat (unat v div 256 ^ i)) [0..<8]"
    by (simp add: store64_le_def)
  moreover have "map (\<lambda>i. word_of_nat (n div 256 ^ i)) [0..<k] = rev (be_bytes k n)" for k n
    by (induction k arbitrary: n) (simp_all add: be_bytes_Suc_left del: be_bytes.simps(2))
  ultimately show ?thesis by simp
qed

interpretation le64: codec store64_le "\<lambda>bs. if length bs = 8 then Some (load64_le bs) else None" "\<lambda>_. True"
  by unfold_locales (simp add: load64_le_val store64_le_bytes be_val_be_bytes)

subsection \<open>The sponge\<close>

text \<open>Padding with the Keccak domain byte \<open>0x01\<close>, to a multiple of the rate.\<close>

definition pad :: "bytes \<Rightarrow> bytes" where
  "pad M =
     (let q = 136 - length M mod 136
      in M @ (if q = 1 then [0x81] else 0x01 # replicate (q - 2) 0 @ [0x80]))"

function blocks :: "bytes \<Rightarrow> bytes list" where
  "blocks xs = (if xs = [] then [] else take 136 xs # blocks (drop 136 xs))"
  by pat_completeness auto
termination
  by (relation "measure length") auto

declare blocks.simps [simp del]

definition ref_absorb :: "lanes \<Rightarrow> bytes \<Rightarrow> lanes" where
  "ref_absorb A blk =
     (\<lambda>x y. if x + 5 * y < 17
            then A x y XOR word_of_nat (be_val (rev (take 8 (drop (8 * (x + 5 * y)) blk))))
            else A x y)"

definition ref_keccak256 :: "bytes \<Rightarrow> bytes" where
  "ref_keccak256 M =
     (let A = fold (\<lambda>blk A. ref_keccakf (ref_absorb A blk)) (blocks (pad M)) (\<lambda>_ _. 0)
      in concat (map (\<lambda>x. rev (be_bytes 8 (unat (A x 0)))) [0..<4]))"

lemma pad_step: "136 \<le> length M \<Longrightarrow> pad M = take 136 M @ pad (drop 136 M)"
  by (simp add: pad_def Let_def le_mod_geq)

lemma length_last_block: "length data < 136 \<Longrightarrow> length (keccak_last_block data) = 136"
  by (simp add: keccak_last_block_def Let_def keccak_rate_def)

lemma pad_last:
  assumes "length data < 136"
  shows "pad data = keccak_last_block data"
proof (cases "length data = 135")
  case True
  then show ?thesis
    by (simp add: pad_def keccak_last_block_def keccak_rate_def nth_append list_update_append)
next
  case False
  define m where "m = 134 - length data"
  have len: "136 - length data = Suc (Suc m)" "length data + Suc m = 135"
    using assms False by (simp_all add: m_def)
  have z: "replicate (Suc (Suc m)) (0 :: byte) = 0 # replicate m 0 @ [0]"
    by (simp add: replicate_append_same)
  have "keccak_last_block data = data @ 0x01 # replicate m 0 @ [0x80]"
    unfolding keccak_last_block_def keccak_rate_def Let_def len(1) z
    by (simp add: list_update_append nth_append len(2) [symmetric] del: replicate.simps)
  moreover have "pad data = data @ 0x01 # replicate m 0 @ [0x80]"
    using assms False len(1) by (simp add: pad_def Let_def)
  ultimately show ?thesis by simp
qed

lemma blocks_append: "length xs = 136 \<Longrightarrow> blocks (xs @ ys) = xs # blocks ys"
  by (subst blocks.simps) auto

lemma xor_block_ref:
  assumes "lanes_rel st A" and "136 \<le> length data"
  shows "lanes_rel (xor_block st data) (ref_absorb A (take 136 data))"
proof -
  let ?f = "\<lambda>lane v. v XOR load64_le (drop (lane * 8) data)"
  let ?run = "fold (\<lambda>p s. s[id p := ?f p (s ! id p)]) [0..<17] st"
  have len: "length st = 25" using assms by (simp add: lanes_rel_def)
  have "?run ! i = (if i < 17 then st ! i XOR load64_le (drop (i * 8) data) else st ! i)"
    if "i < 25" for i
    using fold_update_nth [of id "[0..<17]" i st ?f] fold_update_other [of i id "[0..<17]" ?f st] len
    by auto
  moreover have "load64_le (drop (i * 8) data)
      = word_of_nat (be_val (rev (take 8 (drop (8 * i) (take 136 data)))))" if "i < 17" for i
    using that assms(2)
    by (subst load64_le_val) (simp_all add: drop_take min_def mult.commute)
  ultimately have nth: "?run ! i = (if i < 17
      then st ! i XOR word_of_nat (be_val (rev (take 8 (drop (8 * i) (take 136 data))))) else st ! i)"
    if "i < 25" for i
    using that by simp
  have "?run ! (x + 5 * y) = ref_absorb A (take 136 data) x y" if "x < 5" "y < 5" for x y
  proof -
    have "x + 5 * y < 25" using that by simp
    from nth [OF this] show ?thesis
      by (simp only: ref_absorb_def lanes_relD [OF assms(1) that])
  qed
  moreover have "length ?run = 25" using len by simp
  moreover have "xor_block st data = ?run"
    by (simp add: xor_block_def keccak_rate_def)
  ultimately show ?thesis by (simp only: lanes_rel_def) blast
qed

lemma keccak_absorb_ref:
  assumes "lanes_rel st A" and "keccak_absorb st data = (st', rest)"
  shows "lanes_rel (keccakf (xor_block st' (keccak_last_block rest)))
    (fold (\<lambda>blk A. ref_keccakf (ref_absorb A blk)) (blocks (pad data)) A)"
  using assms
proof (induction st data arbitrary: A rule: keccak_absorb.induct)
  case (1 st data)
  show ?case
  proof (cases "136 \<le> length data")
    case True
    let ?st = "keccakf (xor_block st data)"
    have rel: "lanes_rel ?st (ref_keccakf (ref_absorb A (take 136 data)))"
      using "1.prems"(1) True by (intro keccakf_ref xor_block_ref)
    have run: "keccak_absorb ?st (drop 136 data) = (st', rest)"
      using "1.prems"(2) True by (subst (asm) keccak_absorb.simps) (simp add: keccak_rate_def)
    have "blocks (pad data) = take 136 data # blocks (pad (drop 136 data))"
      using True by (simp add: pad_step blocks_append)
    then show ?thesis
      using "1.IH" [of "ref_keccakf (ref_absorb A (take 136 data))"] True rel run
      by (simp add: keccak_rate_def)
  next
    case False
    then have "st' = st" "rest = data"
      using "1.prems"(2) by (subst (asm) keccak_absorb.simps, simp add: keccak_rate_def)+
    moreover have last: "length (keccak_last_block data) = 136"
      using False by (intro length_last_block) simp
    moreover have "blocks (pad data) = [keccak_last_block data]"
      using False last blocks_append [of "keccak_last_block data" "[]"]
      by (simp add: pad_last blocks.simps [of "[]"])
    ultimately show ?thesis
      using keccakf_ref [OF xor_block_ref [OF "1.prems"(1), of "keccak_last_block data"]] by simp
  qed
qed

lemma keccak256_ref: "evmdb_keccak256 M = ref_keccak256 M"
proof -
  obtain st rest where run: "keccak_absorb (replicate 25 0) M = (st, rest)" by fastforce
  let ?st = "keccakf (xor_block st (keccak_last_block rest))"
  let ?A = "fold (\<lambda>blk A. ref_keccakf (ref_absorb A blk)) (blocks (pad M)) (\<lambda>_ _. 0)"
  have "lanes_rel (replicate 25 0) (\<lambda>_ _. 0)" by (simp add: lanes_rel_def)
  then have rel: "lanes_rel ?st ?A" using run by (rule keccak_absorb_ref)
  have "?st ! x = ?A x 0" if "x < 4" for x
    using lanes_relD [OF rel, of x 0] that by simp
  then have "map (\<lambda>x. store64_le (?st ! x)) [0..<4] = map (\<lambda>x. rev (be_bytes 8 (unat (?A x 0)))) [0..<4]"
    by (simp add: store64_le_bytes)
  then show ?thesis
    by (simp only: evmdb_keccak256_def ref_keccak256_def run Let_def prod.case)
qed

subsection \<open>Properties\<close>

text \<open>
C18: one call of \<open>keccakf\<close> is the Keccak-f[1600] permutation of the specification: 24 rounds of
theta, rho, pi, chi and iota on the lanes, with rotation offsets and round constants generated
by the specification's recurrences.
\<close>

theorem keccakf_permutation:
  assumes "lanes_rel st A"
  shows "lanes_rel (keccakf st) (ref_keccakf A)"
  using assms by (rule keccakf_ref)

theorem keccakf_permutation_witness:
  "lanes_rel (keccakf (replicate 25 7)) (ref_keccakf (\<lambda>_ _. 7))"
  by (rule keccakf_permutation) (simp add: lanes_rel_def)

text \<open>
C17: \<open>evmdb_keccak256\<close> is the Keccak-256 hash of every message: the sponge over the blocks of the
message padded with \<open>0x01 .. 0x80\<close>, its digest the first 32 bytes of the state, little-endian.
\<close>

theorem keccak256_sponge:
  "evmdb_keccak256 M = ref_keccak256 M \<and> length (evmdb_keccak256 M) = 32"
  by (intro conjI keccak256_ref length_keccak256)

end
