(* ===== verification/Evm_Gas.thy ===== *)
theory Evm_Gas
  imports Evm_Prelude
begin

text \<open>
  Gas accounting, \<^verbatim>\<open>src/evm/gas.c\<close>: the EIP-1559 base fee of the next block and the intrinsic gas
  of a transaction. All arithmetic is on 64 bits and wraps; the division by the gas target traps
  when the parent's gas limit is 0 or 1.
  The lemmas compare both with reference definitions over the natural numbers.
\<close>

subsection \<open>Definitions\<close>

definition EIP1559_ELASTICITY_MULTIPLIER :: u64 where
  "EIP1559_ELASTICITY_MULTIPLIER = 2"

definition EIP1559_BASE_FEE_CHANGE_DENOMINATOR :: u64 where
  "EIP1559_BASE_FEE_CHANGE_DENOMINATOR = 8"

definition evmdb_gas_calc_base_fee :: "u64 \<Rightarrow> u64 \<Rightarrow> u64 \<Rightarrow> u64 cres" where
  "evmdb_gas_calc_base_fee parent_base_fee parent_gas_used parent_gas_limit =
     (let parent_gas_target = parent_gas_limit div EIP1559_ELASTICITY_MULTIPLIER
      in if parent_gas_used = parent_gas_target then Inr parent_base_fee
         else if parent_gas_target = 0 then Inl DivideByZero
         else if parent_gas_used > parent_gas_target then
           (let gas_used_delta = parent_gas_used - parent_gas_target;
                fee_delta = parent_base_fee * gas_used_delta div parent_gas_target
                  div EIP1559_BASE_FEE_CHANGE_DENOMINATOR;
                fee_delta = (if fee_delta < 1 then 1 else fee_delta)
            in Inr (parent_base_fee + fee_delta))
         else
           (let gas_used_delta = parent_gas_target - parent_gas_used;
                fee_delta = parent_base_fee * gas_used_delta div parent_gas_target
                  div EIP1559_BASE_FEE_CHANGE_DENOMINATOR
            in if fee_delta \<ge> parent_base_fee then Inr 1
               else Inr (parent_base_fee - fee_delta)))"

text \<open>The loop both intrinsic-gas routines share: 4 gas per zero byte, 16 per non-zero byte.\<close>

definition data_gas :: "u64 \<Rightarrow> bytes \<Rightarrow> u64" where
  "data_gas gas data = foldl (\<lambda>g b. g + (if b = 0 then 4 else 16)) gas data"

definition evmdb_gas_intrinsic :: "bytes \<Rightarrow> bool \<Rightarrow> u64" where
  "evmdb_gas_intrinsic data is_create = data_gas (if is_create then 53000 else 21000) data"

subsection \<open>Intrinsic gas\<close>

definition calldata_cost :: "bytes \<Rightarrow> nat" where
  "calldata_cost data = 4 * count_list data 0 + 16 * (length data - count_list data 0)"

lemma calldata_cost_Nil [simp]: "calldata_cost [] = 0"
  by (simp add: calldata_cost_def)

lemma calldata_cost_Cons [simp]:
  "calldata_cost (b # data) = (if b = 0 then 4 else 16) + calldata_cost data"
  using count_le_length [of data 0] by (simp add: calldata_cost_def Suc_diff_le)

lemma calldata_cost_le: "calldata_cost data \<le> 16 * length data"
  by (induction data) auto

lemma data_gas_word: "data_gas gas data = gas + word_of_nat (calldata_cost data)"
  unfolding data_gas_def by (induction data arbitrary: gas) auto

lemma unat_data_gas:
  assumes "unat gas + 16 * length data < 2 ^ 64"
  shows "unat (data_gas gas data) = unat gas + calldata_cost data"
proof -
  have "unat gas + calldata_cost data < 2 ^ 64"
    using assms calldata_cost_le [of data] by linarith
  then show ?thesis
    by (simp add: data_gas_word unat_word_ariths unat_of_nat)
qed

subsection \<open>Base fee\<close>

text \<open>The rule of EIP-1559 over the naturals, for a positive gas target.\<close>

definition eip1559_base_fee :: "nat \<Rightarrow> nat \<Rightarrow> nat \<Rightarrow> nat" where
  "eip1559_base_fee base used target =
     (if used = target then base
      else if used > target then base + max (base * (used - target) div target div 8) 1
      else base - base * (target - used) div target div 8)"

lemma div_target_le: "d \<le> t \<Longrightarrow> base * d div t \<le> (base :: nat)"
proof (cases "t = 0")
  case False
  assume "d \<le> t"
  then have "base * d div t \<le> base * t div t"
    by (intro div_le_mono mult_le_mono) simp_all
  with False show ?thesis by simp
qed simp

lemma unat_fee_delta:
  assumes "unat base * unat delta < 2 ^ 64"
  shows "unat (base * delta div target div (8 :: u64)) = unat base * unat delta div unat target div 8"
proof -
  have "unat (base * delta) = unat base * unat delta"
    using assms by (simp add: unat_mult_lem [THEN iffD1])
  then show ?thesis by (simp add: unat_div)
qed

lemma calc_base_fee_increase:
  assumes target: "target = limit div 2" and "target \<noteq> 0" and "used > target"
    and no_ovf: "unat base * (unat used - unat target) < 2 ^ 64"
    and sum: "eip1559_base_fee (unat base) (unat used) (unat target) < 2 ^ 64"
  shows "\<exists>fee. evmdb_gas_calc_base_fee base used limit = Inr fee
    \<and> unat fee = eip1559_base_fee (unat base) (unat used) (unat target)"
proof -
  let ?delta = "base * (used - target) div target div 8"
  have lt: "unat target < unat used" using assms(3) by (simp add: word_less_nat_alt)
  have d: "unat (used - target) = unat used - unat target"
    using assms(3) by (intro unat_sub) simp
  have delta: "unat ?delta = unat base * (unat used - unat target) div unat target div 8"
    using unat_fee_delta [of base "used - target" target] no_ovf d by simp
  let ?fee = "base + (if ?delta < 1 then 1 else ?delta)"
  have "unat (if ?delta < 1 then 1 else ?delta) = max (unat ?delta) 1"
    by (auto simp: word_less_nat_alt)
  then have "unat ?fee = eip1559_base_fee (unat base) (unat used) (unat target)"
    using sum lt delta by (simp add: eip1559_base_fee_def unat_add_lem [THEN iffD1])
  moreover have "evmdb_gas_calc_base_fee base used limit = Inr ?fee"
    using assms by (simp add: evmdb_gas_calc_base_fee_def EIP1559_ELASTICITY_MULTIPLIER_def
        EIP1559_BASE_FEE_CHANGE_DENOMINATOR_def Let_def)
  ultimately show ?thesis by blast
qed

lemma calc_base_fee_decrease:
  assumes target: "target = limit div 2" and "used < target" and base: "base \<noteq> 0"
    and no_ovf: "unat base * (unat target - unat used) < 2 ^ 64"
  shows "\<exists>fee. evmdb_gas_calc_base_fee base used limit = Inr fee
    \<and> unat fee = eip1559_base_fee (unat base) (unat used) (unat target)"
proof -
  let ?delta = "base * (target - used) div target div 8"
  have lt: "unat used < unat target" using assms(2) by (simp add: word_less_nat_alt)
  have d: "unat (target - used) = unat target - unat used"
    using assms(2) by (intro unat_sub) simp
  have delta: "unat ?delta = unat base * (unat target - unat used) div unat target div 8"
    using unat_fee_delta [of base "target - used" target] no_ovf d by simp
  have "unat ?delta \<le> unat base div 8"
    unfolding delta by (intro div_le_mono div_target_le) simp
  also have "\<dots> < unat base" using base by (simp add: unat_gt_0)
  finally have small: "?delta < base" by (simp add: word_less_nat_alt)
  then have "unat (base - ?delta) = eip1559_base_fee (unat base) (unat used) (unat target)"
    using lt delta by (simp add: eip1559_base_fee_def unat_sub)
  moreover have "evmdb_gas_calc_base_fee base used limit = Inr (base - ?delta)"
    using assms small by (auto simp: evmdb_gas_calc_base_fee_def EIP1559_ELASTICITY_MULTIPLIER_def
        EIP1559_BASE_FEE_CHANGE_DENOMINATOR_def Let_def not_le)
  ultimately show ?thesis by blast
qed

lemma calc_base_fee_eip1559:
  assumes "2 \<le> unat limit" and "base \<noteq> 0"
    and "unat base * max (unat used - unat limit div 2) (unat limit div 2 - unat used) < 2 ^ 64"
    and "eip1559_base_fee (unat base) (unat used) (unat limit div 2) < 2 ^ 64"
  shows "\<exists>fee. evmdb_gas_calc_base_fee base used limit = Inr fee
    \<and> unat fee = eip1559_base_fee (unat base) (unat used) (unat limit div 2)"
proof -
  have t: "unat (limit div 2) = unat limit div 2" by (simp add: unat_div)
  then have t0: "limit div 2 \<noteq> 0" using assms(1) by (auto simp: word_unat_eq_iff)
  consider "used = limit div 2" | "used > limit div 2" | "used < limit div 2"
    by (meson not_less_iff_gr_or_eq)
  then show ?thesis
  proof cases
    case 1
    with t show ?thesis
      by (simp add: evmdb_gas_calc_base_fee_def EIP1559_ELASTICITY_MULTIPLIER_def
          eip1559_base_fee_def)
  next
    case 2
    then have "unat base * (unat used - unat limit div 2) < 2 ^ 64"
      using assms(3) by (simp add: max_def split: if_splits)
    with 2 show ?thesis
      using calc_base_fee_increase [of "limit div 2" limit used base] t t0 assms(4) by simp
  next
    case 3
    then have "unat base * (unat limit div 2 - unat used) < 2 ^ 64"
      using assms(3) t by (simp add: max_def word_less_nat_alt split: if_splits)
    with 3 show ?thesis
      using calc_base_fee_decrease [of "limit div 2" limit used base] t assms(2) by simp
  qed
qed

lemma eip1559_base_fee_bounds:
  assumes "used \<le> 2 * target"
  shows "eip1559_base_fee base used target \<le> base + max (base div 8) 1
    \<and> base - base div 8 \<le> eip1559_base_fee base used target
    \<and> (target < used \<longrightarrow> base < eip1559_base_fee base used target)"
proof -
  have "base * (used - target) div target div 8 \<le> base div 8"
    "base * (target - used) div target div 8 \<le> base div 8"
    using assms by (auto intro!: div_le_mono div_target_le)
  then show ?thesis by (auto simp: eip1559_base_fee_def)
qed

subsection \<open>Properties\<close>

text \<open>
C34: for a positive base fee, a gas limit of at least 2 and operands whose product fits 64 bits,
\<open>evmdb_gas_calc_base_fee\<close> returns the base fee EIP-1559 prescribes, computed without overflow.
\<close>

theorem gas_base_fee_eip1559:
  assumes "2 \<le> unat limit" and "base \<noteq> 0"
    and "unat base * max (unat used - unat limit div 2) (unat limit div 2 - unat used) < 2 ^ 64"
    and "eip1559_base_fee (unat base) (unat used) (unat limit div 2) < 2 ^ 64"
  shows "\<exists>fee. evmdb_gas_calc_base_fee base used limit = Inr fee
    \<and> unat fee = eip1559_base_fee (unat base) (unat used) (unat limit div 2)"
  using assms by (rule calc_base_fee_eip1559)

theorem gas_base_fee_eip1559_witness:
  "evmdb_gas_calc_base_fee 1000000000 30000000 30000000 = Inr 1125000000
    \<and> evmdb_gas_calc_base_fee 1000000000 0 30000000 = Inr 875000000"
  using gas_base_fee_eip1559 [of 30000000 1000000000 30000000]
    gas_base_fee_eip1559 [of 30000000 1000000000 0]
  by (auto simp: eip1559_base_fee_def word_unat_eq_iff)

text \<open>
when a block used no more gas than twice its target, the new base fee differs from the old one
by at most one eighth, and by at least the minimal step of 1 upwards.
\<close>

lemma gas_base_fee_change_bounded:
  assumes "2 \<le> unat limit" and "base \<noteq> 0" and "unat used \<le> 2 * (unat limit div 2)"
    and "unat base * (unat limit div 2) < 2 ^ 63"
    and "evmdb_gas_calc_base_fee base used limit = Inr fee"
  shows "unat fee \<le> unat base + max (unat base div 8) 1
    \<and> unat base - unat base div 8 \<le> unat fee
    \<and> (unat used > unat limit div 2 \<longrightarrow> unat fee > unat base)"
proof -
  let ?t = "unat limit div 2"
  have t: "1 \<le> ?t" using assms(1) by simp
  have small: "unat base < 2 ^ 63"
    using assms(4) t by (metis le_less_trans mult_le_mono2 nat_mult_1_right)
  have "max (unat used - ?t) (?t - unat used) \<le> ?t" using assms(3) by auto
  then have "unat base * max (unat used - ?t) (?t - unat used) \<le> unat base * ?t"
    by (rule mult_le_mono2)
  also note assms(4)
  finally have prod: "unat base * max (unat used - ?t) (?t - unat used) < 2 ^ 64" by simp
  have b: "eip1559_base_fee (unat base) (unat used) ?t \<le> unat base + max (unat base div 8) 1"
    using eip1559_base_fee_bounds [OF assms(3)] by blast
  also have "\<dots> < 2 ^ 64" using small by (auto simp: max_def)
  finally have "unat fee = eip1559_base_fee (unat base) (unat used) ?t"
    using calc_base_fee_eip1559 [OF assms(1,2) prod] assms(5) by auto
  then show ?thesis
    using eip1559_base_fee_bounds [OF assms(3), of "unat base"] by simp
qed

lemma gas_base_fee_change_bounded_witness:
  "evmdb_gas_calc_base_fee 800 20 20 = Inr 900 \<and> (900::nat) \<le> 800 + max (800 div 8) 1"
proof -
  have fee: "evmdb_gas_calc_base_fee 800 20 20 = Inr 900"
    by (simp add: evmdb_gas_calc_base_fee_def EIP1559_ELASTICITY_MULTIPLIER_def
        EIP1559_BASE_FEE_CHANGE_DENOMINATOR_def)
  from gas_base_fee_change_bounded [OF _ _ _ _ this] fee show ?thesis by simp
qed

text \<open>
\<open>evmdb_gas_calc_base_fee\<close> traps on a division by zero exactly when the gas limit is 0 or 1
and the block used any gas; in every other case it returns.
\<close>

lemma gas_base_fee_trap:
  "evmdb_gas_calc_base_fee base used limit = Inl DivideByZero
     \<longleftrightarrow> unat limit < 2 \<and> used \<noteq> 0"
proof -
  have "limit div 2 = 0 \<longleftrightarrow> unat limit < 2"
    by (auto simp: word_unat_eq_iff unat_div)
  then show ?thesis
    by (auto simp: evmdb_gas_calc_base_fee_def EIP1559_ELASTICITY_MULTIPLIER_def Let_def)
qed

text \<open>
the intrinsic gas is 21000, or 53000 for a creation, plus 4 per zero byte and 16 per non-zero
byte of the data, with no wrap-around for any data shorter than \<open>2 ^ 59\<close> bytes.
\<close>

lemma gas_intrinsic_cost:
  assumes "length data < 2 ^ 59"
  shows "unat (evmdb_gas_intrinsic data is_create)
    = (if is_create then 53000 else 21000) + calldata_cost data"
  using assms unat_data_gas [of "if is_create then 53000 else 21000" data]
  by (simp add: evmdb_gas_intrinsic_def)

lemma gas_intrinsic_cost_witness:
  "unat (evmdb_gas_intrinsic [0, 1, 0xff] False) = 21036"
  using gas_intrinsic_cost [of "[0, 1, 0xff]" False] by simp

end
