(* ===== verification/Evm_Balance.thy ===== *)
theory Evm_Balance
  imports Evm_Clib
begin

text \<open>
  256-bit balance arithmetic, \<^verbatim>\<open>src/state/accounts.c\<close>: comparison, subtraction with borrow,
  addition with carry, conversion from 64 bits and the zero test, on 32-byte big-endian arrays.
  Each loop is the source's: from the last byte to the first, one byte and one carry at a time.
  The out array is returned; it may be one of the operands, because each iteration reads
  position \<open>i\<close> before it writes position \<open>i\<close> and never reads it again.
\<close>

subsection \<open>Definitions\<close>

definition evmdb_balance_cmp :: "bytes \<Rightarrow> bytes \<Rightarrow> int" where
  "evmdb_balance_cmp a b = memcmp (take 32 a) (take 32 b)"

fun balance_sub_loop :: "nat \<Rightarrow> int \<Rightarrow> bytes \<Rightarrow> bytes \<Rightarrow> bytes \<Rightarrow> int \<times> bytes" where
  "balance_sub_loop 0 borrow a b out = (borrow, out)"
| "balance_sub_loop (Suc i) borrow a b out =
     (let diff = uint (a ! i) - uint (b ! i) - borrow
      in if diff < 0 then balance_sub_loop i 1 a b (out[i := word_of_int (diff + 256)])
         else balance_sub_loop i 0 a b (out[i := word_of_int diff]))"

definition evmdb_balance_sub :: "bytes \<Rightarrow> bytes \<Rightarrow> bytes \<Rightarrow> int \<times> bytes" where
  "evmdb_balance_sub a b out =
     (case balance_sub_loop 32 0 a b out of
        (borrow, out') \<Rightarrow> (if borrow \<noteq> 0 then -1 else 0, out'))"

fun balance_add_loop :: "nat \<Rightarrow> int \<Rightarrow> bytes \<Rightarrow> bytes \<Rightarrow> bytes \<Rightarrow> int \<times> bytes" where
  "balance_add_loop 0 carry a b out = (carry, out)"
| "balance_add_loop (Suc i) carry a b out =
     (let sum = uint (a ! i) + uint (b ! i) + carry
      in balance_add_loop i (drop_bit 8 sum) a b (out[i := word_of_int (sum AND 255)]))"

definition evmdb_balance_add :: "bytes \<Rightarrow> bytes \<Rightarrow> bytes \<Rightarrow> int \<times> bytes" where
  "evmdb_balance_add a b out =
     (case balance_add_loop 32 0 a b out of
        (carry, out') \<Rightarrow> (if carry \<noteq> 0 then -1 else 0, out'))"

definition evmdb_balance_from_uint64 :: "u64 \<Rightarrow> bytes" where
  "evmdb_balance_from_uint64 val =
     fold (\<lambda>i out. out[31 - i := ucast (drop_bit (i * 8) val)]) [0..<8] (replicate 32 0)"

fun balance_is_zero_loop :: "bytes \<Rightarrow> int" where
  "balance_is_zero_loop [] = 1"
| "balance_is_zero_loop (b # bs) = (if b \<noteq> 0 then 0 else balance_is_zero_loop bs)"

definition evmdb_balance_is_zero :: "bytes \<Rightarrow> int" where
  "evmdb_balance_is_zero val = balance_is_zero_loop (take 32 val)"

subsection \<open>Comparison\<close>

lemma memcmp_be_val:
  assumes "length a = length b"
  shows "memcmp a b = (if be_val a < be_val b then -1 else if be_val b < be_val a then 1 else 0)"
  using assms
proof (induction a b rule: list_induct2)
  case Nil
  then show ?case by simp
next
  case (Cons x xs y ys)
  let ?p = "256 ^ length ys :: nat"
  have lt: "be_val xs < ?p" "be_val ys < ?p"
    using be_val_less [of xs] be_val_less [of ys] Cons.hyps by simp_all
  have step: "u * ?p + r < v * ?p + s" if "u < v" and "r < ?p" for u v r s :: nat
  proof -
    have "u * ?p + r < Suc u * ?p" using that(2) by simp
    also have "\<dots> \<le> v * ?p" using that(1) by (intro mult_right_mono) auto
    finally show ?thesis by simp
  qed
  show ?case
    using Cons.IH Cons.hyps step [of "unat x" "unat y" "be_val xs" "be_val ys"]
      step [of "unat y" "unat x" "be_val ys" "be_val xs"] lt
    by (auto simp: be_val_Cons word_unat_eq_iff not_less dest: not_less_iff_gr_or_eq [THEN iffD1])
qed

subsection \<open>Subtraction and addition\<close>

lemma drop_list_update: "i < length xs \<Longrightarrow> drop i (xs[i := x]) = x # drop (Suc i) xs"
  by (simp add: drop_update_swap Cons_nth_drop_Suc [symmetric])

lemma be_val_drop_step:
  "i < length xs \<Longrightarrow>
    be_val (drop i xs) = unat (xs ! i) * 256 ^ (length xs - Suc i) + be_val (drop (Suc i) xs)"
  by (simp add: Cons_nth_drop_Suc [symmetric] be_val_Cons)

lemma unat_byte_of_int: "0 \<le> d \<Longrightarrow> d < 256 \<Longrightarrow> int (unat (word_of_int d :: byte)) = d"
  by (simp add: unsigned_of_int take_bit_int_eq_self)

lemma balance_sub_loop_inv:
  assumes "i \<le> n" and "length a = n" "length b = n" "length out = n"
    and "borrow \<in> {0, 1}"
    and "int (be_val (drop i a)) - int (be_val (drop i b))
      = int (be_val (drop i out)) - borrow * 256 ^ (n - i)"
    and "balance_sub_loop i borrow a b out = (borrow', out')"
  shows "length out' = n \<and> borrow' \<in> {0, 1}
    \<and> int (be_val a) - int (be_val b) = int (be_val out') - borrow' * 256 ^ n"
  using assms
proof (induction i borrow a b out rule: balance_sub_loop.induct)
  case (1 borrow a b out)
  then show ?case by auto
next
  case (2 i borrow a b out)
  let ?d = "uint (a ! i) - uint (b ! i) - borrow"
  let ?borrow = "if ?d < 0 then 1 else 0 :: int"
  let ?byte = "?d + 256 * ?borrow"
  let ?out = "out[i := word_of_int ?byte]"
  have i: "i < n" using "2.prems"(1) by simp
  have borrow: "0 \<le> borrow" "borrow \<le> 1" using "2.prems"(5) by auto
  have d: "-256 \<le> ?d" "?d < 256"
    using borrow uint_byte [of "a ! i"] uint_byte [of "b ! i"] by linarith+
  have byte: "0 \<le> ?byte" "?byte < 256"
    using d by (cases "?d < 0"; simp)+
  have pow: "256 ^ (n - i) = 256 * (256 :: int) ^ (n - Suc i)"
    using i by (metis Suc_diff_Suc power_Suc)
  have "int (be_val (drop i ?out)) = ?byte * 256 ^ (n - Suc i) + int (be_val (drop (Suc i) out))"
    using i "2.prems"(4) by (simp only: drop_list_update be_val_Cons of_nat_add of_nat_mult
        unat_byte_of_int [OF byte] length_drop of_nat_power) simp
  then have inv: "int (be_val (drop i a)) - int (be_val (drop i b))
      = int (be_val (drop i ?out)) - ?borrow * 256 ^ (n - i)"
    using i "2.prems"(2-4,6) pow by (simp add: be_val_drop_step algebra_simps)
  show ?case
  proof (cases "?d < 0")
    case True
    then show ?thesis
      using "2.IH"(1) [of ?d] "2.prems" inv by (simp add: Let_def)
  next
    case False
    then show ?thesis
      using "2.IH"(2) [of ?d] "2.prems" inv by (simp add: Let_def)
  qed
qed

lemma carry_step:
  fixes A B R P x y c q r :: int
  assumes "A + B = R + c * P" and "x + y + c = q * 256 + r"
  shows "x * P + A + (y * P + B) = r * P + R + q * (256 * P)"
  using assms by algebra

lemma balance_add_loop_inv:
  assumes "i \<le> n" and "length a = n" "length b = n" "length out = n"
    and "carry \<in> {0, 1}"
    and "int (be_val (drop i a)) + int (be_val (drop i b))
      = int (be_val (drop i out)) + carry * 256 ^ (n - i)"
    and "balance_add_loop i carry a b out = (carry', out')"
  shows "length out' = n \<and> carry' \<in> {0, 1}
    \<and> int (be_val a) + int (be_val b) = int (be_val out') + carry' * 256 ^ n"
  using assms
proof (induction i carry a b out rule: balance_add_loop.induct)
  case (1 carry a b out)
  then show ?case by auto
next
  case (2 i carry a b out)
  let ?s = "uint (a ! i) + uint (b ! i) + carry"
  let ?byte = "?s AND 255"
  let ?out = "out[i := word_of_int ?byte]"
  have i: "i < n" using "2.prems"(1) by simp
  have mod: "?byte = ?s mod 256"
    using take_bit_eq_mask [of 8 ?s] by (simp add: take_bit_eq_mod mask_eq_exp_minus_1)
  have div: "drop_bit 8 ?s = ?s div 256" by (simp add: drop_bit_eq_div)
  have byte: "0 \<le> ?byte" "?byte < 256" by (simp_all add: mod)
  have s: "0 \<le> ?s" "?s \<le> 511"
    using "2.prems"(5) uint_byte [of "a ! i"] uint_byte [of "b ! i"] by auto
  have "?s div 256 = 0 \<or> ?s div 256 = 1" using s by linarith
  then have carry: "drop_bit 8 ?s \<in> {0, 1}" unfolding div by simp
  have pow: "256 ^ (n - i) = 256 * (256 :: int) ^ (n - Suc i)"
    using i by (metis Suc_diff_Suc power_Suc)
  have "int (be_val (drop i ?out)) = ?byte * 256 ^ (n - Suc i) + int (be_val (drop (Suc i) out))"
    using i "2.prems"(4) by (simp only: drop_list_update be_val_Cons of_nat_add of_nat_mult
        unat_byte_of_int [OF byte] length_drop of_nat_power) simp
  moreover have split: "?s = drop_bit 8 ?s * 256 + ?byte"
    unfolding mod div by simp
  ultimately have inv: "int (be_val (drop i a)) + int (be_val (drop i b))
      = int (be_val (drop i ?out)) + drop_bit 8 ?s * 256 ^ (n - i)"
    using i "2.prems"(2-4) pow carry_step [OF "2.prems"(6) split]
    by (simp add: be_val_drop_step [of i a] be_val_drop_step [of i b])
  show ?case
    using "2.IH" [of ?s] "2.prems" carry inv by (simp add: Let_def)
qed

lemma balance_sub_correct:
  assumes "length a = 32" "length b = 32" "length out = 32"
  shows "\<exists>r. evmdb_balance_sub a b out = (if be_val a < be_val b then -1 else 0, r)
    \<and> length r = 32 \<and> int (be_val r) = (int (be_val a) - int (be_val b)) mod 2 ^ 256"
proof -
  obtain w r where run: "balance_sub_loop 32 0 a b out = (w, r)" by fastforce
  have inv: "length r = 32 \<and> w \<in> {0, 1}
      \<and> int (be_val a) - int (be_val b) = int (be_val r) - w * 256 ^ 32"
    using balance_sub_loop_inv [of 32 32 a b out 0 w r] assms run by simp
  have r: "int (be_val r) < 2 ^ 256"
    using be_val_less [of r] inv by simp
  have "int (be_val r) = (int (be_val a) - int (be_val b) + w * 2 ^ 256) mod 2 ^ 256"
    using inv r by simp
  then have "int (be_val r) = (int (be_val a) - int (be_val b)) mod 2 ^ 256"
    by simp
  moreover have "w \<noteq> 0 \<longleftrightarrow> be_val a < be_val b"
    using inv r be_val_less [of a] assms by auto
  ultimately show ?thesis
    using inv run by (simp add: evmdb_balance_sub_def)
qed

lemma balance_add_correct:
  assumes "length a = 32" "length b = 32" "length out = 32"
  shows "\<exists>r. evmdb_balance_add a b out = (if be_val a + be_val b \<ge> 2 ^ 256 then -1 else 0, r)
    \<and> length r = 32 \<and> be_val r = (be_val a + be_val b) mod 2 ^ 256"
proof -
  obtain w r where run: "balance_add_loop 32 0 a b out = (w, r)" by fastforce
  have inv: "length r = 32 \<and> w \<in> {0, 1}
      \<and> int (be_val a) + int (be_val b) = int (be_val r) + w * 256 ^ 32"
    using balance_add_loop_inv [of 32 32 a b out 0 w r] assms run by simp
  have r: "be_val r < 2 ^ 256"
    using be_val_less [of r] inv by simp
  have sum: "be_val a + be_val b = be_val r + (if w = 0 then 0 else 2 ^ 256)"
    using inv by auto
  then have "be_val r = (be_val a + be_val b) mod 2 ^ 256"
    using r by simp
  moreover have "w \<noteq> 0 \<longleftrightarrow> be_val a + be_val b \<ge> 2 ^ 256"
    using sum r by auto
  ultimately show ?thesis
    using inv run by (simp add: evmdb_balance_add_def)
qed

subsection \<open>Conversions\<close>

lemma balance_from_uint64_loop:
  assumes "k \<le> 32"
  shows "fold (\<lambda>i out. out[31 - i := ucast (drop_bit (i * 8) val)]) [0..<k] (replicate 32 0)
    = replicate (32 - k) 0 @ be_bytes k (unat (val :: u64))"
  using assms
proof (induction k)
  case 0
  then show ?case by simp
next
  case (Suc k)
  then have "32 - k = Suc (31 - k)" by simp
  then have "replicate (32 - k) (0 :: byte) = replicate (31 - k) 0 @ [0]"
    by (simp only: replicate_Suc replicate_append_same)
  moreover have "(2 :: nat) ^ (k * 8) = 256 ^ k"
    by (subst mult.commute) (simp add: power_mult)
  ultimately show ?case
    using Suc by (simp add: ucast_drop_bit_byte be_bytes_Suc_left list_update_append
        del: be_bytes.simps(2))
qed

lemma balance_from_uint64_bytes:
  "evmdb_balance_from_uint64 v = replicate 24 0 @ be_bytes 8 (unat v)"
  using balance_from_uint64_loop [of 8 v] by (simp add: evmdb_balance_from_uint64_def)

lemma length_balance_from_uint64 [simp]: "length (evmdb_balance_from_uint64 v) = 32"
  by (simp add: balance_from_uint64_bytes)

lemma be_val_balance_from_uint64: "be_val (evmdb_balance_from_uint64 v) = unat v"
  by (simp add: balance_from_uint64_bytes be_val_append be_val_be_bytes)

lemma balance_is_zero_loop_iff: "balance_is_zero_loop bs = (if be_val bs = 0 then 1 else 0)"
  by (induction bs) (auto simp: be_val_0_iff)

subsection \<open>Properties\<close>

text \<open>
C32: \<open>evmdb_balance_sub\<close> computes the difference modulo \<open>2 ^ 256\<close> of the two 256-bit numbers and
returns -1 exactly when the subtraction underflows.
\<close>

theorem balance_sub_spec:
  assumes "length a = 32" "length b = 32" "length out = 32"
  shows "\<exists>r. evmdb_balance_sub a b out = (if be_val a < be_val b then -1 else 0, r)
    \<and> length r = 32 \<and> int (be_val r) = (int (be_val a) - int (be_val b)) mod 2 ^ 256"
  using assms by (rule balance_sub_correct)

theorem balance_sub_spec_witness:
  "fst (evmdb_balance_sub (replicate 31 0 @ [5]) (replicate 31 0 @ [6]) (replicate 32 0)) = -1"
  using balance_sub_spec [of "replicate 31 0 @ [5]" "replicate 31 0 @ [6]" "replicate 32 0"]
  by (auto simp: be_val_append be_val_Cons)

text \<open>
C33: \<open>evmdb_balance_add\<close> computes the sum modulo \<open>2 ^ 256\<close> and returns -1 exactly on overflow;
subtracting the second operand from a sum that did not overflow gives the first back.
\<close>

theorem balance_add_spec:
  assumes "length a = 32" "length b = 32" "length out = 32"
  shows "\<exists>r. evmdb_balance_add a b out = (if be_val a + be_val b \<ge> 2 ^ 256 then -1 else 0, r)
    \<and> length r = 32 \<and> be_val r = (be_val a + be_val b) mod 2 ^ 256
    \<and> (be_val a + be_val b < 2 ^ 256 \<longrightarrow> evmdb_balance_sub r b out = (0, a))"
proof -
  from balance_add_correct [OF assms] obtain r where
    r: "evmdb_balance_add a b out = (if be_val a + be_val b \<ge> 2 ^ 256 then -1 else 0, r)"
    "length r = 32" "be_val r = (be_val a + be_val b) mod 2 ^ 256"
    by blast
  moreover have "evmdb_balance_sub r b out = (0, a)" if fits: "be_val a + be_val b < 2 ^ 256"
  proof -
    from balance_sub_correct [OF r(2) assms(2,3)] obtain q where
      q: "evmdb_balance_sub r b out = (if be_val r < be_val b then -1 else 0, q)"
      "length q = 32" "int (be_val q) = (int (be_val r) - int (be_val b)) mod 2 ^ 256"
      by blast
    have sum: "be_val r = be_val a + be_val b" using r(3) fits by simp
    moreover have "int (be_val a) < 2 ^ 256" using be_val_less [of a] assms(1) by simp
    ultimately have "be_val q = be_val a" using q(3) by simp
    then have "q = a" using q(2) assms(1) by (intro be_val_inject) simp_all
    with q(1) sum show ?thesis by simp
  qed
  ultimately show ?thesis by blast
qed

theorem balance_add_spec_witness:
  "fst (evmdb_balance_add (128 # replicate 31 0) (128 # replicate 31 0) (replicate 32 0)) = -1"
  using balance_add_spec [of "128 # replicate 31 0" "128 # replicate 31 0" "replicate 32 0"]
  by (auto simp: be_val_Cons)

text \<open>
the sign of \<open>evmdb_balance_cmp\<close> is the order of the two numbers, \<open>evmdb_balance_is_zero\<close> is
1 exactly for the number 0, and \<open>evmdb_balance_from_uint64\<close> is the 32-byte array of the value.
\<close>

lemma balance_order:
  assumes "length a = 32" "length b = 32"
  shows "(evmdb_balance_cmp a b < 0 \<longleftrightarrow> be_val a < be_val b)
    \<and> (evmdb_balance_cmp a b = 0 \<longleftrightarrow> a = b)
    \<and> (evmdb_balance_is_zero a = 1 \<longleftrightarrow> be_val a = 0)
    \<and> length (evmdb_balance_from_uint64 v) = 32
    \<and> be_val (evmdb_balance_from_uint64 v) = unat v"
  using assms be_val_eq_iff [of a b]
  by (auto simp: evmdb_balance_cmp_def evmdb_balance_is_zero_def memcmp_be_val
      balance_is_zero_loop_iff be_val_balance_from_uint64)

lemma balance_order_witness:
  "evmdb_balance_cmp (1 # replicate 31 0) (2 # replicate 31 0) < 0
    \<and> be_val (evmdb_balance_from_uint64 77) = 77"
  using balance_order [of "1 # replicate 31 0" "2 # replicate 31 0" 77]
  by (simp add: be_val_Cons)

end
