(* ===== verification/Evm_Tx_Type.thy ===== *)
theory Evm_Tx_Type
  imports Evm_Tx
begin

text \<open>
  What every decoded transaction satisfies, whatever bytes came over the wire: its arrays have
  their declared sizes and its calldata is part of the input. Each step of the decoder keeps this
  invariant; \<open>establishes P m\<close> says that \<open>P\<close> holds of the result of \<open>m\<close>, if there is one.
\<close>

definition establishes :: "('a \<Rightarrow> bool) \<Rightarrow> 'a cres \<Rightarrow> bool" where
  "establishes P m \<longleftrightarrow> (\<forall>x. m = Inr x \<longrightarrow> P x)"

lemma establishes_Inr [simp]: "establishes P (Inr x) \<longleftrightarrow> P x"
  by (simp add: establishes_def)

lemma establishes_Inl [simp]: "establishes P (Inl e)"
  by (simp add: establishes_def)

definition tx_inv :: "bytes \<Rightarrow> evmdb_tx \<Rightarrow> bool" where
  "tx_inv mem tx \<longleftrightarrow> wf_tx tx \<and> length (tx_data tx) \<le> length mem \<and> tx_raw tx = mem"

abbreviation keeps :: "bytes \<Rightarrow> decode_state cres \<Rightarrow> bool" where
  "keeps mem \<equiv> establishes (\<lambda>(lr, tx). tx_inv mem tx)"

lemma keeps_bind:
  "keeps mem m \<Longrightarrow> (\<And>lr tx. tx_inv mem tx \<Longrightarrow> establishes Q (f (lr, tx))) \<Longrightarrow> establishes Q (bindE m f)"
  by (cases m) auto

lemma read_n_length: "mem_read_n mem a n = Inr bs \<Longrightarrow> length bs = n \<and> n \<le> length mem"
  by (auto simp: mem_read_n_def split: if_splits)

lemma to_bytes32_length: "rlp_to_bytes32 mem a n = Inr w \<Longrightarrow> length w = 32"
  by (auto simp: rlp_to_bytes32_def bindE_eq_Inr Let_def word_less_nat_alt not_less dest!: read_n_length split: if_splits)

lemma to_address_length: "rlp_to_address mem a n = Inr w \<Longrightarrow> length w = 20"
  by (auto simp: rlp_to_address_def bindE_eq_Inr Let_def word_less_nat_alt not_less dest!: read_n_length split: if_splits)

lemma field_u64_keeps:
  assumes "case s of (lr, tx) \<Rightarrow> tx_inv mem tx" and "\<And>v tx. tx_inv mem tx \<Longrightarrow> tx_inv mem (upd (\<lambda>_. v) tx)"
  shows "keeps mem (field_u64 mem upd s)"
  using assms by (auto simp: field_u64_def establishes_def bindE_eq_Inr split: prod.splits)

lemma field_bytes32_keeps:
  assumes "case s of (lr, tx) \<Rightarrow> tx_inv mem tx"
    and "\<And>v tx. tx_inv mem tx \<Longrightarrow> length v = 32 \<Longrightarrow> tx_inv mem (upd (\<lambda>_. v) tx)"
  shows "keeps mem (field_bytes32 mem upd s)"
  using assms to_bytes32_length
  by (auto simp: field_bytes32_def establishes_def bindE_eq_Inr split: prod.splits)

lemma field_to_keeps: "case s of (lr, tx) \<Rightarrow> tx_inv mem tx \<Longrightarrow> keeps mem (field_to mem s)"
  using to_address_length
  by (auto simp: field_to_def establishes_def bindE_eq_Inr tx_inv_def wf_tx_def split: prod.splits if_splits)

lemma field_data_keeps: "case s of (lr, tx) \<Rightarrow> tx_inv mem tx \<Longrightarrow> keeps mem (field_data alloc mem s)"
  using read_n_length
  by (auto simp: field_data_def establishes_def bindE_eq_Inr tx_inv_def wf_tx_def split: prod.splits if_splits)

lemma field_skip_keeps: "case s of (lr, tx) \<Rightarrow> tx_inv mem tx \<Longrightarrow> keeps mem (field_skip mem s)"
  by (auto simp: field_skip_def establishes_def bindE_eq_Inr split: prod.splits)

lemmas field_keeps = field_u64_keeps field_bytes32_keeps field_to_keeps field_data_keeps field_skip_keeps

lemma tx_inv_update:
  "tx_inv mem tx \<Longrightarrow> tx_inv mem (tx\<lparr>tx_chain_id := n\<rparr>)"
  "tx_inv mem tx \<Longrightarrow> tx_inv mem (tx\<lparr>tx_nonce := n\<rparr>)"
  "tx_inv mem tx \<Longrightarrow> tx_inv mem (tx\<lparr>tx_gas_limit := n\<rparr>)"
  "tx_inv mem tx \<Longrightarrow> tx_inv mem (tx\<lparr>tx_v := n\<rparr>)"
  "tx_inv mem tx \<Longrightarrow> length v = 32 \<Longrightarrow> tx_inv mem (tx\<lparr>tx_max_priority_fee := v\<rparr>)"
  "tx_inv mem tx \<Longrightarrow> length v = 32 \<Longrightarrow> tx_inv mem (tx\<lparr>tx_max_fee_per_gas := v\<rparr>)"
  "tx_inv mem tx \<Longrightarrow> length v = 32 \<Longrightarrow> tx_inv mem (tx\<lparr>tx_gas_price := v\<rparr>)"
  "tx_inv mem tx \<Longrightarrow> length v = 32 \<Longrightarrow> tx_inv mem (tx\<lparr>tx_value := v\<rparr>)"
  "tx_inv mem tx \<Longrightarrow> length v = 32 \<Longrightarrow> tx_inv mem (tx\<lparr>tx_r := v\<rparr>)"
  "tx_inv mem tx \<Longrightarrow> length v = 32 \<Longrightarrow> tx_inv mem (tx\<lparr>tx_s := v\<rparr>)"
  by (simp_all add: tx_inv_def wf_tx_def)

lemma decode_eip1559_inv: "tx_inv mem tx \<Longrightarrow> establishes (tx_inv mem) (decode_eip1559 alloc mem (lr, tx))"
  unfolding decode_eip1559_def
  by (intro keeps_bind [where mem = mem] field_keeps) (auto intro: tx_inv_update)

lemma decode_legacy_inv: "tx_inv mem tx \<Longrightarrow> establishes (tx_inv mem) (decode_legacy alloc mem (lr, tx))"
  unfolding decode_legacy_def
  by (intro keeps_bind [where mem = mem] field_keeps) (auto intro: tx_inv_update)

lemma tx_decode_inv:
  assumes "evmdb_tx_decode alloc raw = Inr tx"
  shows "tx_inv raw tx \<and> tx_hash tx = evmdb_keccak256 raw"
proof -
  have zero: "tx_inv raw (zero_tx\<lparr>tx_raw := raw, tx_type := ty\<rparr>)" for ty
    by (simp add: tx_inv_def wf_tx_def zero_tx_def)
  have hashed: "tx_inv raw (t\<lparr>tx_hash := evmdb_keccak256 raw\<rparr>)" if "tx_inv raw t" for t
    using that by (simp add: tx_inv_def wf_tx_def)
  note inv = decode_eip1559_inv [OF zero] decode_legacy_inv [OF zero]
  show ?thesis
    using assms zero inv
    by (auto simp: evmdb_tx_decode_def Let_def bindE_eq_Inr establishes_def intro!: hashed
        split: if_splits evmdb_tx_type.splits)
qed

lemma recover_sender_inv:
  assumes "evmdb_tx_recover_sender alloc secp tx = (rc, tx')" and "tx_inv raw tx"
  shows "tx_inv raw tx' \<and> tx' = tx\<lparr>tx_from := tx_from tx'\<rparr> \<and> tx_hash tx' = tx_hash tx"
  using assms
  by (auto simp: evmdb_tx_recover_sender_def tx_inv_def wf_tx_def split: sum.splits option.splits if_splits)

subsection \<open>Property\<close>

text \<open>
  C14: whatever bytes are submitted, a transaction that decodes is well-typed: each of its arrays has
  the declared size, its calldata is no longer than the input, it keeps the input as its raw form
  and the Keccak hash of the input as its hash; recovering the sender changes the sender only, and
  leaves an address of 20 bytes there.
\<close>

theorem tx_decode_type:
  assumes "evmdb_tx_decode alloc raw = Inr tx" and "evmdb_tx_recover_sender alloc secp tx = (rc, tx')"
  shows "wf_tx tx \<and> length (tx_data tx) \<le> length raw \<and> tx_raw tx = raw \<and> tx_hash tx = evmdb_keccak256 raw
    \<and> wf_tx tx' \<and> tx' = tx\<lparr>tx_from := tx_from tx'\<rparr>"
  using tx_decode_inv [OF assms(1)] recover_sender_inv [OF assms(2)] by (auto simp: tx_inv_def)

definition signed_sample :: evmdb_tx where
  "signed_sample = sample_tx\<lparr>tx_raw := encode_signed sample_tx,
     tx_hash := evmdb_keccak256 (encode_signed sample_tx)\<rparr>"

lemma wire_signed_sample: "wire_tx signed_sample"
proof -
  have "encode_signed signed_sample = encode_signed sample_tx"
    by (simp add: signed_sample_def encode_signed_def legacy_fields_def eip1559_fields_def
        signature_fields_def rlp_recipient_def)
  then show ?thesis
    by (simp add: wire_tx_def wf_tx_def signed_sample_def) (simp add: sample_tx_def zero_tx_def)
qed

lemma signed_sample_decodes: "evmdb_tx_decode (\<lambda>_. True) (encode_signed sample_tx) = Inr signed_sample"
  using tx_decode_encode [OF wire_signed_sample, of "\<lambda>_. True"]
  by (simp add: signed_sample_def encode_sample)

theorem tx_decode_type_witness:
  "wf_tx signed_sample \<and> length (tx_data signed_sample) \<le> length (encode_signed sample_tx)"
proof -
  obtain rc tx' where "evmdb_tx_recover_sender (\<lambda>_. True) sample_secp signed_sample = (rc, tx')" by fastforce
  from tx_decode_type [OF signed_sample_decodes this] show ?thesis by simp
qed

end
