(* ===== verification/Evm_Producer.thy ===== *)
theory Evm_Producer
  imports Evm_World
begin

text \<open>
  The block producer, \<^verbatim>\<open>src/block/producer.c\<close>: a pool of pending transaction hashes that is sealed to a
  block when the block time is over, the gas limit is reached or the pool is full.

  The file is not part of the build, and no header declares \<open>evmdb_block_t\<close>: the record has the fields
  that \<open>evmdb_block_producer_seal\<close> assigns. The clocks are arguments: \<open>now\<close> is what \<open>now_ms\<close> returns, \<open>time\<close>
  what \<open>time(NULL)\<close> returns. Runs of the producer are a step relation over the operations, in which every
  allocation may be granted or refused; the invariant says which accepted transactions are in the pool
  and in which block, and that block numbers are consecutive.
\<close>

definition MAX_TXS_PER_BLOCK :: nat where
  "MAX_TXS_PER_BLOCK = 10000"

record evmdb_block_producer =
  bp_coinbase :: evmdb_address
  bp_gas_limit :: u64
  bp_block_time_ms :: u64
  bp_pending_tx_hashes :: "evmdb_hash list"
  bp_pending_tx_count :: nat
  bp_pending_gas_used :: u64
  bp_pending_start_ms :: u64

text \<open>\<open>blk_tx_hashes\<close> is \<open>None\<close> for the null pointer.\<close>

record evmdb_block =
  blk_number :: u64
  blk_coinbase :: evmdb_address
  blk_timestamp :: u64
  blk_gas_limit :: u64
  blk_gas_used :: u64
  blk_tx_count :: nat
  blk_tx_hashes :: "evmdb_hash list option"

subsection \<open>Operations\<close>

text \<open>\<open>clock_gettime(CLOCK_MONOTONIC)\<close> gives the seconds and nanoseconds.\<close>

definition now_ms :: "u64 \<Rightarrow> u64 \<Rightarrow> u64" where
  "now_ms tv_sec tv_nsec = tv_sec * 1000 + tv_nsec div 1000000"

text \<open>The struct has 72 bytes; the array holds \<open>MAX_TXS_PER_BLOCK\<close> hashes of 32 bytes, cleared by \<open>calloc\<close>.\<close>

definition evmdb_block_producer_create ::
  "(nat \<Rightarrow> bool) \<Rightarrow> u64 \<Rightarrow> evmdb_address \<Rightarrow> u64 \<Rightarrow> u64 \<Rightarrow> evmdb_block_producer option" where
  "evmdb_block_producer_create alloc now coinbase gas_limit block_time_ms =
     (if \<not> alloc 72 then None
      else if \<not> alloc (MAX_TXS_PER_BLOCK * 32) then None
      else Some \<lparr>bp_coinbase = coinbase, bp_gas_limit = gas_limit, bp_block_time_ms = block_time_ms,
             bp_pending_tx_hashes = replicate MAX_TXS_PER_BLOCK zero_bytes32, bp_pending_tx_count = 0,
             bp_pending_gas_used = 0, bp_pending_start_ms = now\<rparr>)"

definition evmdb_block_producer_destroy :: "evmdb_block_producer option \<Rightarrow> evmdb_block_producer option" where
  "evmdb_block_producer_destroy bp = None"

definition evmdb_block_producer_add_tx ::
  "evmdb_block_producer \<Rightarrow> evmdb_tx \<Rightarrow> evmdb_receipt \<Rightarrow> int \<times> evmdb_block_producer" where
  "evmdb_block_producer_add_tx bp tx receipt =
     (if bp_pending_tx_count bp \<ge> MAX_TXS_PER_BLOCK then (-1, bp)
      else (0, bp\<lparr>bp_pending_tx_hashes := (bp_pending_tx_hashes bp)[bp_pending_tx_count bp := tx_hash tx],
                  bp_pending_tx_count := bp_pending_tx_count bp + 1,
                  bp_pending_gas_used := bp_pending_gas_used bp + rec_gas_used receipt\<rparr>))"

definition evmdb_block_producer_should_seal :: "evmdb_block_producer \<Rightarrow> u64 \<Rightarrow> bool" where
  "evmdb_block_producer_should_seal bp now =
     (if bp_pending_tx_count bp = 0 then False
      else if bp_block_time_ms bp > 0 then
        if now - bp_pending_start_ms bp \<ge> bp_block_time_ms bp then True
        else if bp_pending_gas_used bp \<ge> bp_gas_limit bp then True
        else bp_pending_tx_count bp \<ge> MAX_TXS_PER_BLOCK
      else True)"

definition evmdb_block_producer_seal ::
  "(nat \<Rightarrow> bool) \<Rightarrow> 'r redis \<Rightarrow> u64 \<Rightarrow> u64 \<Rightarrow> evmdb_block_producer \<Rightarrow> 'r
    \<Rightarrow> int \<times> evmdb_block \<times> evmdb_block_producer \<times> 'r" where
  "evmdb_block_producer_seal alloc redisCommand time now bp s =
     (let (current_number, s) = evmdb_state_get_block_number redisCommand s;
          new_number = current_number + 1;
          count = bp_pending_tx_count bp;
          out = \<lparr>blk_number = new_number, blk_coinbase = bp_coinbase bp, blk_timestamp = time,
                 blk_gas_limit = bp_gas_limit bp, blk_gas_used = bp_pending_gas_used bp, blk_tx_count = count,
                 blk_tx_hashes = (if count > 0 \<and> alloc (count * 32)
                                  then Some (take count (bp_pending_tx_hashes bp)) else None)\<rparr>;
          (_, s) = evmdb_state_set_block_number redisCommand s new_number
      in (0, out, bp\<lparr>bp_pending_tx_count := 0, bp_pending_gas_used := 0, bp_pending_start_ms := now\<rparr>, s))"

subsection \<open>The pool as a list\<close>

definition bp_inv :: "evmdb_block_producer \<Rightarrow> bool" where
  "bp_inv bp \<longleftrightarrow> length (bp_pending_tx_hashes bp) = MAX_TXS_PER_BLOCK \<and> bp_pending_tx_count bp \<le> MAX_TXS_PER_BLOCK"

definition pending :: "evmdb_block_producer \<Rightarrow> evmdb_hash list" where
  "pending bp = take (bp_pending_tx_count bp) (bp_pending_tx_hashes bp)"

lemma length_pending: "bp_inv bp \<Longrightarrow> length (pending bp) = bp_pending_tx_count bp"
  by (simp add: bp_inv_def pending_def)

lemma create_pending:
  "evmdb_block_producer_create al now c g t = Some bp \<Longrightarrow> bp_inv bp \<and> pending bp = []"
  by (auto simp: evmdb_block_producer_create_def bp_inv_def pending_def split: if_splits)

lemma add_tx_pending:
  assumes "bp_inv bp" and "evmdb_block_producer_add_tx bp tx r = (rc, bp')"
  shows "bp_inv bp' \<and> (rc = 0 \<and> pending bp' = pending bp @ [tx_hash tx]
      \<or> rc = -1 \<and> bp' = bp \<and> length (pending bp) = MAX_TXS_PER_BLOCK)"
  using assms length_pending [OF assms(1)]
  by (auto simp: evmdb_block_producer_add_tx_def bp_inv_def pending_def take_Suc_conv_app_nth split: if_splits)

lemma should_seal_pending: "bp_inv bp \<Longrightarrow> evmdb_block_producer_should_seal bp now \<Longrightarrow> pending bp \<noteq> []"
  using length_pending [of bp] by (auto simp: evmdb_block_producer_should_seal_def split: if_splits)

context redis_server
begin

lemma seal_pending:
  assumes "bp_inv bp" and "ok s" and "evmdb_block_producer_seal al redisCommand time now bp s = (rc, blk, bp', s')"
  shows "rc = 0 \<and> bp_inv bp' \<and> pending bp' = [] \<and> ok s' \<and> blk_tx_count blk = length (pending bp)
    \<and> blk_tx_hashes blk = (if pending bp \<noteq> [] \<and> al (length (pending bp) * 32) then Some (pending bp) else None)
    \<and> blk_number blk = w_block (world_of (kv s)) + 1
    \<and> world_of (kv s') = (world_of (kv s))\<lparr>w_block := w_block (world_of (kv s)) + 1\<rparr>"
proof -
  obtain s1 where s1: "evmdb_state_get_block_number redisCommand s = (w_block (world_of (kv s)), s1)"
    "kv s1 = kv s" "ok s1"
    using get_block_number_reads [OF assms(2)] by (auto simp: reads_def)
  obtain s2 where s2: "evmdb_state_set_block_number redisCommand s1 (w_block (world_of (kv s)) + 1) = (0, s2)" "ok s2"
    "world_of (kv s2) = (world_of (kv s))\<lparr>w_block := w_block (world_of (kv s)) + 1\<rparr>"
    using set_block_number_writes [OF s1(3)] s1(2) by (auto simp: writes_def)
  show ?thesis
    using assms(1,3) s1 s2 length_pending [OF assms(1)]
    by (auto simp: evmdb_block_producer_seal_def Let_def bp_inv_def pending_def)
qed

end

subsection \<open>Runs\<close>

text \<open>
  A run of the producer: transactions arrive, some are refused because the pool is full, and the
  pool is sealed when \<open>should_seal\<close> says so. Each creation and each sealing has an allocator of its own.
  The ghost lists record the accepted hashes, the blocks, and for each block whether \<open>calloc\<close> granted
  the array for its hashes.
\<close>

inductive producer_run ::
  "'r redis \<Rightarrow> 'r \<Rightarrow> evmdb_block_producer \<Rightarrow> 'r \<Rightarrow> evmdb_hash list \<Rightarrow> evmdb_block list \<Rightarrow> bool list \<Rightarrow> bool"
  for redisCommand :: "'r redis" and s0 :: 'r where
  start: "evmdb_block_producer_create alloc now coinbase gas_limit block_time = Some bp \<Longrightarrow>
    producer_run redisCommand s0 bp s0 [] [] []"
| accept: "producer_run redisCommand s0 bp s acc blks granted \<Longrightarrow>
    evmdb_block_producer_add_tx bp tx receipt = (0, bp') \<Longrightarrow>
    producer_run redisCommand s0 bp' s (acc @ [tx_hash tx]) blks granted"
| reject: "producer_run redisCommand s0 bp s acc blks granted \<Longrightarrow>
    evmdb_block_producer_add_tx bp tx receipt = (-1, bp') \<Longrightarrow>
    producer_run redisCommand s0 bp' s acc blks granted"
| seal: "producer_run redisCommand s0 bp s acc blks granted \<Longrightarrow> evmdb_block_producer_should_seal bp now \<Longrightarrow>
    evmdb_block_producer_seal alloc redisCommand time now' bp s = (rc, blk, bp', s') \<Longrightarrow>
    producer_run redisCommand s0 bp' s' acc (blks @ [blk]) (granted @ [alloc (bp_pending_tx_count bp * 32)])"

text \<open>The hashes sealed in a block, whether or not the block has the array for them.\<close>

definition block_of :: "evmdb_hash list \<Rightarrow> evmdb_block \<times> bool \<Rightarrow> bool" where
  "block_of hs b \<longleftrightarrow> hs \<noteq> [] \<and> blk_tx_count (fst b) = length hs
     \<and> blk_tx_hashes (fst b) = (if snd b then Some hs else None)"

definition consecutive :: "u64 \<Rightarrow> evmdb_block list \<Rightarrow> bool" where
  "consecutive n blks \<longleftrightarrow> (\<forall>i < length blks. blk_number (blks ! i) = n + word_of_nat (Suc i))"

lemma consecutive_snoc:
  "consecutive n blks \<Longrightarrow> blk_number b = n + word_of_nat (length blks) + 1 \<Longrightarrow> consecutive n (blks @ [b])"
  by (auto simp: consecutive_def nth_append less_Suc_eq)

definition producer_inv :: "world \<Rightarrow> evmdb_block_producer \<Rightarrow> world \<Rightarrow> evmdb_hash list \<Rightarrow> evmdb_block list \<Rightarrow> bool list \<Rightarrow> bool" where
  "producer_inv w0 bp w acc blks granted \<longleftrightarrow> bp_inv bp \<and> length granted = length blks
     \<and> (\<exists>parts. concat parts @ pending bp = acc \<and> list_all2 block_of parts (zip blks granted))
     \<and> consecutive (w_block w0) blks \<and> w_block w = w_block w0 + word_of_nat (length blks)"

lemma producer_inv_seal:
  assumes "producer_inv w0 bp w acc blks granted" and "bp_inv bp'" and "pending bp' = []" and "block_of (pending bp) (blk, g)"
    and "blk_number blk = w_block w + 1" and "w_block w' = w_block w + 1"
  shows "producer_inv w0 bp' w' acc (blks @ [blk]) (granted @ [g])"
proof -
  obtain parts where parts: "concat parts @ pending bp = acc" "list_all2 block_of parts (zip blks granted)"
    and len: "length granted = length blks"
    using assms(1) by (auto simp: producer_inv_def)
  have "list_all2 block_of (parts @ [pending bp]) (zip (blks @ [blk]) (granted @ [g]))"
    using parts(2) assms(4) len by (simp add: list_all2_appendI)
  moreover have "concat (parts @ [pending bp]) @ pending bp' = acc" using parts(1) assms(3) by simp
  ultimately have "\<exists>parts. concat parts @ pending bp' = acc
      \<and> list_all2 block_of parts (zip (blks @ [blk]) (granted @ [g]))" by blast
  with assms show ?thesis
    by (auto simp: producer_inv_def algebra_simps intro!: consecutive_snoc)
qed

lemma producer_run_inv:
  assumes redis: "redis_server rc kv up" and ok: "redis_server.ok kv up s0"
    and run: "producer_run rc s0 bp s acc blks granted"
  shows "redis_server.ok kv up s \<and> producer_inv (world_of (kv s0)) bp (world_of (kv s)) acc blks granted"
  using run
proof (induction rule: producer_run.induct)
  case (start alloc now coinbase gas_limit block_time bp)
  then show ?case using create_pending [of alloc] ok by (force simp: producer_inv_def consecutive_def)
next
  case (accept bp s acc blks granted tx receipt bp')
  then show ?case using add_tx_pending [of bp tx receipt 0 bp'] by (auto simp: producer_inv_def)
next
  case (reject bp s acc blks granted tx receipt bp')
  then show ?case using add_tx_pending [of bp tx receipt "-1" bp'] by (auto simp: producer_inv_def)
next
  case (seal bp s acc blks granted now alloc time now' rcode blk bp' s')
  have inv: "bp_inv bp" "redis_server.ok kv up s" using seal.IH by (simp_all add: producer_inv_def)
  note sealed = redis_server.seal_pending [OF redis inv seal(3)]
  have "pending bp \<noteq> []" using should_seal_pending [OF inv(1) seal(2)] .
  with sealed length_pending [OF inv(1)]
  have "block_of (pending bp) (blk, alloc (bp_pending_tx_count bp * 32))" by (simp add: block_of_def)
  with sealed seal.IH show ?case by (auto intro: producer_inv_seal)
qed

subsection \<open>Properties\<close>

definition block_hashes :: "evmdb_block \<Rightarrow> evmdb_hash list" where
  "block_hashes blk = (case blk_tx_hashes blk of None \<Rightarrow> [] | Some hs \<Rightarrow> hs)"

lemma granted_blocks:
  "list_all2 block_of parts (zip blks granted) \<Longrightarrow> length granted = length blks \<Longrightarrow> False \<notin> set granted \<Longrightarrow>
    map block_hashes blks = parts"
proof (induction parts "zip blks granted" arbitrary: blks granted rule: list_all2_induct)
  case Nil
  then show ?case by (cases blks; cases granted) simp_all
next
  case (Cons hs parts b bs)
  then show ?case by (cases blks; cases granted) (auto simp: block_of_def block_hashes_def)
qed

text \<open>
  C22: in every reachable state of the block producer, the accepted transactions, in the order in
  which they were accepted, are those sealed in the first block, in the second and so on, followed by
  the pending ones: none is sealed twice, reordered or forgotten by the pool. A sealed block counts its
  transactions and holds exactly their hashes if \<open>calloc\<close> granted the array; if it was refused the block
  has a null pointer instead and those hashes are lost, although sealing returned 0. When every
  allocation was granted, the hashes of the blocks followed by the pending ones are exactly the
  accepted ones. The pool never holds more than 10000 transactions, no block is empty, the block numbers
  are consecutive from the database's block number, and the database ends at the number of the last block.
\<close>

theorem producer_invariant:
  assumes redis: "redis_server rc kv up" and up: "up s0" and wf: "wf_db (kv s0)"
    and run: "producer_run rc s0 bp s acc blks granted"
  shows "(\<exists>parts. concat parts @ pending bp = acc \<and> length parts = length blks \<and> length granted = length blks
        \<and> (\<forall>i < length blks. parts ! i \<noteq> [] \<and> blk_tx_count (blks ! i) = length (parts ! i)
            \<and> blk_tx_hashes (blks ! i) = (if granted ! i then Some (parts ! i) else None)))
    \<and> (False \<notin> set granted \<longrightarrow> concat (map block_hashes blks) @ pending bp = acc)
    \<and> length (pending bp) \<le> MAX_TXS_PER_BLOCK
    \<and> consecutive (w_block (world_of (kv s0))) blks
    \<and> w_block (world_of (kv s)) = w_block (world_of (kv s0)) + word_of_nat (length blks)"
proof -
  note inv = conjunct2 [OF producer_run_inv [OF redis server_okI [OF redis up wf] run]]
  then obtain parts where parts: "concat parts @ pending bp = acc" "list_all2 block_of parts (zip blks granted)"
    and len: "length granted = length blks"
    by (auto simp: producer_inv_def)
  have "length parts = length blks" "\<forall>i < length blks. block_of (parts ! i) (blks ! i, granted ! i)"
    using parts(2) len by (auto simp: list_all2_conv_all_nth)
  moreover have "concat (map block_hashes blks) @ pending bp = acc" if "False \<notin> set granted"
    using granted_blocks [OF parts(2) len that] parts(1) by simp
  moreover have "length (pending bp) \<le> MAX_TXS_PER_BLOCK"
    using inv length_pending [of bp] by (simp add: producer_inv_def bp_inv_def)
  ultimately show ?thesis using inv parts(1) len by (auto simp: block_of_def producer_inv_def intro!: exI [of _ parts])
qed

text \<open>Transactions that arrive one after the other.\<close>

fun add_all :: "evmdb_block_producer \<Rightarrow> (evmdb_tx \<times> evmdb_receipt) list \<Rightarrow> evmdb_block_producer" where
  "add_all bp [] = bp"
| "add_all bp ((tx, r) # txs) = add_all (snd (evmdb_block_producer_add_tx bp tx r)) txs"

lemma add_all_grows:
  assumes "unat (bp_pending_gas_used bp) + sum_list (map (\<lambda>x. unat (rec_gas_used (snd x))) txs) < 2 ^ 64"
  shows "bp_pending_tx_count bp \<le> bp_pending_tx_count (add_all bp txs)
    \<and> bp_pending_gas_used bp \<le> bp_pending_gas_used (add_all bp txs)
    \<and> bp_gas_limit (add_all bp txs) = bp_gas_limit bp \<and> bp_block_time_ms (add_all bp txs) = bp_block_time_ms bp
    \<and> bp_pending_start_ms (add_all bp txs) = bp_pending_start_ms bp"
  using assms
proof (induction bp txs rule: add_all.induct)
  case (2 bp tx r txs)
  let ?bp = "snd (evmdb_block_producer_add_tx bp tx r)"
  have sum: "unat (bp_pending_gas_used bp + rec_gas_used r) = unat (bp_pending_gas_used bp) + unat (rec_gas_used r)"
    using 2(2) by (intro unat_add_lem [THEN iffD1]) simp
  then have "bp_pending_tx_count bp \<le> bp_pending_tx_count ?bp" "bp_pending_gas_used bp \<le> bp_pending_gas_used ?bp"
    "bp_gas_limit ?bp = bp_gas_limit bp" "bp_block_time_ms ?bp = bp_block_time_ms bp"
    "bp_pending_start_ms ?bp = bp_pending_start_ms bp"
    "unat (bp_pending_gas_used ?bp) \<le> unat (bp_pending_gas_used bp) + unat (rec_gas_used r)"
    by (auto simp: evmdb_block_producer_add_tx_def word_le_nat_alt)
  with 2 show ?case by auto
qed simp

text \<open>
  C23: the producer makes progress. A pool that refuses a transaction is due for sealing at every
  reading of the clock, and once it is sealed, whether or not its block gets an array, the same transaction
  is accepted. A pool that is due stays due until it is sealed: at every later reading of the monotonic
  clock and after every further sequence of arrivals, accepted or refused, as long as the sum of
  their gas stays below 2^64. (Beyond that the 64-bit sum wraps and a pool that was due for its gas may
  no longer be.)
\<close>

theorem producer_progress:
  assumes redis: "redis_server rc kv up" and up: "up s0" and wf: "wf_db (kv s0)"
    and run: "producer_run rc s0 bp s acc blks granted"
  shows "(evmdb_block_producer_add_tx bp tx r = (-1, bp) \<longrightarrow>
        (\<forall>now. evmdb_block_producer_should_seal bp now)
        \<and> (\<exists>blk bp' s' bp''. evmdb_block_producer_seal al rc time now' bp s = (0, blk, bp', s')
            \<and> evmdb_block_producer_add_tx bp' tx r = (0, bp'') \<and> pending bp'' = [tx_hash tx]))
    \<and> (\<forall>now txs later. evmdb_block_producer_should_seal bp now \<and> bp_pending_start_ms bp \<le> now \<and> now \<le> later
        \<and> unat (bp_pending_gas_used bp) + sum_list (map (\<lambda>x. unat (rec_gas_used (snd x))) txs) < 2 ^ 64
        \<longrightarrow> evmdb_block_producer_should_seal (add_all bp txs) later)"
proof -
  from producer_run_inv [OF redis server_okI [OF redis up wf] run]
  have inv: "bp_inv bp" "redis_server.ok kv up s" by (simp_all add: producer_inv_def)
  obtain rcode blk bp' s' where st: "evmdb_block_producer_seal al rc time now' bp s = (rcode, blk, bp', s')"
    by (metis prod_cases4)
  note sealed = redis_server.seal_pending [OF redis inv st]
  obtain c bp'' where add: "evmdb_block_producer_add_tx bp' tx r = (c, bp'')" by (metis surj_pair)
  have "c = 0 \<and> pending bp'' = [tx_hash tx]"
    using add_tx_pending [OF _ add] sealed by (auto simp: MAX_TXS_PER_BLOCK_def)
  moreover have "evmdb_block_producer_should_seal bp now" if "evmdb_block_producer_add_tx bp tx r = (-1, bp)" for now
    using that by (auto simp: evmdb_block_producer_add_tx_def evmdb_block_producer_should_seal_def
        MAX_TXS_PER_BLOCK_def split: if_splits)
  moreover have "evmdb_block_producer_should_seal (add_all bp txs) later"
    if "evmdb_block_producer_should_seal bp now" "bp_pending_start_ms bp \<le> now" "now \<le> later"
      "unat (bp_pending_gas_used bp) + sum_list (map (\<lambda>x. unat (rec_gas_used (snd x))) txs) < 2 ^ 64" for now txs later
  proof -
    have "now - bp_pending_start_ms bp \<le> later - bp_pending_start_ms bp"
      using that(2,3) by (simp add: word_le_nat_alt unat_sub [unfolded word_le_nat_alt])
    with add_all_grows [OF that(4)] that(1) show ?thesis
      by (auto simp: evmdb_block_producer_should_seal_def split: if_splits)
  qed
  ultimately show ?thesis using st sealed add by auto
qed

definition sample_pool :: "evmdb_block_producer" where
  "sample_pool = \<lparr>bp_coinbase = zero_address, bp_gas_limit = 30000000, bp_block_time_ms = 2000,
     bp_pending_tx_hashes = replicate MAX_TXS_PER_BLOCK zero_bytes32, bp_pending_tx_count = 0,
     bp_pending_gas_used = 0, bp_pending_start_ms = 5000\<rparr>"

definition sample_receipt :: evmdb_receipt where
  "sample_receipt = \<lparr>rec_tx_hash = zero_bytes32, rec_tx_index = 0, rec_block_number = 0, rec_block_hash = zero_bytes32,
     rec_from = zero_address, rec_to = zero_address, rec_gas_used = 21000, rec_cumulative_gas = 21000,
     rec_status = True, rec_logs = [], rec_return_data = []\<rparr>"

definition sample_pool1 :: "evmdb_block_producer" where
  "sample_pool1 = snd (evmdb_block_producer_add_tx sample_pool zero_tx sample_receipt)"

lemma sample_producer_run: "producer_run redis_mem sample_db sample_pool1 sample_db [zero_bytes32] [] []"
proof -
  have "producer_run redis_mem sample_db sample_pool sample_db [] [] []"
    by (rule producer_run.start [of "\<lambda>_. True" 5000 zero_address 30000000 2000])
      (simp add: evmdb_block_producer_create_def sample_pool_def)
  from producer_run.accept [OF this, of zero_tx sample_receipt sample_pool1] show ?thesis
    by (simp add: sample_pool1_def evmdb_block_producer_add_tx_def sample_pool_def MAX_TXS_PER_BLOCK_def zero_tx_def)
qed

lemma sample_should_seal: "evmdb_block_producer_should_seal sample_pool1 7000"
  by (simp add: evmdb_block_producer_should_seal_def sample_pool1_def evmdb_block_producer_add_tx_def sample_pool_def
      MAX_TXS_PER_BLOCK_def)

text \<open>The pool of one transaction is sealed with a granted and with a refused allocation.\<close>

theorem producer_invariant_witness:
  "(\<exists>blk bp s. evmdb_block_producer_seal (\<lambda>_. True) redis_mem 0 7000 sample_pool1 sample_db = (0, blk, bp, s)
      \<and> blk_tx_hashes blk = Some [zero_bytes32] \<and> pending bp = [])
   \<and> (\<exists>blk bp s. evmdb_block_producer_seal (\<lambda>_. False) redis_mem 0 7000 sample_pool1 sample_db = (0, blk, bp, s)
      \<and> blk_tx_hashes blk = None \<and> blk_tx_count blk = 1 \<and> pending bp = [])"
proof -
  have "\<exists>blk bp s. evmdb_block_producer_seal (\<lambda>_. g) redis_mem 0 7000 sample_pool1 sample_db = (0, blk, bp, s)
      \<and> blk_tx_hashes blk = (if g then Some [zero_bytes32] else None) \<and> blk_tx_count blk = 1 \<and> pending bp = []" for g
  proof -
    obtain r blk bp s where st: "evmdb_block_producer_seal (\<lambda>_. g) redis_mem 0 7000 sample_pool1 sample_db = (r, blk, bp, s)"
      by (metis prod_cases4)
    then have r: "r = 0" "pending bp = []" by (auto simp: evmdb_block_producer_seal_def pending_def Let_def split: prod.splits)
    from producer_invariant [OF redis_mem.redis_server_axioms, OF _ wf_sample_db
        producer_run.seal [OF sample_producer_run sample_should_seal st]] r(2)
    obtain parts where "concat parts = [zero_bytes32]" "length parts = 1"
      "blk_tx_count blk = length (parts ! 0)" "blk_tx_hashes blk = (if g then Some (parts ! 0) else None)"
      by auto
    moreover from this have "parts ! 0 = [zero_bytes32]" by (cases parts) auto
    ultimately show ?thesis using st r by auto
  qed
  from this [of True] this [of False] show ?thesis by fastforce
qed

theorem producer_progress_witness:
  "evmdb_block_producer_should_seal (add_all sample_pool1 [(zero_tx, sample_receipt)]) 8000"
proof -
  have "\<forall>now txs later. evmdb_block_producer_should_seal sample_pool1 now \<and> bp_pending_start_ms sample_pool1 \<le> now
      \<and> now \<le> later \<and> unat (bp_pending_gas_used sample_pool1)
          + sum_list (map (\<lambda>x. unat (rec_gas_used (snd x))) txs) < 2 ^ 64
      \<longrightarrow> evmdb_block_producer_should_seal (add_all sample_pool1 txs) later"
    by (rule conjunct2 [OF producer_progress [OF redis_mem.redis_server_axioms, OF _ wf_sample_db sample_producer_run]]) simp
  from this [rule_format, of 7000 8000 "[(zero_tx, sample_receipt)]"] sample_should_seal show ?thesis
    by (simp add: sample_pool1_def evmdb_block_producer_add_tx_def sample_pool_def sample_receipt_def MAX_TXS_PER_BLOCK_def)
qed

end
