(* ===== verification/Evm_Json.thy ===== *)
theory Evm_Json
  imports Evm_Clib
begin

text \<open>
  The JSON-RPC request reader, \<^verbatim>\<open>src/rpc/json.c\<close>.

  A \<open>const char *\<close> into the request is the rest of the request from that position, without the
  terminating NUL; dereferencing it is \<open>peek\<close>, so that the end of the text reads as NUL. An out
  buffer is the C string it holds, and the size that the caller passes bounds what is written.
  The theorems state that every output fits its buffer and that the reader finds method, id and
  parameters of a well-formed request.
\<close>

subsection \<open>Reading characters\<close>

definition peek :: "string \<Rightarrow> char" where
  "peek pos = (case pos of [] \<Rightarrow> NUL | c # _ \<Rightarrow> c)"

definition is_colon_space :: "char \<Rightarrow> bool" where
  "is_colon_space c \<longleftrightarrow> c = CHR '' '' \<or> c = CHR '':'' \<or> c = CHR 0x09"

definition is_item_space :: "char \<Rightarrow> bool" where
  "is_item_space c \<longleftrightarrow> c = CHR '' '' \<or> c = CHR '','' \<or> c = CHR 0x09 \<or> c = CHR 0x0A \<or> c = CHR 0x0D"

text \<open>The loops \<open>while (*pos && *pos != '"' && i < limit) out[i++] = *pos++\<close>: what they copy, and where
  they stop. The second argument is the room that is left.\<close>

fun copy_while :: "(char \<Rightarrow> bool) \<Rightarrow> nat \<Rightarrow> string \<Rightarrow> string \<times> string" where
  "copy_while p room [] = ([], [])"
| "copy_while p room (c # cs) =
     (if p c \<and> 0 < room then (case copy_while p (room - 1) cs of (out, rest) \<Rightarrow> (c # out, rest))
      else ([], c # cs))"

definition not_quote :: "char \<Rightarrow> bool" where
  "not_quote c \<longleftrightarrow> c \<noteq> CHR 0x22"

subsection \<open>Method and id\<close>

definition json_find_string :: "string \<Rightarrow> string \<Rightarrow> string option" where
  "json_find_string json key =
     (let search = snprintf 128 ([CHR 0x22] @ key @ [CHR 0x22])
      in case strstr json search of
           None \<Rightarrow> None
         | Some pos \<Rightarrow>
             (let pos = dropWhile is_colon_space (drop (length search) pos)
              in if peek pos \<noteq> CHR 0x22 then None else Some pos))"

definition json_extract_string :: "string \<Rightarrow> string \<Rightarrow> string \<Rightarrow> nat \<Rightarrow> int \<times> string" where
  "json_extract_string json key out out_len =
     (case json_find_string json key of
        None \<Rightarrow> (-1, out)
      | Some pos \<Rightarrow> (0, fst (copy_while not_quote (out_len - 1) (drop 1 pos))))"

definition id_char :: "char \<Rightarrow> bool" where
  "id_char c \<longleftrightarrow> isdigit c \<or> c = CHR ''-''"

text \<open>The closing quote of a string id is written by the code even when the text has none.\<close>

definition json_extract_id :: "string \<Rightarrow> nat \<Rightarrow> int \<times> string" where
  "json_extract_id json out_len =
     (let search = [CHR 0x22] @ ''id'' @ [CHR 0x22]
      in case strstr json search of
           None \<Rightarrow> (0, take out_len ''1'')
         | Some pos \<Rightarrow>
             (let pos = dropWhile is_colon_space (drop (length search) pos)
              in if peek pos = CHR 0x22
                 then (0, [CHR 0x22] @ fst (copy_while not_quote (out_len - 2 - 1) (drop 1 pos)) @ [CHR 0x22])
                 else (0, fst (copy_while id_char (out_len - 1) pos))))"

definition evmdb_json_parse_method ::
  "string \<Rightarrow> string \<Rightarrow> nat \<Rightarrow> nat \<Rightarrow> int \<times> string \<times> string" where
  "evmdb_json_parse_method json meth method_len id_len =
     (0, snd (json_extract_string json ''method'' meth method_len), snd (json_extract_id json id_len))"

subsection \<open>Parameters\<close>

text \<open>\<open>while (*pos && depth > 0)\<close>: behind the brace that closes the object.\<close>

fun skip_object :: "int \<Rightarrow> string \<Rightarrow> string" where
  "skip_object depth [] = []"
| "skip_object depth (c # cs) =
     (if depth > 0
      then skip_object (if c = CHR 0x7B then depth + 1 else if c = CHR 0x7D then depth - 1 else depth) cs
      else c # cs)"

definition not_delimiter :: "char \<Rightarrow> bool" where
  "not_delimiter c \<longleftrightarrow> c \<noteq> CHR '','' \<and> c \<noteq> CHR '']''"

text \<open>One parameter at \<open>pos\<close>: the entry of \<open>params\<close> that is written, if any, and the position behind it.\<close>

definition parse_param :: "string \<Rightarrow> string option \<times> string" where
  "parse_param pos =
     (if peek pos = CHR 0x22 then
        (case copy_while not_quote 255 (drop 1 pos) of
           (out, pos) \<Rightarrow> (Some out, if peek pos = CHR 0x22 then drop 1 pos else pos))
      else if peek pos = CHR 0x7B then
        (Some ([CHR 0x7B] @ ''object'' @ [CHR 0x7D]), skip_object 1 (drop 1 pos))
      else if isdigit (peek pos) \<or> peek pos = CHR ''-'' then
        (case copy_while not_delimiter 255 pos of (out, pos) \<Rightarrow> (Some out, pos))
      else (None, dropWhile not_delimiter pos))"

text \<open>
  The caller's array has at least \<open>max_params\<close> entries, as in \<^verbatim>\<open>src/rpc/handlers.c\<close>; for a shorter one the
  code would write behind it, where the list update below does nothing.
\<close>

function params_loop :: "string \<Rightarrow> string list \<Rightarrow> nat \<Rightarrow> nat \<Rightarrow> nat \<times> string list" where
  "params_loop pos params count max_params =
     (if pos = [] \<or> peek pos = CHR '']'' \<or> \<not> count < max_params then (count, params)
      else
        (let pos = dropWhile is_item_space pos
         in if peek pos = CHR '']'' then (count, params)
            else (case parse_param pos of
                    (w, pos) \<Rightarrow>
                      params_loop pos (case w of Some p \<Rightarrow> params[count := p] | None \<Rightarrow> params)
                        (count + 1) max_params)))"
  by pat_completeness auto
termination
  by (relation "measure (\<lambda>(pos, params, count, max_params). max_params - count)") auto

declare params_loop.simps [simp del]

text \<open>\<open>find_params_array\<close> of \<^verbatim>\<open>src/rpc/handlers.c\<close> is the same search for the opening bracket.\<close>

definition evmdb_json_parse_params :: "string \<Rightarrow> string list \<Rightarrow> nat \<Rightarrow> nat \<times> string list" where
  "evmdb_json_parse_params json params max_params =
     (case strstr json ([CHR 0x22] @ ''params'' @ [CHR 0x22]) of
        None \<Rightarrow> (0, params)
      | Some pos \<Rightarrow>
          (let pos = dropWhile is_colon_space (drop 8 pos)
           in if peek pos \<noteq> CHR ''['' then (0, params)
              else params_loop (drop 1 pos) params 0 max_params))"

subsection \<open>What fits the buffers\<close>

lemma copy_while_eq:
  "copy_while p room s = (take room (takeWhile p s), drop (length (take room (takeWhile p s))) s)"
proof (induction s arbitrary: room)
  case (Cons c cs)
  then show ?case by (cases room) auto
qed simp

lemma length_copy_while: "length (fst (copy_while p room s)) \<le> room"
  by (simp add: copy_while_eq)

lemma parse_param_short: "parse_param pos = (Some p, rest) \<Longrightarrow> length p < 256"
  by (auto simp: parse_param_def copy_while_eq split: if_splits)

definition short_params :: "string list \<Rightarrow> bool" where
  "short_params params \<longleftrightarrow> (\<forall>p \<in> set params. length p < 256)"

lemma short_params_update: "short_params params \<Longrightarrow> length p < 256 \<Longrightarrow> short_params (params[i := p])"
  using set_update_subset_insert [of params i p] by (auto simp: short_params_def)

lemma params_loop_inv:
  assumes "short_params params" and "count \<le> max_params"
  shows "case params_loop pos params count max_params of
    (n, out) \<Rightarrow> count \<le> n \<and> n \<le> max_params \<and> length out = length params \<and> short_params out"
  using assms
proof (induction pos params count max_params rule: params_loop.induct)
  case (1 pos params count max_params)
  let ?pos = "dropWhile is_item_space pos"
  show ?case
  proof (cases "pos = [] \<or> peek pos = CHR '']'' \<or> \<not> count < max_params \<or> peek ?pos = CHR '']''")
    case True
    with "1.prems" show ?thesis by (subst params_loop.simps) auto
  next
    case False
    obtain w rest where p: "parse_param ?pos = (w, rest)" by (cases "parse_param ?pos")
    define ps where "ps = (case w of Some q \<Rightarrow> params[count := q] | None \<Rightarrow> params)"
    have "short_params ps" "length ps = length params"
      using "1.prems"(1) p parse_param_short
      by (auto simp: ps_def short_params_update split: option.split)
    with False p "1.prems" "1.IH" [OF _ refl _ p [symmetric]] show ?thesis
      by (subst params_loop.simps) (auto simp: ps_def [symmetric] split: prod.splits)
  qed
qed

subsection \<open>Finding keys\<close>

definition quoted :: "string \<Rightarrow> string" where
  "quoted s = [CHR 0x22] @ s @ [CHR 0x22]"

text \<open>A text with neither quote nor NUL.\<close>

definition plain :: "string \<Rightarrow> bool" where
  "plain s \<longleftrightarrow> list_all not_quote s \<and> NUL \<notin> set s"

lemma strstr_skip: "q \<notin> set pre \<Longrightarrow> strstr (pre @ rest) (q # r) = strstr rest (q # r)"
  by (induction pre) auto

lemma takeWhile_stop: "q \<notin> set m \<Longrightarrow> takeWhile (\<lambda>c. c \<noteq> q) (m @ q # rest) = m"
  by (induction m) auto

lemma quoted_prefix:
  assumes "q \<notin> set m" and "q \<notin> set k"
  shows "take (length k + 1) (m @ q # rest) = k @ [q] \<longleftrightarrow> m = k"
proof
  assume "take (length k + 1) (m @ q # rest) = k @ [q]"
  then have "m @ q # rest = k @ q # drop (length k + 1) (m @ q # rest)"
    by (metis append_Cons append_eq_append_conv2 append_take_drop_id self_append_conv2)
  with assms show "m = k" by (metis takeWhile_stop)
qed simp

lemma strstr_quoted:
  assumes "list_all not_quote m" and "list_all not_quote k"
  shows "strstr (quoted m @ rest) (quoted k)
    = (if m = k then Some (quoted m @ rest) else strstr (CHR 0x22 # rest) (quoted k))"
proof -
  have q: "CHR 0x22 \<notin> set m" "CHR 0x22 \<notin> set k"
    using assms by (auto simp: list_all_iff not_quote_def)
  have "take (length (quoted k)) (quoted m @ rest) = quoted k \<longleftrightarrow> m = k"
    using quoted_prefix [OF q, of rest] by (simp add: quoted_def)
  moreover have "strstr (m @ CHR 0x22 # rest) (quoted k) = strstr (CHR 0x22 # rest) (quoted k)"
    using strstr_skip [OF q(1)] by (simp add: quoted_def)
  ultimately show ?thesis by (simp add: quoted_def)
qed

text \<open>The quote that closes one string does not open a key when a delimiter follows.\<close>

lemma strstr_close:
  "k \<noteq> [] \<Longrightarrow> d \<noteq> hd k \<Longrightarrow> d \<noteq> CHR 0x22 \<Longrightarrow>
    strstr (CHR 0x22 # d # rest) (quoted k) = strstr rest (quoted k)"
  by (cases k) (auto simp: quoted_def)

subsection \<open>Well-formed requests\<close>

fun join_commas :: "string list \<Rightarrow> string" where
  "join_commas [] = []"
| "join_commas [x] = x"
| "join_commas (x # y # ys) = x @ '','' @ join_commas (y # ys)"

definition request_text :: "nat \<Rightarrow> string \<Rightarrow> string list \<Rightarrow> string" where
  "request_text n meth ps =
     [CHR 0x7B] @ quoted ''id'' @ '':'' @ print_base 10 n @ '','' @ quoted ''jsonrpc'' @ '':'' @ quoted ''2.0''
     @ '','' @ quoted ''method'' @ '':'' @ quoted meth @ '','' @ quoted ''params'' @ '':['' @
     join_commas (map quoted ps) @ '']'' @ [CHR 0x7D]"

lemma digits_plain:
  "list_all not_quote (print_base 10 n)" "list_all id_char (print_base 10 n)"
proof -
  have len: "length hex_chars = 16" by (simp add: hex_chars_def)
  have "hex_chars ! d \<in> set (take 10 hex_chars)" if "d < 10" for d
    using that nth_mem [of d "take 10 hex_chars"] len by simp
  then have "c \<in> set (print_base 10 n) \<Longrightarrow> c \<in> set (take 10 hex_chars)" for c
    using set_print_base [of 10 n] by auto
  moreover have "not_quote c" "id_char c" if "c \<in> set (take 10 hex_chars)" for c
    using that by (auto simp: hex_chars_def not_quote_def id_char_def isdigit_def)
  ultimately show "list_all not_quote (print_base 10 n)" "list_all id_char (print_base 10 n)"
    by (auto simp: list_all_iff)
qed

lemma takeWhile_all_stop: "list_all p m \<Longrightarrow> \<not> p c \<Longrightarrow> takeWhile p (m @ c # rest) = m"
  by (induction m) auto

lemma copy_quoted:
  "list_all not_quote m \<Longrightarrow> length m \<le> room \<Longrightarrow>
    copy_while not_quote room (m @ CHR 0x22 # rest) = (m, CHR 0x22 # rest)"
  by (simp add: copy_while_eq takeWhile_all_stop not_quote_def)

lemma extract_id_request:
  assumes "length (print_base 10 n) < id_len"
  shows "snd (json_extract_id (request_text n meth ps) id_len) = print_base 10 n"
proof -
  obtain c cs where p: "print_base 10 n = c # cs" by (cases "print_base 10 n") auto
  have "id_char c" using digits_plain(2) [of n] p by simp
  then have c: "\<not> is_colon_space c" "c \<noteq> CHR 0x22"
    by (auto simp: id_char_def isdigit_def is_colon_space_def)
  have w: "takeWhile id_char (c # cs @ CHR '','' # rest) = c # cs" for rest
    using takeWhile_all_stop [OF digits_plain(2) [of n], of "CHR '',''" rest] p
    by (simp add: id_char_def isdigit_def)
  have "\<exists>rest. strstr (request_text n meth ps) (quoted ''id'')
      = Some (quoted ''id'' @ '':'' @ c # cs @ CHR '','' # rest)"
    by (simp add: request_text_def quoted_def p)
  then obtain rest where "strstr (request_text n meth ps) (quoted ''id'')
      = Some (quoted ''id'' @ '':'' @ c # cs @ CHR '','' # rest)" ..
  then show ?thesis
    using c p w assms
    by (simp add: json_extract_id_def Let_def peek_def copy_while_eq is_colon_space_def [of "CHR '':''"] quoted_def)
qed

lemma request_find_method:
  "strstr (request_text n meth ps) (quoted ''method'')
    = Some (quoted ''method'' @ '':'' @ quoted meth @ '','' @ quoted ''params'' @ '':['' @
        join_commas (map quoted ps) @ '']'' @ [CHR 0x7D])"
proof -
  have "CHR 0x22 \<notin> set (print_base 10 n)"
    using digits_plain(1) by (auto simp: list_all_iff not_quote_def)
  then show ?thesis
    using strstr_skip [of "CHR 0x22" "print_base 10 n"]
    by (simp add: request_text_def quoted_def)
qed

lemma request_find_params:
  assumes "list_all not_quote meth" and "meth \<noteq> ''params''"
  shows "strstr (request_text n meth ps) (quoted ''params'')
    = Some (quoted ''params'' @ '':['' @ join_commas (map quoted ps) @ '']'' @ [CHR 0x7D])"
proof -
  have q: "CHR 0x22 \<notin> set (print_base 10 n)"
    using digits_plain(1) by (auto simp: list_all_iff not_quote_def)
  have m: "strstr (CHR 0x22 # meth @ CHR 0x22 # rest) (quoted ''params'') = strstr (CHR 0x22 # rest) (quoted ''params'')"
    for rest
    using strstr_quoted [OF assms(1), of "''params''" rest] assms(2)
    by (simp add: quoted_def not_quote_def)
  show ?thesis
    using strstr_skip [OF q, of _ "''params'' @ [CHR 0x22]"] m
    by (simp add: request_text_def quoted_def)
qed

text \<open>The parameters behind the first one, each with the comma in front of it.\<close>

definition more_params :: "string list \<Rightarrow> string" where
  "more_params ps = concat (map (\<lambda>p. '','' @ quoted p) ps)"

lemma join_commas_Cons: "join_commas (map quoted (p # ps)) = quoted p @ more_params ps"
  by (induction ps arbitrary: p) (simp_all add: more_params_def)

lemma params_loop_step:
  assumes "list_all is_item_space pre" and "plain p" and "length p \<le> 255"
    and "peek (pre @ quoted p @ rest) \<noteq> CHR '']''" and "count < max_params"
  shows "params_loop (pre @ quoted p @ rest) bufs count max_params
    = params_loop rest (bufs[count := p]) (count + 1) max_params"
proof -
  have d: "dropWhile is_item_space (pre @ quoted p @ rest) = quoted p @ rest"
    using assms(1) by (simp add: dropWhile_append list_all_iff quoted_def is_item_space_def)
  have "parse_param (quoted p @ rest) = (Some p, rest)"
    using assms(2,3) by (simp add: parse_param_def peek_def quoted_def copy_quoted plain_def)
  with assms d show ?thesis
    by (subst params_loop.simps) (simp add: quoted_def peek_def)
qed

lemma params_loop_end: "params_loop (CHR '']'' # rest) bufs count max_params = (count, bufs)"
  by (subst params_loop.simps) (simp add: peek_def)

lemma fill_step:
  "i < length xs \<Longrightarrow> take (Suc i) (xs[i := x]) @ ys @ drop (Suc (i + k)) (xs[i := x])
    = take i xs @ (x # ys) @ drop (Suc (i + k)) xs"
  by (simp add: take_Suc_conv_app_nth)

lemma params_loop_list:
  assumes "list_all (\<lambda>p. plain p \<and> length p \<le> 255) (p # ps)" and "list_all is_item_space pre"
    and "count + length (p # ps) \<le> max_params" and "max_params \<le> length bufs"
  shows "params_loop (pre @ quoted p @ more_params ps @ CHR '']'' # rest) bufs count max_params
    = (count + length (p # ps), take count bufs @ (p # ps) @ drop (count + length (p # ps)) bufs)"
  using assms
proof (induction ps arbitrary: p pre count bufs)
  case Nil
  have "peek (pre @ quoted p @ CHR '']'' # rest) \<noteq> CHR '']''"
    using Nil.prems(2) by (cases pre) (auto simp: peek_def quoted_def is_item_space_def)
  with Nil show ?case
    by (simp add: more_params_def params_loop_step params_loop_end upd_conv_take_nth_drop)
next
  case (Cons q qs)
  let ?rest = "'','' @ quoted q @ more_params qs @ CHR '']'' # rest"
  have "peek (pre @ quoted p @ ?rest) \<noteq> CHR '']''"
    using Cons.prems(2) by (cases pre) (auto simp: peek_def quoted_def is_item_space_def)
  then have "params_loop (pre @ quoted p @ ?rest) bufs count max_params
      = params_loop ?rest (bufs[count := p]) (count + 1) max_params"
    using Cons.prems by (intro params_loop_step) auto
  also have "\<dots> = (count + 1 + length (q # qs), take (count + 1) (bufs[count := p]) @ (q # qs)
      @ drop (count + 1 + length (q # qs)) (bufs[count := p]))"
    using Cons.prems by (intro Cons.IH) (auto simp: is_item_space_def)
  finally show ?case
    using Cons.prems fill_step [of count bufs p "q # qs" "length (q # qs)"]
    by (simp add: more_params_def)
qed

lemma parse_params_request:
  assumes "plain meth" and "meth \<noteq> ''params''" and "list_all (\<lambda>p. plain p \<and> length p \<le> 255) ps"
    and "length ps \<le> max_params" and "max_params \<le> length bufs"
  shows "evmdb_json_parse_params (request_text n meth ps) bufs max_params
    = (length ps, ps @ drop (length ps) bufs)"
proof -
  have "evmdb_json_parse_params (request_text n meth ps) bufs max_params
      = params_loop (join_commas (map quoted ps) @ '']'' @ [CHR 0x7D]) bufs 0 max_params"
    using request_find_params [of meth n ps] assms(1,2)
    by (simp add: evmdb_json_parse_params_def quoted_def plain_def is_colon_space_def peek_def)
  also have "\<dots> = (length ps, ps @ drop (length ps) bufs)"
  proof (cases ps)
    case Nil
    then show ?thesis by (simp add: params_loop_end)
  next
    case (Cons p qs)
    with assms show ?thesis
      using params_loop_list [of p qs "[]" 0 max_params bufs "[CHR 0x7D]"]
      by (simp add: join_commas_Cons [simplified])
  qed
  finally show ?thesis .
qed

lemma parse_method_request:
  assumes "plain meth" and "length meth < method_len" and "length (print_base 10 n) < id_len"
  shows "evmdb_json_parse_method (request_text n meth ps) old method_len id_len
    = (0, meth, print_base 10 n)"
proof -
  have "snd (json_extract_string (request_text n meth ps) ''method'' old method_len) = meth"
    using assms(1,2) request_find_method [of n meth ps]
    by (simp add: json_extract_string_def json_find_string_def snprintf_def quoted_def is_colon_space_def
        peek_def copy_quoted plain_def)
  with extract_id_request [OF assms(3)] show ?thesis
    by (simp add: evmdb_json_parse_method_def)
qed

subsection \<open>Properties\<close>

text \<open>
  C25: the request reader inverts the request printer. For a request with a numeric id, a method name
  and string parameters without quotes, each short enough for its buffer, the reader returns exactly
  the method, the digits of the id, the number of parameters and the parameters themselves in the
  first entries of the array, whose other entries keep their contents.
\<close>

theorem json_request_roundtrip:
  assumes "plain meth" and "meth \<noteq> ''params''" and "length meth < method_len"
    and "length (print_base 10 n) < id_len"
    and "list_all (\<lambda>p. plain p \<and> length p \<le> 255) ps"
    and "length ps \<le> max_params" and "max_params \<le> length bufs"
  shows "evmdb_json_parse_method (request_text n meth ps) old method_len id_len = (0, meth, print_base 10 n)
    \<and> evmdb_json_parse_params (request_text n meth ps) bufs max_params
      = (length ps, ps @ drop (length ps) bufs)"
  using parse_method_request [OF assms(1,3,4)] parse_params_request [OF assms(1,2,5-7)] by simp_all

theorem json_request_roundtrip_witness:
  "evmdb_json_parse_method (request_text 7 ''eth_getBalance'' [''0xab'', ''latest'']) [] 64 32
     = (0, ''eth_getBalance'', ''7'')
   \<and> evmdb_json_parse_params (request_text 7 ''eth_getBalance'' [''0xab'', ''latest'']) (replicate 8 []) 8
     = (2, [''0xab'', ''latest'', [], [], [], [], [], []])"
proof -
  have "print_base 10 7 = ''7''" by (subst print_base.simps) (simp add: hex_chars_def)
  then show ?thesis
    using json_request_roundtrip [where meth = "''eth_getBalance''" and method_len = 64 and n = 7
        and id_len = 32 and ps = "[''0xab'', ''latest'']" and max_params = 8 and bufs = "replicate 8 []" and old = "[]"]
    by (simp add: plain_def not_quote_def NUL_def numeral_eq_Suc)
qed

text \<open>
  C26: whatever the request text is, what the reader writes fits the buffers of its caller: the method
  with its terminator in \<open>method_len\<close> bytes, the id in \<open>id_len\<close> bytes, every parameter in 256 bytes, and
  the parameter count never exceeds the maximum that was passed.
\<close>

theorem json_outputs_fit:
  assumes "length old < method_len" and "3 \<le> id_len" and "list_all (\<lambda>p. length p < 256) bufs"
  shows "(case evmdb_json_parse_method json old method_len id_len of
      (rc, meth, i) \<Rightarrow> rc = 0 \<and> length meth < method_len \<and> length i < id_len)
    \<and> (case evmdb_json_parse_params json bufs max_params of
      (count, out) \<Rightarrow> count \<le> max_params \<and> length out = length bufs \<and> list_all (\<lambda>p. length p < 256) out)"
proof -
  have "length (snd (json_extract_string json ''method'' old method_len)) < method_len"
    using assms(1)
    by (auto simp: json_extract_string_def copy_while_eq min_def split: option.split)
  moreover have "length (snd (json_extract_id json id_len)) < id_len"
    using assms(2) by (auto simp: json_extract_id_def Let_def copy_while_eq min_def split: option.split)
  moreover have "case evmdb_json_parse_params json bufs max_params of
      (count, out) \<Rightarrow> count \<le> max_params \<and> length out = length bufs \<and> list_all (\<lambda>p. length p < 256) out"
    using params_loop_inv [of bufs 0 max_params] assms(3)
    by (auto simp: evmdb_json_parse_params_def Let_def short_params_def list_all_iff split: option.split prod.splits)
  ultimately show ?thesis by (simp add: evmdb_json_parse_method_def)
qed

definition sample_request :: string where
  "sample_request = [CHR 0x7B, CHR 0x22] @ ''params'' @ [CHR 0x22] @ '':[''"

theorem json_outputs_fit_witness:
  "(case evmdb_json_parse_method sample_request [] 64 32 of
      (rc, meth, i) \<Rightarrow> rc = 0 \<and> length meth < 64 \<and> length i < 32)
   \<and> (case evmdb_json_parse_params sample_request (replicate 8 []) 8 of
      (count, out) \<Rightarrow> count \<le> 8 \<and> length out = length (replicate 8 ([] :: string)) \<and> list_all (\<lambda>p. length p < 256) out)"
  by (rule json_outputs_fit) (simp_all add: numeral_eq_Suc)

end
