(* ===== verification/Evm_Handlers.thy ===== *)
theory Evm_Handlers
  imports Evm_Exec Evm_Json
begin

text \<open>
  The JSON-RPC methods and the dispatcher, \<^verbatim>\<open>src/rpc/handlers.c\<close>.

  A handler returns the response text, \<open>None\<close> for the null pointer that a refused allocation leaves,
  and the next state; a read outside a buffer or through a null pointer is \<open>Inl OutOfBounds\<close>. Texts
  are given without their terminating NUL. What the code gets from outside is in \<open>rpc_env\<close>: allocator,
  Redis and evmone (\<open>re_exec\<close>), libsecp256k1 (\<open>re_secp\<close>) and the clock (\<open>re_time\<close>). Log messages are not
  modelled.
\<close>

record ('r, 'sig, 'pk) rpc_env =
  re_exec :: "'r exec_env"
  re_secp :: "('sig, 'pk) secp256k1"
  re_time :: "'r \<Rightarrow> u64"

text \<open>The state that \<open>rpc->state\<close> points to is threaded through the definitions.\<close>

record evmdb_rpc =
  rpc_evm :: "evmdb_evm option"
  rpc_chain_id :: u64
  rpc_gas_limit :: u64
  rpc_base_fee :: u64
  rpc_server_fd :: int
  rpc_running :: int

type_synonym 'r response = "(string option \<times> 'r) cres"

abbreviation re_alloc :: "('r, 'sig, 'pk) rpc_env \<Rightarrow> nat \<Rightarrow> bool" where
  "re_alloc env \<equiv> env_alloc (re_exec env)"

abbreviation re_redis :: "('r, 'sig, 'pk) rpc_env \<Rightarrow> 'r redis" where
  "re_redis env \<equiv> env_redis (re_exec env)"

subsection \<open>Building responses\<close>

text \<open>\<open>%d\<close>.\<close>

definition print_int :: "int \<Rightarrow> string" where
  "print_int i = (if i < 0 then CHR ''-'' # print_base 10 (nat (- i)) else print_base 10 (nat i))"

definition make_response :: "(nat \<Rightarrow> bool) \<Rightarrow> string \<Rightarrow> string \<Rightarrow> string option" where
  "make_response alloc i result =
     (let len = length i + length result + 64
      in if alloc len
         then Some (snprintf len ([CHR 0x7B] @ quoted ''jsonrpc'' @ '':'' @ quoted ''2.0'' @ '','' @ quoted ''id'' @ '':''
                @ i @ '','' @ quoted ''result'' @ '':'' @ result @ [CHR 0x7D]))
         else None)"

definition make_error :: "(nat \<Rightarrow> bool) \<Rightarrow> string \<Rightarrow> int \<Rightarrow> string \<Rightarrow> string option" where
  "make_error alloc i code message =
     (let len = length i + length message + 128
      in if alloc len
         then Some (snprintf len ([CHR 0x7B] @ quoted ''jsonrpc'' @ '':'' @ quoted ''2.0'' @ '','' @ quoted ''id'' @ '':''
                @ i @ '','' @ quoted ''error'' @ '':'' @ [CHR 0x7B] @ quoted ''code'' @ '':'' @ print_int code @ '',''
                @ quoted ''message'' @ '':'' @ quoted message @ [CHR 0x7D, CHR 0x7D]))
         else None)"

definition find_params_array :: "string \<Rightarrow> string option" where
  "find_params_array request =
     (case strstr request (quoted ''params'') of
        None \<Rightarrow> None
      | Some pos \<Rightarrow>
          (let pos = dropWhile is_colon_space (drop 8 pos)
           in if peek pos \<noteq> CHR ''['' then None else Some (drop 1 pos)))"

definition extract_quoted_string :: "(nat \<Rightarrow> bool) \<Rightarrow> string option \<Rightarrow> string option" where
  "extract_quoted_string alloc pos =
     (case pos of
        None \<Rightarrow> None
      | Some pos \<Rightarrow>
          if peek pos \<noteq> CHR 0x22 then None
          else
            (let pos = drop 1 pos; body = takeWhile not_quote pos
             in if peek (drop (length body) pos) \<noteq> CHR 0x22 then None
                else if alloc (length body + 1) then Some body else None))"

definition extract_first_param_string :: "(nat \<Rightarrow> bool) \<Rightarrow> string \<Rightarrow> string option" where
  "extract_first_param_string alloc request =
     (case find_params_array request of
        None \<Rightarrow> None
      | Some pos \<Rightarrow> extract_quoted_string alloc (Some (dropWhile is_item_space pos)))"

definition extract_param_field_string :: "(nat \<Rightarrow> bool) \<Rightarrow> string \<Rightarrow> string \<Rightarrow> string option" where
  "extract_param_field_string alloc request key =
     (case find_params_array request of
        None \<Rightarrow> None
      | Some params \<Rightarrow>
          (let search = snprintf 64 (quoted key)
           in case strstr params search of
                None \<Rightarrow> None
              | Some pos \<Rightarrow>
                  extract_quoted_string alloc (Some (dropWhile is_colon_space (drop (length search) pos)))))"

definition intrinsic_gas_for_data :: "bytes \<Rightarrow> u64" where
  "intrinsic_gas_for_data data = foldl (\<lambda>gas b. gas + (if b = 0 then 4 else 16)) 21000 data"

text \<open>
  Decoding into a fresh block of \<open>n\<close> bytes. The block is uninitialised, but only the bytes that were
  decoded are used.
\<close>

definition decode_fresh :: "string \<Rightarrow> nat \<Rightarrow> int \<times> bytes" where
  "decode_fresh hex n =
     (case evmdb_hex_decode (Some hex) (replicate n 0) n of (rc, out) \<Rightarrow> (rc, take (nat rc) out))"

definition decode_hex_bytes :: "(nat \<Rightarrow> bool) \<Rightarrow> string option \<Rightarrow> int \<times> bytes" where
  "decode_hex_bytes alloc hex =
     (case hex of
        None \<Rightarrow> (0, [])
      | Some hex \<Rightarrow>
          (let max_bytes = length hex div 2
           in if max_bytes = 0 then (0, [])
              else if \<not> alloc max_bytes then (-1, [])
              else (case decode_fresh hex max_bytes of
                      (byte_len, data) \<Rightarrow> if byte_len < 0 then (-1, []) else (0, data))))"

definition parse_hex_uint64_or :: "string option \<Rightarrow> u64 \<Rightarrow> u64" where
  "parse_hex_uint64_or val fallback =
     (case val of None \<Rightarrow> fallback | Some v \<Rightarrow> if v = [] then fallback else strtoull 0 v)"

definition make_block_context ::
  "('r, 'sig, 'pk) rpc_env \<Rightarrow> evmdb_rpc \<Rightarrow> 'r \<Rightarrow> evmdb_block_context \<times> 'r" where
  "make_block_context env rpc s =
     (let (block_num, s) = evmdb_state_get_block_number (re_redis env) s
      in (\<lparr>bc_number = block_num, bc_timestamp = re_time env s, bc_coinbase = zero_address,
           bc_gas_limit = rpc_gas_limit rpc, bc_base_fee = rpc_base_fee rpc, bc_chain_id = rpc_chain_id rpc\<rparr>, s))"

subsection \<open>Numbers and constants\<close>

text \<open>\<open>char hex[32]\<close> and \<open>char result[64]\<close>: a 64-bit number in quotes. The buffer of 32 bytes always suffices.\<close>

definition u64_hex :: "u64 \<Rightarrow> string" where
  "u64_hex v = (case evmdb_hex_from_uint64 v 32 of Some h \<Rightarrow> h | None \<Rightarrow> [])"

definition hex_buf :: "bytes \<Rightarrow> size_t \<Rightarrow> string" where
  "hex_buf bs n = (case evmdb_hex_encode bs n of Some h \<Rightarrow> h | None \<Rightarrow> [])"

definition respond_u64 :: "(nat \<Rightarrow> bool) \<Rightarrow> string \<Rightarrow> u64 \<Rightarrow> string option" where
  "respond_u64 alloc i v = make_response alloc i (snprintf 64 (quoted (u64_hex v)))"

definition handle_chain_id :: "('r, 'sig, 'pk) rpc_env \<Rightarrow> evmdb_rpc \<Rightarrow> string \<Rightarrow> string option" where
  "handle_chain_id env rpc i = respond_u64 (re_alloc env) i (rpc_chain_id rpc)"

definition handle_block_number ::
  "('r, 'sig, 'pk) rpc_env \<Rightarrow> 'r \<Rightarrow> string \<Rightarrow> string option \<times> 'r" where
  "handle_block_number env s i =
     (let (num, s) = evmdb_state_get_block_number (re_redis env) s
      in (respond_u64 (re_alloc env) i num, s))"

definition handle_gas_price :: "('r, 'sig, 'pk) rpc_env \<Rightarrow> evmdb_rpc \<Rightarrow> string \<Rightarrow> string option" where
  "handle_gas_price env rpc i = respond_u64 (re_alloc env) i (rpc_base_fee rpc)"

definition handle_net_version :: "('r, 'sig, 'pk) rpc_env \<Rightarrow> evmdb_rpc \<Rightarrow> string \<Rightarrow> string option" where
  "handle_net_version env rpc i =
     make_response (re_alloc env) i (snprintf 32 (quoted (print_u64 (rpc_chain_id rpc))))"

definition handle_web3_client_version :: "('r, 'sig, 'pk) rpc_env \<Rightarrow> string \<Rightarrow> string option" where
  "handle_web3_client_version env i = make_response (re_alloc env) i (quoted ''evmdb/0.2.0'')"

subsection \<open>Accounts\<close>

text \<open>
  \<open>evmdb_hex_decode(params[k], addr.bytes, 20) != 20\<close> into an uninitialised address; the same for the
  32-byte keys and hashes.
\<close>

definition decode_address :: "('r, 'sig, 'pk) rpc_env \<Rightarrow> string \<Rightarrow> evmdb_address option" where
  "decode_address env hex =
     (case evmdb_hex_decode (Some hex) (take 20 (env_junk (re_exec env))) 20 of
        (rc, out) \<Rightarrow> if rc \<noteq> 20 then None else Some out)"

definition decode_bytes32 :: "('r, 'sig, 'pk) rpc_env \<Rightarrow> string \<Rightarrow> evmdb_bytes32 option" where
  "decode_bytes32 env hex =
     (case evmdb_hex_decode (Some hex) (env_junk (re_exec env)) 32 of
        (rc, out) \<Rightarrow> if rc \<noteq> 32 then None else Some out)"

text \<open>\<open>while (*p == '0' && *(p + 1) != '\0') p++\<close>.\<close>

fun trim_zeros :: "string \<Rightarrow> string" where
  "trim_zeros (c # d # cs) = (if c = CHR ''0'' then trim_zeros (d # cs) else c # d # cs)"
| "trim_zeros cs = cs"

definition handle_get_balance ::
  "('r, 'sig, 'pk) rpc_env \<Rightarrow> 'r \<Rightarrow> string \<Rightarrow> string list \<Rightarrow> nat \<Rightarrow> string option \<times> 'r" where
  "handle_get_balance env s i params param_count =
     (if param_count < 1 then (make_error (re_alloc env) i (-32602) ''missing address parameter'', s)
      else
        (case decode_address env (params ! 0) of
           None \<Rightarrow> (make_error (re_alloc env) i (-32602) ''invalid address'', s)
         | Some addr \<Rightarrow>
             (let (balance, s) = evmdb_state_get_balance (re_redis env) s addr (env_junk (re_exec env));
                  hex = hex_buf balance 67;
                  trimmed = snprintf 67 (''0x'' @ trim_zeros (drop 2 hex))
              in (make_response (re_alloc env) i (snprintf 128 (quoted trimmed)), s))))"

definition handle_get_transaction_count ::
  "('r, 'sig, 'pk) rpc_env \<Rightarrow> 'r \<Rightarrow> string \<Rightarrow> string list \<Rightarrow> nat \<Rightarrow> string option \<times> 'r" where
  "handle_get_transaction_count env s i params param_count =
     (if param_count < 1 then (make_error (re_alloc env) i (-32602) ''missing address parameter'', s)
      else
        (case decode_address env (params ! 0) of
           None \<Rightarrow> (make_error (re_alloc env) i (-32602) ''invalid address'', s)
         | Some addr \<Rightarrow>
             (let (nonce, s) = evmdb_state_get_nonce (re_redis env) s addr
              in (respond_u64 (re_alloc env) i nonce, s))))"

text \<open>\<open>malloc(result_len)\<close> is not checked: \<open>snprintf\<close> then writes through a null pointer.\<close>

definition handle_get_code ::
  "('r, 'sig, 'pk) rpc_env \<Rightarrow> 'r \<Rightarrow> string \<Rightarrow> string list \<Rightarrow> nat \<Rightarrow> 'r response" where
  "handle_get_code env s i params param_count =
     (if param_count < 1 then Inr (make_error (re_alloc env) i (-32602) ''missing address parameter'', s)
      else
        (case decode_address env (params ! 0) of
           None \<Rightarrow> Inr (make_error (re_alloc env) i (-32602) ''invalid address'', s)
         | Some addr \<Rightarrow>
             (let (code, s) = evmdb_state_get_code (re_alloc env) (re_redis env) s addr;
                  hex_len = snd code * 2 + 3;
                  result_len = hex_len + 4
              in if snd code = 0 then Inr (make_response (re_alloc env) i (quoted ''0x''), s)
                 else if \<not> re_alloc env (unat hex_len) then Inr (make_error (re_alloc env) i (-32603) ''internal error'', s)
                 else bindE (deref code) (\<lambda>data.
                   if \<not> re_alloc env (unat result_len) then Inl OutOfBounds
                   else Inr (make_response (re_alloc env) i
                          (snprintf (unat result_len) (quoted (hex_buf data hex_len))), s)))))"

definition handle_get_storage_at ::
  "('r, 'sig, 'pk) rpc_env \<Rightarrow> 'r \<Rightarrow> string \<Rightarrow> string list \<Rightarrow> nat \<Rightarrow> string option \<times> 'r" where
  "handle_get_storage_at env s i params param_count =
     (if param_count < 2 then (make_error (re_alloc env) i (-32602) ''missing parameters'', s)
      else
        (case decode_address env (params ! 0) of
           None \<Rightarrow> (make_error (re_alloc env) i (-32602) ''invalid address'', s)
         | Some addr \<Rightarrow>
             (case decode_bytes32 env (params ! 1) of
                None \<Rightarrow> (make_error (re_alloc env) i (-32602) ''invalid storage key'', s)
              | Some key \<Rightarrow>
                  (let (val, s) = evmdb_state_get_storage (re_redis env) s addr key (env_junk (re_exec env))
                   in (make_response (re_alloc env) i (snprintf 80 (quoted (hex_buf val 67))), s)))))"

subsection \<open>Blocks and fees\<close>

definition jfield :: "string \<Rightarrow> string \<Rightarrow> string" where
  "jfield key val = quoted key @ '':'' @ val"

definition zeros_hex :: "nat \<Rightarrow> string" where
  "zeros_hex n = ''0x'' @ replicate n (CHR ''0'')"

definition block_json :: "string \<Rightarrow> string \<Rightarrow> string \<Rightarrow> string \<Rightarrow> string" where
  "block_json num_hex gas_limit_hex timestamp_hex base_fee_hex =
     [CHR 0x7B] @ jfield ''number'' (quoted num_hex) @ '',''
     @ jfield ''hash'' (quoted (zeros_hex 64)) @ '',''
     @ jfield ''parentHash'' (quoted (zeros_hex 64)) @ '',''
     @ jfield ''nonce'' (quoted (zeros_hex 16)) @ '',''
     @ jfield ''sha3Uncles'' (quoted ''0x1dcc4de8dec75d7aab85b567b6ccd41ad312451b948a7413f0a142fd40d49347'') @ '',''
     @ jfield ''logsBloom'' (quoted (zeros_hex 512)) @ '',''
     @ jfield ''transactionsRoot'' (quoted ''0x56e81f171bcc55a6ff8345e692c0f86e5b48e01b996cadc001622fb5e363b421'') @ '',''
     @ jfield ''stateRoot'' (quoted (zeros_hex 64)) @ '',''
     @ jfield ''receiptsRoot'' (quoted ''0x56e81f171bcc55a6ff8345e692c0f86e5b48e01b996cadc001622fb5e363b421'') @ '',''
     @ jfield ''miner'' (quoted (zeros_hex 40)) @ '',''
     @ jfield ''difficulty'' (quoted ''0x0'') @ '',''
     @ jfield ''totalDifficulty'' (quoted ''0x0'') @ '',''
     @ jfield ''extraData'' (quoted ''0x'') @ '',''
     @ jfield ''size'' (quoted ''0x0'') @ '',''
     @ jfield ''gasLimit'' (quoted gas_limit_hex) @ '',''
     @ jfield ''gasUsed'' (quoted ''0x0'') @ '',''
     @ jfield ''timestamp'' (quoted timestamp_hex) @ '',''
     @ jfield ''transactions'' ''[]'' @ '',''
     @ jfield ''uncles'' ''[]'' @ '',''
     @ jfield ''baseFeePerGas'' (quoted base_fee_hex) @ [CHR 0x7D]"

definition handle_get_block_by_number ::
  "('r, 'sig, 'pk) rpc_env \<Rightarrow> evmdb_rpc \<Rightarrow> 'r \<Rightarrow> string \<Rightarrow> string option \<times> 'r" where
  "handle_get_block_by_number env rpc s i =
     (let (ctx, s) = make_block_context env rpc s
      in if \<not> re_alloc env 2048 then (make_error (re_alloc env) i (-32603) ''internal error'', s)
         else (make_response (re_alloc env) i
                 (snprintf 2048 (block_json (u64_hex (bc_number ctx)) (u64_hex (bc_gas_limit ctx))
                    (u64_hex (bc_timestamp ctx)) (u64_hex (bc_base_fee ctx)))), s))"

definition fee_history_json :: "string \<Rightarrow> string \<Rightarrow> string" where
  "fee_history_json num_hex base_fee_hex =
     [CHR 0x7B] @ jfield ''oldestBlock'' (quoted num_hex) @ '',''
     @ jfield ''baseFeePerGas'' (''['' @ quoted base_fee_hex @ '','' @ quoted base_fee_hex @ '']'') @ '',''
     @ jfield ''gasUsedRatio'' ''[0.0]'' @ '',''
     @ jfield ''reward'' (''[['' @ quoted base_fee_hex @ '']]'') @ [CHR 0x7D]"

definition handle_fee_history ::
  "('r, 'sig, 'pk) rpc_env \<Rightarrow> evmdb_rpc \<Rightarrow> 'r \<Rightarrow> string \<Rightarrow> string option \<times> 'r" where
  "handle_fee_history env rpc s i =
     (let (block_num, s) = evmdb_state_get_block_number (re_redis env) s
      in if \<not> re_alloc env 512 then (make_error (re_alloc env) i (-32603) ''internal error'', s)
         else (make_response (re_alloc env) i
                 (snprintf 512 (fee_history_json (u64_hex block_num) (u64_hex (rpc_base_fee rpc)))), s))"

subsection \<open>Calls and estimates\<close>

text \<open>What \<open>handle_call\<close> answers once \<open>evmdb_evm_call\<close> has returned.\<close>

definition call_response ::
  "('r, 'sig, 'pk) rpc_env \<Rightarrow> string \<Rightarrow> int \<Rightarrow> evmdb_exec_result \<Rightarrow> string option" where
  "call_response env i rc result =
     (let al = re_alloc env;
          err = er_error result;
          out_len = word_of_nat (length (er_output result)) :: size_t;
          hex_len = out_len * 2 + 3;
          result_len = hex_len + 4
      in if rc \<noteq> 0 then make_error al i (-32603) (if err \<noteq> [] then err else ''execution failed'')
         else if \<not> er_success result then make_error al i (-32000) (if err \<noteq> [] then err else ''execution reverted'')
         else if out_len = 0 then make_response al i (quoted ''0x'')
         else if \<not> al (unat hex_len) then make_error al i (-32603) ''internal error''
         else if \<not> al (unat result_len) then make_error al i (-32603) ''internal error''
         else make_response al i (snprintf (unat result_len) (quoted (hex_buf (er_output result) hex_len))))"

definition handle_call ::
  "('r, 'sig, 'pk) rpc_env \<Rightarrow> evmdb_rpc \<Rightarrow> 'r \<Rightarrow> string \<Rightarrow> string \<Rightarrow> 'r response" where
  "handle_call env rpc s i request =
     (let al = re_alloc env;
          (block_ctx, s) = make_block_context env rpc s
      in case extract_param_field_string al request ''to'' of
           None \<Rightarrow> Inr (make_error al i (-32602) ''missing to address'', s)
         | Some to_hex \<Rightarrow>
             (let from_hex = extract_param_field_string al request ''from'';
                  data_hex = extract_param_field_string al request ''data'';
                  gas_hex = extract_param_field_string al request ''gas'';
                  (from_rc, from) = (case from_hex of None \<Rightarrow> (20, zero_address)
                                     | Some h \<Rightarrow> evmdb_hex_decode (Some h) zero_address 20);
                  (data_rc, data) = decode_hex_bytes al data_hex;
                  gas = parse_hex_uint64_or gas_hex (rpc_gas_limit rpc)
              in case decode_address env to_hex of
                   None \<Rightarrow> Inr (make_error al i (-32602) ''invalid to address'', s)
                 | Some to \<Rightarrow>
                     if from_rc \<noteq> 20 then Inr (make_error al i (-32602) ''invalid from address'', s)
                     else if data_rc \<noteq> 0 then Inr (make_error al i (-32602) ''invalid call data'', s)
                     else bindE (evmdb_evm_call (evm_ready (rpc_evm rpc)) (re_exec env) s from to data
                                   (Some block_ctx) gas zero_exec_result)
                            (\<lambda>(rc, result, s). Inr (call_response env i rc result, s))))"

definition handle_estimate_gas :: "('r, 'sig, 'pk) rpc_env \<Rightarrow> string \<Rightarrow> string \<Rightarrow> string option" where
  "handle_estimate_gas env i request =
     (case extract_param_field_string (re_alloc env) request ''data'' of
        None \<Rightarrow> respond_u64 (re_alloc env) i 21000
      | Some data_hex \<Rightarrow>
          (let max_bytes = length data_hex div 2
           in if \<not> re_alloc env max_bytes then make_error (re_alloc env) i (-32603) ''internal error''
              else (case decode_fresh data_hex max_bytes of
                      (byte_len, data) \<Rightarrow>
                        if byte_len < 0 then make_error (re_alloc env) i (-32602) ''invalid transaction data''
                        else respond_u64 (re_alloc env) i (intrinsic_gas_for_data data))))"

subsection \<open>Receipts\<close>

text \<open>The C string in a heap block of bytes; without a NUL in the block, \<open>strlen\<close> reads past its end.\<close>

definition heap_cstr :: "bytes \<Rightarrow> string cres" where
  "heap_cstr data = (if 0 \<in> set data then Inr (cstr (map byte_to_char data)) else Inl OutOfBounds)"

definition handle_get_transaction_receipt ::
  "('r, 'sig, 'pk) rpc_env \<Rightarrow> 'r \<Rightarrow> string \<Rightarrow> string list \<Rightarrow> nat \<Rightarrow> 'r response" where
  "handle_get_transaction_receipt env s i params param_count =
     (if param_count < 1 then Inr (make_error (re_alloc env) i (-32602) ''missing transaction hash parameter'', s)
      else
        (case decode_bytes32 env (params ! 0) of
           None \<Rightarrow> Inr (make_error (re_alloc env) i (-32602) ''invalid transaction hash'', s)
         | Some h \<Rightarrow>
             (case evmdb_state_get_receipt (re_alloc env) (re_redis env) s h of
                ((None, len), s) \<Rightarrow> Inr (make_response (re_alloc env) i ''null'', s)
              | ((Some data, len), s) \<Rightarrow>
                  if len = 0 then Inr (make_response (re_alloc env) i ''null'', s)
                  else bindE (heap_cstr data) (\<lambda>str. Inr (make_response (re_alloc env) i str, s)))))"

subsection \<open>Sending a transaction\<close>

text \<open>
  \<open>evmdb_evm_compute_create_address\<close> only fails on null pointers, so that the contract address is always
  present for a creation.
\<close>

definition receipt_to :: "evmdb_tx \<Rightarrow> string" where
  "receipt_to tx = (if tx_to_is_null tx then ''null'' else snprintf 64 (quoted (hex_buf (tx_to tx) 43)))"

definition receipt_contract :: "evmdb_tx \<Rightarrow> string" where
  "receipt_contract tx =
     (if tx_to_is_null tx
      then snprintf 64 (quoted (hex_buf (evmdb_evm_compute_create_address (tx_from tx) (tx_nonce tx)) 43))
      else ''null'')"

definition receipt_json :: "evmdb_rpc \<Rightarrow> evmdb_tx \<Rightarrow> u64 \<Rightarrow> evmdb_exec_result \<Rightarrow> string" where
  "receipt_json rpc tx mined_block_number result =
     [CHR 0x7B] @ jfield ''transactionHash'' (quoted (hex_buf (tx_hash tx) 67)) @ '',''
     @ jfield ''transactionIndex'' (quoted ''0x0'') @ '',''
     @ jfield ''blockHash'' (quoted (zeros_hex 64)) @ '',''
     @ jfield ''blockNumber'' (quoted (u64_hex mined_block_number)) @ '',''
     @ jfield ''from'' (quoted (hex_buf (tx_from tx) 43)) @ '',''
     @ jfield ''to'' (receipt_to tx) @ '',''
     @ jfield ''cumulativeGasUsed'' (quoted (u64_hex (er_gas_used result))) @ '',''
     @ jfield ''gasUsed'' (quoted (u64_hex (er_gas_used result))) @ '',''
     @ jfield ''contractAddress'' (receipt_contract tx) @ '',''
     @ jfield ''logs'' ''[]'' @ '',''
     @ jfield ''logsBloom'' (quoted (zeros_hex 512)) @ '',''
     @ jfield ''status'' (quoted (if er_success result then ''0x1'' else ''0x0'')) @ '',''
     @ jfield ''effectiveGasPrice'' (quoted (u64_hex (rpc_base_fee rpc))) @ '',''
     @ jfield ''type'' (quoted (case tx_type tx of EVMDB_TX_EIP1559 \<Rightarrow> ''0x2'' | EVMDB_TX_EIP2930 \<Rightarrow> ''0x1''
                                 | EVMDB_TX_LEGACY \<Rightarrow> ''0x0'')) @ [CHR 0x7D]"

text \<open>A called function that returned -1, as opposed to one that left the bounds of a buffer.\<close>

definition on_rc_error :: "'a cres \<Rightarrow> 'b cres \<Rightarrow> ('a \<Rightarrow> 'b cres) \<Rightarrow> 'b cres" where
  "on_rc_error r handler k =
     (case r of Inr x \<Rightarrow> k x | Inl e \<Rightarrow> if e = RcError then handler else Inl e)"

lemma on_rc_error_cong [fundef_cong]:
  "m = m' \<Longrightarrow> h = h' \<Longrightarrow> (\<And>x. m' = Inr x \<Longrightarrow> k x = k' x) \<Longrightarrow> on_rc_error m h k = on_rc_error m' h' k'"
  by (simp add: on_rc_error_def split: sum.split)

text \<open>After \<open>evmdb_evm_execute_tx\<close>: the block number, the receipt and the response.\<close>

definition mine_transaction ::
  "('r, 'sig, 'pk) rpc_env \<Rightarrow> evmdb_rpc \<Rightarrow> 'r \<Rightarrow> string \<Rightarrow> evmdb_tx \<Rightarrow> evmdb_block_context \<Rightarrow> evmdb_exec_result
    \<Rightarrow> string option \<times> 'r" where
  "mine_transaction env rpc s i tx block_ctx result =
     (let mined_block_number = bc_number block_ctx + 1;
          (_, s) = evmdb_state_set_block_number (re_redis env) s mined_block_number
      in if \<not> re_alloc env 2048 then (make_error (re_alloc env) i (-32603) ''internal error'', s)
         else
           (let receipt = snprintf 2048 (receipt_json rpc tx mined_block_number result);
                (_, s) = evmdb_state_set_receipt (re_redis env) s (tx_hash tx) (map char_to_byte receipt)
            in (make_response (re_alloc env) i (snprintf 128 (quoted (hex_buf (tx_hash tx) 67))), s)))"

definition execute_decoded ::
  "('r, 'sig, 'pk) rpc_env \<Rightarrow> evmdb_rpc \<Rightarrow> 'r \<Rightarrow> string \<Rightarrow> evmdb_tx \<Rightarrow> 'r response" where
  "execute_decoded env rpc s i tx =
     (let (block_ctx, s) = make_block_context env rpc s
      in bindE (evmdb_evm_execute_tx (evm_ready (rpc_evm rpc)) (re_exec env) s tx (Some block_ctx) zero_exec_result)
           (\<lambda>(rc, result, s).
             if rc \<noteq> 0 then Inr (make_error (re_alloc env) i (-32603) (er_error result), s)
             else Inr (mine_transaction env rpc s i tx block_ctx result)))"

definition handle_send_raw_transaction ::
  "('r, 'sig, 'pk) rpc_env \<Rightarrow> evmdb_rpc \<Rightarrow> 'r \<Rightarrow> string \<Rightarrow> string \<Rightarrow> 'r response" where
  "handle_send_raw_transaction env rpc s i request =
     (let al = re_alloc env; fail = (\<lambda>code msg. Inr (make_error al i code msg, s))
      in case extract_first_param_string al request of
           None \<Rightarrow> fail (-32602) ''missing raw transaction parameter''
         | Some raw_hex \<Rightarrow>
             (let max_bytes = length raw_hex div 2
              in if \<not> al max_bytes then fail (-32603) ''internal error''
                 else
                   (case decode_fresh raw_hex max_bytes of
                      (byte_len, raw) \<Rightarrow>
                        if byte_len \<le> 0 then fail (-32602) ''invalid hex data''
                        else on_rc_error (evmdb_tx_decode al raw) (fail (-32602) ''failed to decode transaction'')
                          (\<lambda>tx. case evmdb_tx_recover_sender al (re_secp env) tx of
                             (rc, tx) \<Rightarrow> on_rc_error rc (fail (-32602) ''failed to recover sender'')
                               (\<lambda>_. execute_decoded env rpc s i tx)))))"

subsection \<open>Dispatch\<close>

text \<open>The chain of \<open>strcmp\<close> on the method name.\<close>

definition dispatch_method ::
  "('r, 'sig, 'pk) rpc_env \<Rightarrow> evmdb_rpc \<Rightarrow> 'r \<Rightarrow> string \<Rightarrow> string \<Rightarrow> string \<Rightarrow> nat \<Rightarrow> string list \<Rightarrow> 'r response" where
  "dispatch_method env rpc s request meth i param_count params =
     (let al = re_alloc env
      in if meth = ''eth_chainId'' then Inr (handle_chain_id env rpc i, s)
         else if meth = ''eth_blockNumber'' then Inr (handle_block_number env s i)
         else if meth = ''eth_gasPrice'' then Inr (handle_gas_price env rpc i, s)
         else if meth = ''eth_getBalance'' then Inr (handle_get_balance env s i params param_count)
         else if meth = ''eth_getTransactionCount'' then Inr (handle_get_transaction_count env s i params param_count)
         else if meth = ''eth_getCode'' then handle_get_code env s i params param_count
         else if meth = ''eth_sendRawTransaction'' then handle_send_raw_transaction env rpc s i request
         else if meth = ''net_version'' then Inr (handle_net_version env rpc i, s)
         else if meth = ''web3_clientVersion'' then Inr (handle_web3_client_version env i, s)
         else if meth = ''eth_call'' then handle_call env rpc s i request
         else if meth = ''eth_estimateGas'' then Inr (handle_estimate_gas env i request, s)
         else if meth = ''eth_getBlockByNumber'' \<or> meth = ''eth_getBlockByHash'' then
           Inr (handle_get_block_by_number env rpc s i)
         else if meth = ''eth_getTransactionByHash'' then Inr (make_response al i ''null'', s)
         else if meth = ''eth_getTransactionReceipt'' then handle_get_transaction_receipt env s i params param_count
         else if meth = ''eth_getLogs'' then Inr (make_response al i ''[]'', s)
         else if meth = ''eth_feeHistory'' then Inr (handle_fee_history env rpc s i)
         else if meth = ''eth_maxPriorityFeePerGas'' then Inr (respond_u64 al i (rpc_base_fee rpc), s)
         else if meth = ''eth_accounts'' then Inr (make_response al i ''[]'', s)
         else if meth = ''eth_syncing'' then Inr (make_response al i ''false'', s)
         else if meth = ''eth_mining'' then Inr (make_response al i ''false'', s)
         else if meth = ''eth_hashrate'' then Inr (make_response al i (quoted ''0x0''), s)
         else if meth = ''eth_getStorageAt'' then Inr (handle_get_storage_at env s i params param_count)
         else if meth = ''eth_getBlockTransactionCountByNumber'' then Inr (make_response al i (quoted ''0x0''), s)
         else if meth = ''eth_protocolVersion'' then Inr (make_response al i (quoted ''0x42''), s)
         else if meth = ''eth_subscribe'' then
           Inr (make_error al i (-32601) ''subscriptions not supported over HTTP'', s)
         else Inr (make_error al i (-32601) ''method not found'', s))"

definition dispatch_single ::
  "('r, 'sig, 'pk) rpc_env \<Rightarrow> evmdb_rpc \<Rightarrow> 'r \<Rightarrow> string \<Rightarrow> 'r response" where
  "dispatch_single env rpc s request =
     (let (_, meth, i) = evmdb_json_parse_method request [] 64 32;
          (param_count, params) = evmdb_json_parse_params request (replicate 8 []) 8
      in dispatch_method env rpc s request meth i param_count params)"

subsection \<open>Batches\<close>

text \<open>
  \<open>do { ...; p++; } while (*p && depth > 0)\<close>: the text of one request of the batch and the position
  behind it.
\<close>

fun scan_item :: "int \<Rightarrow> string \<Rightarrow> string \<times> string" where
  "scan_item depth [] = ([], [])"
| "scan_item depth (c # cs) =
     (let depth = (if c = CHR 0x7B then depth + 1 else if c = CHR 0x7D then depth - 1 else depth)
      in if cs = [] \<or> \<not> depth > 0 then ([c], cs)
         else (case scan_item depth cs of (item, rest) \<Rightarrow> (c # item, rest)))"

lemma scan_item_append: "scan_item depth pos = (item, rest) \<Longrightarrow> pos = item @ rest"
  by (induction depth pos arbitrary: item rest rule: scan_item.induct)
    (auto simp: Let_def split: if_splits prod.splits)

lemma scan_item_progress: "pos \<noteq> [] \<Longrightarrow> scan_item depth pos = (item, rest) \<Longrightarrow> length rest < length pos"
  by (cases pos) (auto simp: Let_def dest!: scan_item_append split: if_splits prod.splits)

lemma batch_progress:
  assumes "dropWhile p pos \<noteq> []" and "scan_item depth (dropWhile p pos) = (item, rest)"
  shows "length rest < length pos"
  using scan_item_progress [OF assms] length_dropWhile_le [of p pos] by simp

lemma batch_skip_progress: "dropWhile p pos \<noteq> [] \<Longrightarrow> length (drop 1 (dropWhile p pos)) < length pos"
  using length_dropWhile_le [of p pos] by (cases "dropWhile p pos") auto

text \<open>
  \<open>while (buf_len + sr_len + 4 > buf_cap) { buf_cap *= 2; realloc }\<close>: \<open>Inl RcError\<close> when the allocator
  refuses. After 65 doublings the capacity has wrapped to 0 and stays there, and the C loop does not end.
\<close>

fun batch_grow :: "nat \<Rightarrow> (nat \<Rightarrow> bool) \<Rightarrow> size_t \<Rightarrow> size_t \<Rightarrow> size_t cres" where
  "batch_grow 0 alloc needed cap = Inl Diverges"
| "batch_grow (Suc fuel) alloc needed cap =
     (if needed > cap then
        (let cap = cap * 2
         in if alloc (unat cap) then batch_grow fuel alloc needed cap else Inl RcError)
      else Inr cap)"

record batch_buf =
  bb_text :: string
  bb_cap :: size_t
  bb_first :: bool

definition batch_append :: "(nat \<Rightarrow> bool) \<Rightarrow> batch_buf \<Rightarrow> string \<Rightarrow> batch_buf cres" where
  "batch_append alloc buf single_resp =
     (let needed = word_of_nat (length (bb_text buf)) + word_of_nat (length single_resp) + 4
      in bindE (batch_grow 66 alloc needed (bb_cap buf)) (\<lambda>cap.
           if length (bb_text buf) + 1 + length single_resp > unat cap then Inl OutOfBounds
           else Inr (buf\<lparr>bb_text := bb_text buf @ (if bb_first buf then [] else '','') @ single_resp,
                    bb_cap := cap, bb_first := False\<rparr>)))"

text \<open>
  The loop over the batch. A refused \<open>malloc\<close> of the request's text skips that request; a refused
  \<open>realloc\<close> ends the call with -1 (\<open>None\<close> for the buffer), with the effects of the requests so far.
\<close>

function batch_loop ::
  "('r, 'sig, 'pk) rpc_env \<Rightarrow> evmdb_rpc \<Rightarrow> 'r \<Rightarrow> string \<Rightarrow> batch_buf \<Rightarrow> (batch_buf option \<times> 'r) cres" where
  "batch_loop env rpc s p buf =
     (let p = dropWhile is_item_space p
      in if p = [] \<or> peek p = CHR '']'' then Inr (Some buf, s)
         else if peek p = CHR 0x7B then
           (case scan_item 0 p of
              (item, rest) \<Rightarrow>
                if \<not> re_alloc env (length item + 1) then batch_loop env rpc s rest buf
                else (case dispatch_single env rpc s item of
                        Inl e \<Rightarrow> Inl e
                      | Inr (None, s) \<Rightarrow> batch_loop env rpc s rest buf
                      | Inr (Some single_resp, s) \<Rightarrow>
                          on_rc_error (batch_append (re_alloc env) buf single_resp) (Inr (None, s))
                            (\<lambda>buf. batch_loop env rpc s rest buf)))
         else batch_loop env rpc s (drop 1 p) buf)"
  by pat_completeness auto

termination
  by (relation "measure (\<lambda>(env, rpc, s, p, buf). length p)")
    (auto simp only: in_measure wf_measure split_conv de_Morgan_disj
      intro: batch_progress [OF _ sym] batch_skip_progress)

declare batch_loop.simps [simp del]

definition is_leading_space :: "char \<Rightarrow> bool" where
  "is_leading_space c \<longleftrightarrow> c = CHR '' '' \<or> c = CHR 0x09 \<or> c = CHR 0x0A \<or> c = CHR 0x0D"

text \<open>The closing bracket; the last \<open>realloc\<close> is not checked.\<close>

definition batch_close :: "(nat \<Rightarrow> bool) \<Rightarrow> batch_buf \<Rightarrow> string cres" where
  "batch_close alloc buf =
     (if word_of_nat (length (bb_text buf)) + 2 > bb_cap buf \<and> \<not> alloc (unat (bb_cap buf + 2)) then Inl OutOfBounds
      else Inr (bb_text buf @ '']''))"

definition evmdb_rpc_handle_request ::
  "('r, 'sig, 'pk) rpc_env \<Rightarrow> evmdb_rpc \<Rightarrow> 'r \<Rightarrow> string \<Rightarrow> (int \<times> string option \<times> size_t \<times> 'r) cres" where
  "evmdb_rpc_handle_request env rpc s request =
     (let request = dropWhile is_leading_space request
      in if peek request = CHR ''['' then
           if \<not> re_alloc env 4096 then Inr (-1, None, 0, s)
           else bindE (batch_loop env rpc s (drop 1 request) \<lparr>bb_text = ''['', bb_cap = 4096, bb_first = True\<rparr>)
                  (\<lambda>(buf, s). case buf of
                     None \<Rightarrow> Inr (-1, None, 0, s)
                   | Some buf \<Rightarrow> bindE (batch_close (re_alloc env) buf) (\<lambda>text.
                       Inr (0, Some text, word_of_nat (length text), s)))
         else bindE (dispatch_single env rpc s request) (\<lambda>(result, s).
                case result of
                  Some text \<Rightarrow> Inr (0, Some text, word_of_nat (length text), s)
                | None \<Rightarrow> Inr (0, None, 0, s)))"

end
