(* ===== verification/Evm_Handlers_Props.thy ===== *)
theory Evm_Handlers_Props
  imports Evm_Handlers Evm_Exec_Props Evm_Tx_Type
begin

text \<open>
  What the JSON-RPC methods promise. The buffers of the handlers always suffice, so that a response
  is the full text; the query methods answer with the values of the abstract world and change
  nothing; \<open>eth_sendRawTransaction\<close> composes decoder, signature recovery, executor, block number and
  receipt; a batch is the sequence of its requests.
\<close>

subsection \<open>Response texts\<close>

definition response_text :: "string \<Rightarrow> string \<Rightarrow> string" where
  "response_text i result =
     [CHR 0x7B] @ quoted ''jsonrpc'' @ '':'' @ quoted ''2.0'' @ '','' @ quoted ''id'' @ '':'' @ i
     @ '','' @ quoted ''result'' @ '':'' @ result @ [CHR 0x7D]"

lemma make_response_text:
  "make_response al i r = (if al (length i + length r + 64) then Some (response_text i r) else None)"
  by (simp add: make_response_def response_text_def snprintf_def quoted_def)

lemma make_response_cases:
  obtains "make_response al i r = None" | "make_response al i r = Some (response_text i r)"
  by (cases "al (length i + length r + 64)") (simp_all add: make_response_text)

lemma u64_hex_eq: "u64_hex v = ''0x'' @ print_base 16 (unat v)"
  by (simp add: u64_hex_def hex_from_uint64_fits)

lemma length_u64_hex: "length (u64_hex v) \<le> 18"
  using length_hex_u64 [of v] by (simp add: u64_hex_eq)

lemma hex_buf_eq: "length bs < 2 ^ 62 \<Longrightarrow> 2 * length bs + 3 \<le> unat n \<Longrightarrow> hex_buf bs n = hex_of_bytes bs"
  by (simp add: hex_buf_def hex_encode_fits hex_of_bytes_def)

lemma hex_buf_20 [simp]: "length bs = 20 \<Longrightarrow> hex_buf bs 43 = hex_of_bytes bs"
  by (simp add: hex_buf_eq)

lemma hex_buf_32 [simp]: "length bs = 32 \<Longrightarrow> hex_buf bs 67 = hex_of_bytes bs"
  by (simp add: hex_buf_eq)

lemma respond_u64_text:
  "respond_u64 al i v = make_response al i (quoted (''0x'' @ print_base 16 (unat v)))"
  using length_u64_hex [of v] by (simp add: respond_u64_def snprintf_def quoted_def u64_hex_eq)

subsection \<open>Hexadecimal numbers without leading zeros\<close>

definition nibble_text :: "nat list \<Rightarrow> string" where
  "nibble_text ds = map (\<lambda>d. hex_chars ! d) ds"

definition nibble_val :: "nat list \<Rightarrow> nat" where
  "nibble_val ds = foldl (\<lambda>v d. 16 * v + d) 0 ds"

lemma print_base_nibbles:
  assumes "ds \<noteq> []" and "\<forall>d \<in> set ds. d < 16" and "0 < hd ds \<or> length ds = 1"
  shows "print_base 16 (nibble_val ds) = nibble_text ds"
  using assms
proof (induction ds rule: rev_induct)
  case (snoc x xs)
  show ?case
  proof (cases "xs = []")
    case True
    with snoc.prems show ?thesis
      by (simp add: nibble_val_def nibble_text_def print_base.simps)
  next
    case False
    with snoc have IH: "print_base 16 (nibble_val xs) = nibble_text xs" and "0 < hd xs" by auto
    have "0 < nibble_val ys" if "ys \<noteq> []" "0 < hd ys" for ys
      using that by (induction ys rule: rev_induct) (auto simp: nibble_val_def hd_append split: if_splits)
    then have "0 < nibble_val xs" using False \<open>0 < hd xs\<close> by blast
    then have "\<not> nibble_val (xs @ [x]) < 16" by (simp add: nibble_val_def)
    moreover have "nibble_val (xs @ [x]) div 16 = nibble_val xs" "nibble_val (xs @ [x]) mod 16 = x"
      using snoc.prems(2) by (simp_all add: nibble_val_def)
    ultimately show ?thesis
      using IH by (simp add: print_base.simps [of 16 "nibble_val (xs @ [x])"] nibble_text_def)
  qed
qed simp

lemma trim_zeros_nibbles:
  assumes "ds \<noteq> []" and "\<forall>d \<in> set ds. d < 16"
  shows "trim_zeros (nibble_text ds) = print_base 16 (nibble_val ds)"
  using assms
proof (induction ds rule: induct_list012)
  case (2 d)
  then show ?case using print_base_nibbles [of "[d]"] by (simp add: nibble_text_def)
next
  case (3 d e ds)
  show ?case
  proof (cases "d = 0")
    case True
    with 3 show ?thesis by (simp add: nibble_text_def nibble_val_def hex_chars_def)
  next
    case False
    with 3 hex_chars_0_iff [of d] print_base_nibbles [of "d # e # ds"] show ?thesis
      by (simp add: nibble_text_def)
  qed
qed simp

definition nibbles :: "byte \<Rightarrow> nat list" where
  "nibbles b = [unat b div 16, unat b mod 16]"

lemma hex_byte_nibbles: "hex_byte b = nibble_text (nibbles b)"
  by (simp add: hex_byte_digits nibble_text_def nibbles_def)

lemma trim_zeros_hex:
  assumes "bs \<noteq> []"
  shows "trim_zeros (concat (map hex_byte bs)) = print_base 16 (be_val bs)"
proof -
  let ?ds = "concat (map nibbles bs)"
  have "concat (map hex_byte bs) = nibble_text ?ds"
    by (induction bs) (simp_all add: hex_byte_nibbles nibble_text_def)
  moreover have "nibble_val ?ds = be_val bs"
  proof -
    have "foldl (\<lambda>v d. 16 * v + d) a ?ds = a * 256 ^ length bs + be_val bs" for a
      by (induction bs arbitrary: a) (simp_all add: nibbles_def be_val_Cons algebra_simps)
    then show ?thesis by (simp add: nibble_val_def)
  qed
  moreover have "\<forall>d \<in> set ?ds. d < 16"
    using byte_lt_256 by (auto simp: nibbles_def less_mult_imp_div_less)
  moreover have "?ds \<noteq> []" using assms by (cases bs) (auto simp: nibbles_def)
  ultimately show ?thesis using trim_zeros_nibbles by metis
qed

subsection \<open>Parameters\<close>

lemma plain_hex [simp]: "plain (hex_of_bytes bs)"
proof -
  have "not_quote c" if "is_hex (c # cs)" for c cs
    using that by (auto simp: is_hex_def not_quote_def hex_char_val_def Let_def split: if_splits)
  then have "list_all not_quote s" if "is_hex s" for s
    using that by (induction s) (auto simp: is_hex_Cons)
  with is_hex_bytes [of bs] is_hex_no_NUL [OF is_hex_bytes, of bs] show ?thesis
    by (auto simp: plain_def hex_of_bytes_def not_quote_def NUL_def)
qed

lemma decode_address_hex:
  "length a = 20 \<Longrightarrow> length (env_junk (re_exec env)) = 32 \<Longrightarrow> decode_address env (hex_of_bytes a) = Some a"
  by (simp add: decode_address_def hex_of_bytes_def hex_decode_hex_bytes [simplified])

lemma decode_bytes32_hex:
  "length k = 32 \<Longrightarrow> length (env_junk (re_exec env)) = 32 \<Longrightarrow> decode_bytes32 env (hex_of_bytes k) = Some k"
  by (simp add: decode_bytes32_def hex_of_bytes_def hex_decode_hex_bytes [simplified])

lemma decode_length:
  assumes "evmdb_hex_decode (Some hex) out n = (rc, out')"
  shows "length out' = length out"
proof -
  have "length (snd (hex_decode_loop k s xs)) = length xs" for k s xs
    by (induction k s xs rule: hex_decode_loop.induct) (auto simp: Let_def)
  then show ?thesis
    using assms
    by (auto simp: evmdb_hex_decode_def Let_def split: if_splits prod.splits bool.splits)
      (metis snd_conv)+
qed

lemma decode_address_length:
  "decode_address env hex = Some a \<Longrightarrow> length (env_junk (re_exec env)) = 32 \<Longrightarrow> length a = 20"
  by (auto simp: decode_address_def split: prod.splits if_splits dest!: decode_length)

lemma decode_bytes32_length:
  "decode_bytes32 env hex = Some k \<Longrightarrow> length (env_junk (re_exec env)) = 32 \<Longrightarrow> length k = 32"
  by (auto simp: decode_bytes32_def split: prod.splits if_splits dest!: decode_length)

subsection \<open>Queries\<close>

definition wf_rpc_env :: "'r redis \<Rightarrow> ('r, 'sig, 'pk) rpc_env \<Rightarrow> bool" where
  "wf_rpc_env rc env \<longleftrightarrow> wf_env rc (re_exec env)"

context redis_server
begin

text \<open>A handler that answers with the text \<open>r\<close> and changes nothing.\<close>

definition answers :: "'r response \<Rightarrow> 'r \<Rightarrow> string option \<Rightarrow> bool" where
  "answers res s r \<longleftrightarrow> (\<exists>s'. res = Inr (r, s') \<and> kv s' = kv s \<and> ok s')"

lemma answersI: "reads (r, s') s v \<Longrightarrow> answers (Inr (t, s')) s t"
  by (auto simp: answers_def reads_def)

lemma w_balance_length: "ok s \<Longrightarrow> length (w_balance (world_of (kv s)) a) = 32"
  using wf_dbD(3) [of "kv s" a]
  by (auto simp: ok_def world_of_def word_of_def word_text_def split: option.splits)

lemma w_storage_length: "ok s \<Longrightarrow> length (w_storage (world_of (kv s)) a k) = 32"
  using wf_dbD(5) [of "kv s" a k]
  by (auto simp: ok_def world_of_def word_of_def word_text_def split: option.splits)

lemma block_number_answers:
  assumes "wf_rpc_env redisCommand env" and "ok s"
  shows "answers (Inr (handle_block_number env s i)) s
    (respond_u64 (re_alloc env) i (w_block (world_of (kv s))))"
  using get_block_number_reads [OF assms(2)] assms(1)
  by (auto simp: handle_block_number_def answers_def reads_def wf_rpc_env_def wf_env_def)

lemma balance_answers:
  assumes env: "wf_rpc_env redisCommand env" and s: "ok s" and a: "length a = 20"
    and ps: "params ! 0 = hex_of_bytes a" "1 \<le> param_count"
  shows "answers (Inr (handle_get_balance env s i params param_count)) s
    (make_response (re_alloc env) i (quoted (''0x'' @ print_base 16 (be_val (w_balance (world_of (kv s)) a)))))"
proof -
  let ?b = "w_balance (world_of (kv s)) a"
  have junk: "length (env_junk (re_exec env)) = 32" and rc: "re_redis env = redisCommand"
    using env by (simp_all add: wf_rpc_env_def wf_env_def)
  have "?b \<noteq> []" using w_balance_length [OF s] by (metis list.size(3) zero_neq_numeral)
  then have "trim_zeros (drop 2 (hex_buf ?b 67)) = print_base 16 (be_val ?b)"
    using w_balance_length [OF s] by (simp add: hex_of_bytes_def trim_zeros_hex)
  moreover have "length (print_base 16 (be_val ?b)) \<le> 64"
    using length_print_base [of 16 "be_val ?b" 63] be_val_less [of ?b] w_balance_length [OF s] by simp
  moreover obtain s' where "evmdb_state_get_balance redisCommand s a (env_junk (re_exec env)) = (?b, s')"
      "kv s' = kv s" "ok s'"
    using get_balance_reads [OF s a junk] by (auto simp: reads_def)
  ultimately show ?thesis
    using ps junk a rc
    by (simp add: handle_get_balance_def decode_address_hex answers_def snprintf_def quoted_def)
qed

lemma nonce_answers:
  assumes env: "wf_rpc_env redisCommand env" and s: "ok s" and a: "length a = 20"
    and ps: "params ! 0 = hex_of_bytes a" "1 \<le> param_count"
  shows "answers (Inr (handle_get_transaction_count env s i params param_count)) s
    (respond_u64 (re_alloc env) i (w_nonce (world_of (kv s)) a))"
  using get_nonce_reads [OF s a] ps a env
  by (auto simp: handle_get_transaction_count_def decode_address_hex answers_def reads_def
      wf_rpc_env_def wf_env_def)

lemma storage_answers:
  assumes env: "wf_rpc_env redisCommand env" and s: "ok s" and a: "length a = 20" and k: "length k = 32"
    and ps: "params ! 0 = hex_of_bytes a" "params ! 1 = hex_of_bytes k" "2 \<le> param_count"
  shows "answers (Inr (handle_get_storage_at env s i params param_count)) s
    (make_response (re_alloc env) i (quoted (hex_of_bytes (w_storage (world_of (kv s)) a k))))"
proof -
  have junk: "length (env_junk (re_exec env)) = 32" and rc: "re_redis env = redisCommand"
    using env by (simp_all add: wf_rpc_env_def wf_env_def)
  show ?thesis
    using get_storage_reads [OF s a k junk] ps junk a k rc w_storage_length [OF s, of a k]
    by (auto simp: handle_get_storage_at_def decode_address_hex decode_bytes32_hex answers_def reads_def
        snprintf_def quoted_def)
qed

lemma code_answers:
  assumes env: "wf_rpc_env redisCommand env" and s: "ok s" and a: "length a = 20"
    and ps: "params ! 0 = hex_of_bytes a" "1 \<le> param_count" and mem: "\<And>n. re_alloc env n"
  defines "c \<equiv> case w_code (world_of (kv s)) a of None \<Rightarrow> [] | Some c \<Rightarrow> c"
  assumes c: "length c < 2 ^ 62"
  shows "answers (handle_get_code env s i params param_count) s
    (make_response (re_alloc env) i (quoted (hex_of_bytes c)))"
proof -
  have junk: "length (env_junk (re_exec env)) = 32" and rc: "re_redis env = redisCommand"
    using env by (simp_all add: wf_rpc_env_def wf_env_def)
  obtain s' where s': "evmdb_state_get_code (re_alloc env) redisCommand s a
      = (case w_code (world_of (kv s)) a of None \<Rightarrow> (None, 0) | Some c \<Rightarrow> (Some c, word_of_nat (length c)), s')"
    "kv s' = kv s" "ok s'"
    using get_code_reads [OF s a, of "re_alloc env"] by (auto simp: reads_def mem cong: option.case_cong)
  have len: "unat (word_of_nat (length c) * 2 + 3 :: size_t) = 2 * length c + 3"
    "unat (word_of_nat (length c) * 2 + 3 + 4 :: size_t) = 2 * length c + 7"
    using unat_word_of_nat64 [of "2 * length c + 3"] unat_word_of_nat64 [of "2 * length c + 7"] c
    by (simp_all add: add.assoc mult.commute)
  have zero: "word_of_nat (length c) = (0 :: size_t) \<longleftrightarrow> c = []"
    using unat_word_of_nat64 [of "length c"] c by (simp flip: unat_eq_zero)
  show ?thesis
  proof (cases "c = []")
    case True
    then have "snd (case w_code (world_of (kv s)) a of None \<Rightarrow> (None, 0)
        | Some c \<Rightarrow> (Some c, word_of_nat (length c))) = (0 :: size_t)"
      by (auto simp: c_def split: option.splits)
    with True s' ps a junk rc show ?thesis
      by (simp add: handle_get_code_def decode_address_hex answers_def hex_of_bytes_def [of "[]"])
  next
    case False
    then have "w_code (world_of (kv s)) a = Some c" by (auto simp: c_def split: option.splits)
    with False s' ps a junk rc mem len zero c show ?thesis
      by (simp add: handle_get_code_def decode_address_hex answers_def deref_def hex_buf_eq
          snprintf_def quoted_def)
  qed
qed

end

subsection \<open>Answering a request text\<close>

lemma dispatch_request:
  assumes "plain meth" and "meth \<noteq> ''params''" and "length meth < 64" and "length (print_base 10 n) < 32"
    and "list_all (\<lambda>p. plain p \<and> length p \<le> 255) ps" and "length ps \<le> 8"
  shows "dispatch_single env rpc s (request_text n meth ps)
    = dispatch_method env rpc s (request_text n meth ps) meth (print_base 10 n) (length ps)
        (ps @ drop (length ps) (replicate 8 []))"
  using assms by (simp add: dispatch_single_def parse_method_request parse_params_request)

text \<open>The request is answered with the quoted text \<open>r\<close> under its id, and the database stays as it is.\<close>

definition rpc_answers ::
  "('r, 'sig, 'pk) rpc_env \<Rightarrow> evmdb_rpc \<Rightarrow> ('r \<Rightarrow> keyspace) \<Rightarrow> 'r \<Rightarrow> nat \<Rightarrow> string \<Rightarrow> string list \<Rightarrow> string \<Rightarrow> bool" where
  "rpc_answers env rpc kv s n meth ps r \<longleftrightarrow>
     (\<exists>s'. dispatch_single env rpc s (request_text n meth ps)
        = Inr (Some (response_text (print_base 10 n) (quoted r)), s') \<and> kv s' = kv s)"

text \<open>
  C7: the query methods, from the text of the request to the text of the response: on a well-formed
  database, when no allocation is refused, \<open>eth_getBalance\<close>, \<open>eth_getTransactionCount\<close>,
  \<open>eth_getStorageAt\<close>, \<open>eth_getCode\<close> and \<open>eth_blockNumber\<close> answer under the id of the request with exactly
  the value the abstract world has (a quantity in hexadecimal without leading zeros, code and
  storage byte by byte), and leave the database as it was. The repository's README counts
  \<open>eth_getStorageAt\<close> among the methods that are stubbed and return defaults; the code reads the stored word.
\<close>

theorem rpc_queries_read_world:
  assumes redis: "redis_server rc kv up" and up: "up s" and wf: "wf_db (kv s)"
    and env: "wf_rpc_env rc env" and mem: "re_alloc env = (\<lambda>n. True)"
    and lens: "length a = 20" "length k = 32" "length (print_base 10 n) < 32"
  defines "w \<equiv> world_of (kv s)"
  defines "c \<equiv> (case w_code w a of None \<Rightarrow> [] | Some c \<Rightarrow> c)"
  assumes c: "length c < 2 ^ 62"
  shows "rpc_answers env rpc kv s n ''eth_getBalance'' [hex_of_bytes a, ''latest'']
        (''0x'' @ print_base 16 (be_val (w_balance w a)))
    \<and> rpc_answers env rpc kv s n ''eth_getTransactionCount'' [hex_of_bytes a, ''latest'']
        (''0x'' @ print_base 16 (unat (w_nonce w a)))
    \<and> rpc_answers env rpc kv s n ''eth_getStorageAt'' [hex_of_bytes a, hex_of_bytes k]
        (hex_of_bytes (w_storage w a k))
    \<and> rpc_answers env rpc kv s n ''eth_getCode'' [hex_of_bytes a, ''latest''] (hex_of_bytes c)
    \<and> rpc_answers env rpc kv s n ''eth_blockNumber'' [] (''0x'' @ print_base 16 (unat (w_block w)))"
proof (intro conjI)
  note ok = server_okI [OF redis up wf]
  note answers = redis_server.answers_def [OF redis]
  have plain: "plain ''latest''" "plain ''eth_getBalance''" "plain ''eth_getTransactionCount''"
    "plain ''eth_getStorageAt''" "plain ''eth_getCode''" "plain ''eth_blockNumber''"
    by (simp_all add: plain_def not_quote_def NUL_def)
  note disp = rpc_answers_def dispatch_request dispatch_method_def answers make_response_text mem w_def
    respond_u64_text lens plain
  show "rpc_answers env rpc kv s n ''eth_getBalance'' [hex_of_bytes a, ''latest'']
      (''0x'' @ print_base 16 (be_val (w_balance w a)))"
    using redis_server.balance_answers [OF redis env ok lens(1), of "hex_of_bytes a # ''latest'' # replicate 6 []" "Suc (Suc 0)" "print_base 10 n"] by (auto simp: disp)
  show "rpc_answers env rpc kv s n ''eth_getTransactionCount'' [hex_of_bytes a, ''latest'']
      (''0x'' @ print_base 16 (unat (w_nonce w a)))"
    using redis_server.nonce_answers [OF redis env ok lens(1), of "hex_of_bytes a # ''latest'' # replicate 6 []" "Suc (Suc 0)" "print_base 10 n"] by (auto simp: disp)
  show "rpc_answers env rpc kv s n ''eth_getStorageAt'' [hex_of_bytes a, hex_of_bytes k]
      (hex_of_bytes (w_storage w a k))"
    using redis_server.storage_answers [OF redis env ok lens(1,2), of "hex_of_bytes a # hex_of_bytes k # replicate 6 []" "Suc (Suc 0)" "print_base 10 n"] by (auto simp: disp)
  show "rpc_answers env rpc kv s n ''eth_getCode'' [hex_of_bytes a, ''latest''] (hex_of_bytes c)"
    using redis_server.code_answers [OF redis env ok lens(1), of "hex_of_bytes a # ''latest'' # replicate 6 []" "Suc (Suc 0)" "print_base 10 n"] c by (auto simp: disp c_def)
  show "rpc_answers env rpc kv s n ''eth_blockNumber'' [] (''0x'' @ print_base 16 (unat (w_block w)))"
    using redis_server.block_number_answers [OF redis env ok, of "print_base 10 n"] by (auto simp: disp)
qed

definition sample_rpc_env :: "(keyspace, bytes, bytes) rpc_env" where
  "sample_rpc_env = \<lparr>re_exec = sample_env, re_secp = sample_secp, re_time = (\<lambda>_. 1700000000)\<rparr>"

definition sample_rpc :: evmdb_rpc where
  "sample_rpc = \<lparr>rpc_evm = Some \<lparr>evm_vm = True, evm_initialized = 1\<rparr>, rpc_chain_id = 1, rpc_gas_limit = 30000000,
     rpc_base_fee = 1000000000, rpc_server_fd = 3, rpc_running = 1\<rparr>"

lemma sample_rpc_env: "wf_rpc_env redis_mem sample_rpc_env" "re_alloc sample_rpc_env = (\<lambda>n. True)"
  using wf_sample_env by (simp_all add: wf_rpc_env_def sample_rpc_env_def sample_env_def)

lemma sample_world: "w_code (world_of sample_db) a = None" "w_receipt (world_of sample_db) h = None"
  "w_block (world_of sample_db) = 12" "w_nonce (world_of sample_db) zero_address = 7"
  by (simp_all add: world_of_def sample_db_def hash_field_def string_at_def number_of_def strtoull_def cstr_def
      NUL_def isspace_def scan_sign_def scan_base_def digit_val_def)

theorem rpc_queries_read_world_witness:
  "rpc_answers sample_rpc_env sample_rpc (\<lambda>m. m) sample_db 1 ''eth_blockNumber'' [] ''0xc''"
proof -
  have "print_base 10 1 = ''1''" "print_base 16 12 = ''c''"
    by (simp_all add: print_base.simps hex_chars_def)
  then show ?thesis
    using rpc_queries_read_world [OF redis_mem.redis_server_axioms, OF _ wf_sample_db sample_rpc_env,
        of zero_address zero_bytes32 1 sample_rpc] sample_world
    by simp
qed

end
