(* ===== verification/Evm_Send.thy ===== *)
theory Evm_Send
  imports Evm_Handlers_Props
begin

text \<open>
  The effect of a request on the database: every method but \<open>eth_sendRawTransaction\<close> leaves it as it
  is; \<open>eth_sendRawTransaction\<close> either leaves it as it is and answers with an error, or mines the
  transaction.
\<close>

subsection \<open>Read-only methods\<close>

context redis_server
begin

definition read_only :: "'r response \<Rightarrow> 'r \<Rightarrow> bool" where
  "read_only res s \<longleftrightarrow> (\<forall>r s'. res = Inr (r, s') \<longrightarrow> kv s' = kv s \<and> ok s')"

lemma read_onlyI [intro]: "ok s \<Longrightarrow> read_only (Inr (r, s)) s"
  by (simp add: read_only_def)

lemma read_only_reads: "reads res s v \<Longrightarrow> snd res = s' \<Longrightarrow> read_only (Inr (r, s')) s"
  by (auto simp: read_only_def reads_def)

lemma block_context_reads:
  assumes "wf_rpc_env redisCommand env" and "ok s"
  obtains s' where "make_block_context env rpc s =
      (\<lparr>bc_number = w_block (world_of (kv s)), bc_timestamp = re_time env s', bc_coinbase = zero_address,
        bc_gas_limit = rpc_gas_limit rpc, bc_base_fee = rpc_base_fee rpc, bc_chain_id = rpc_chain_id rpc\<rparr>, s')"
    "kv s' = kv s" "ok s'"
  using get_block_number_reads [OF assms(2)] assms(1)
  by (auto simp: reads_def make_block_context_def wf_rpc_env_def wf_env_def)

text \<open>The getters the handlers call, on addresses and keys decoded from a request.\<close>

lemma getter_frames:
  assumes "wf_rpc_env redisCommand env" and "ok s" and "decode_address env hex = Some a"
  shows "\<exists>v s'. evmdb_state_get_balance (re_redis env) s a (env_junk (re_exec env)) = (v, s') \<and> kv s' = kv s \<and> ok s'"
    and "\<exists>v s'. evmdb_state_get_nonce (re_redis env) s a = (v, s') \<and> kv s' = kv s \<and> ok s'"
    and "\<exists>v s'. evmdb_state_get_code (re_alloc env) (re_redis env) s a = (v, s') \<and> kv s' = kv s \<and> ok s'"
    and "decode_bytes32 env hex' = Some k \<Longrightarrow>
      \<exists>v s'. evmdb_state_get_storage (re_redis env) s a k (env_junk (re_exec env)) = (v, s') \<and> kv s' = kv s \<and> ok s'"
proof -
  have env: "re_redis env = redisCommand" "length (env_junk (re_exec env)) = 32"
    using assms(1) by (simp_all add: wf_rpc_env_def wf_env_def)
  have a: "length a = 20" using decode_address_length [OF assms(3) env(2)] .
  note reads = get_balance_reads [OF assms(2) a env(2)] get_nonce_reads [OF assms(2) a]
    get_code_reads [OF assms(2) a, of "re_alloc env"]
  from reads show "\<exists>v s'. evmdb_state_get_balance (re_redis env) s a (env_junk (re_exec env)) = (v, s') \<and> kv s' = kv s \<and> ok s'"
    "\<exists>v s'. evmdb_state_get_nonce (re_redis env) s a = (v, s') \<and> kv s' = kv s \<and> ok s'"
    "\<exists>v s'. evmdb_state_get_code (re_alloc env) (re_redis env) s a = (v, s') \<and> kv s' = kv s \<and> ok s'"
    unfolding reads_def env by blast+
  assume "decode_bytes32 env hex' = Some k"
  then have "length k = 32" using env(2) by (rule decode_bytes32_length)
  from get_storage_reads [OF assms(2) a this env(2)]
  show "\<exists>v s'. evmdb_state_get_storage (re_redis env) s a k (env_junk (re_exec env)) = (v, s') \<and> kv s' = kv s \<and> ok s'"
    unfolding reads_def env by blast
qed

lemma account_methods_read_only:
  assumes "wf_rpc_env redisCommand env" and "ok s"
  shows "read_only (Inr (handle_get_balance env s i params k)) s"
    and "read_only (Inr (handle_get_transaction_count env s i params k)) s"
    and "read_only (Inr (handle_get_storage_at env s i params k)) s"
    and "read_only (handle_get_code env s i params k) s"
proof -
  note frames = getter_frames [OF assms, of "params ! 0"]
  show "read_only (Inr (handle_get_balance env s i params k)) s"
    using frames(1) assms(2) by (fastforce simp: handle_get_balance_def read_only_def split: option.splits)
  show "read_only (Inr (handle_get_transaction_count env s i params k)) s"
    using frames(2) assms(2) by (fastforce simp: handle_get_transaction_count_def read_only_def split: option.splits)
  show "read_only (Inr (handle_get_storage_at env s i params k)) s"
    using frames(4) assms(2)
    by (fastforce simp: handle_get_storage_at_def read_only_def split: option.splits if_splits)
  show "read_only (handle_get_code env s i params k) s"
    using frames(3) assms(2)
    by (fastforce simp: handle_get_code_def read_only_def bindE_eq_Inr Let_def split: option.splits if_splits)
qed

lemma get_receipt_read_only:
  assumes "wf_rpc_env redisCommand env" and "ok s"
  shows "read_only (handle_get_transaction_receipt env s i params k) s"
proof (cases "decode_bytes32 env (params ! 0)")
  case None
  then show ?thesis using assms(2) by (auto simp: handle_get_transaction_receipt_def)
next
  case (Some h)
  have env: "re_redis env = redisCommand" "length (env_junk (re_exec env)) = 32"
    using assms(1) by (simp_all add: wf_rpc_env_def wf_env_def)
  obtain v s' where "evmdb_state_get_receipt (re_alloc env) (re_redis env) s h = (v, s')" "kv s' = kv s" "ok s'"
    using get_receipt_reads [OF assms(2) decode_bytes32_length [OF Some env(2)], of "re_alloc env"]
    unfolding reads_def env by blast
  with Some assms(2) show ?thesis
    by (cases v; cases "fst v") (auto simp: handle_get_transaction_receipt_def read_only_def bindE_eq_Inr)
qed

lemma block_methods_read_only:
  assumes "wf_rpc_env redisCommand env" and "ok s"
  shows "read_only (Inr (handle_block_number env s i)) s"
    and "read_only (Inr (handle_get_block_by_number env rpc s i)) s"
    and "read_only (Inr (handle_fee_history env rpc s i)) s"
proof -
  obtain v s' where r: "evmdb_state_get_block_number (re_redis env) s = (v, s')" "kv s' = kv s" "ok s'"
    using get_block_number_reads [OF assms(2)] assms(1) by (auto simp: reads_def wf_rpc_env_def wf_env_def)
  then show "read_only (Inr (handle_block_number env s i)) s"
    "read_only (Inr (handle_get_block_by_number env rpc s i)) s"
    "read_only (Inr (handle_fee_history env rpc s i)) s"
    by (simp_all add: handle_block_number_def handle_get_block_by_number_def handle_fee_history_def
        make_block_context_def read_only_def)
qed

lemma call_read_only:
  assumes env: "wf_rpc_env redisCommand env" and s: "ok s"
  shows "read_only (handle_call env rpc s i request) s"
proof -
  obtain bc s0 where bc: "make_block_context env rpc s = (bc, s0)" "kv s0 = kv s" "ok s0"
    using block_context_reads [OF env s] by metis
  have "kv s' = kv s0 \<and> ok s'"
    if "evmdb_evm_call ini (re_exec env) s0 sender to data b gas res = Inr (rc, res', s')" "length to = 20"
    for ini sender to data b gas res rc res' s'
    using that execute_contract_effect(1,3) [of "re_exec env" s0 to] env bc(3)
    by (fastforce simp: evmdb_evm_call_def wf_rpc_env_def split: if_splits)
  then show ?thesis
    using bc env decode_address_length [of env]
    by (fastforce simp: handle_call_def read_only_def Let_def bindE_eq_Inr wf_rpc_env_def wf_env_def
        split: option.splits prod.splits if_splits)
qed

lemma dispatch_read_only:
  assumes "wf_rpc_env redisCommand env" and "ok s" and "meth \<noteq> ''eth_sendRawTransaction''"
  shows "read_only (dispatch_method env rpc s request meth i k params) s"
proof -
  note handlers = account_methods_read_only [OF assms(1,2)]
    get_receipt_read_only [OF assms(1,2)] block_methods_read_only [OF assms(1,2)] call_read_only [OF assms(1,2)]
  have const: "read_only (Inr (r, s)) s" for r using assms(2) by (rule read_onlyI)
  show ?thesis
    unfolding dispatch_method_def Let_def
    using assms(3) by (simp add: handlers const)
qed

end

subsection \<open>Sending a transaction\<close>

lemma length_jfield: "length (jfield k v) = length k + length v + 3"
  by (simp add: jfield_def quoted_def)

lemma length_create_address [simp]: "length (evmdb_evm_compute_create_address a n) = 20"
  by (simp add: evmdb_evm_compute_create_address_def Let_def)

lemma length_receipt_json:
  assumes "wf_tx tx"
  shows "length (receipt_json rpc tx b res) < 2048"
proof -
  have "length (receipt_to tx) \<le> 44" "length (receipt_contract tx) \<le> 44"
    using assms by (simp_all add: receipt_to_def receipt_contract_def wf_tx_def snprintf_def quoted_def)
  moreover have "length (u64_hex b) \<le> 18" "length (u64_hex (er_gas_used res)) \<le> 18"
    "length (u64_hex (rpc_base_fee rpc)) \<le> 18" by (rule length_u64_hex)+
  ultimately show ?thesis
    using assms
    by (simp add: receipt_json_def length_jfield quoted_def zeros_hex_def wf_tx_def split: evmdb_tx_type.split)
qed

lemma decode_fresh_length: "decode_fresh hex n = (rc, bs) \<Longrightarrow> length bs \<le> n"
  by (auto simp: decode_fresh_def split: prod.splits dest!: decode_length)

lemma extract_first_length: "extract_first_param_string al request = Some hex \<Longrightarrow> length hex \<le> length request"
proof -
  assume "extract_first_param_string al request = Some hex"
  then obtain pos pos' where "strstr request (quoted ''params'') = Some pos"
    "pos' = dropWhile is_colon_space (drop 8 pos)"
    "hex = takeWhile not_quote (drop 1 (dropWhile is_item_space (drop 1 pos')))"
    by (auto simp: extract_first_param_string_def extract_quoted_string_def find_params_array_def Let_def
        split: option.splits if_splits)
  moreover from this(1) have "length pos \<le> length request" using strstr_Some by fastforce
  ultimately show ?thesis
    using length_takeWhile_le [of not_quote "drop 1 (dropWhile is_item_space (drop 1 pos'))"]
      length_dropWhile_le [of is_item_space "drop 1 pos'"] length_dropWhile_le [of is_colon_space "drop 8 pos"]
    by (simp add: le_diff_conv)
qed

context redis_server
begin

lemma mine_transaction_writes:
  assumes env: "wf_rpc_env redisCommand env" and s: "ok s" and tx: "wf_tx tx" and mem: "re_alloc env 2048"
    and run: "mine_transaction env rpc s i tx bc res = (resp, s')"
  defines "w \<equiv> world_of (kv s)"
  shows "resp = make_response (re_alloc env) i (quoted (hex_of_bytes (tx_hash tx)))" and "ok s'"
    and "world_of (kv s') = w\<lparr>w_block := bc_number bc + 1, w_receipt := (w_receipt w)
      (tx_hash tx := Some (map char_to_byte (receipt_json rpc tx (bc_number bc + 1) res)))\<rparr>"
proof -
  let ?r = "receipt_json rpc tx (bc_number bc + 1) res"
  have rc: "re_redis env = redisCommand" using env by (simp add: wf_rpc_env_def wf_env_def)
  have h: "length (tx_hash tx) = 32" using tx by (simp add: wf_tx_def)
  have len: "length ?r < 2048" using length_receipt_json [OF tx] .
  obtain s1 where s1: "evmdb_state_set_block_number redisCommand s (bc_number bc + 1) = (0, s1)" "ok s1"
    "world_of (kv s1) = w\<lparr>w_block := bc_number bc + 1\<rparr>"
    using set_block_number_writes [OF s] by (auto simp: writes_def w_def)
  obtain s2 where s2: "evmdb_state_set_receipt redisCommand s1 (tx_hash tx) (map char_to_byte ?r) = (0, s2)" "ok s2"
    "world_of (kv s2) = w\<lparr>w_block := bc_number bc + 1, w_receipt := (w_receipt w)(tx_hash tx := Some (map char_to_byte ?r))\<rparr>"
    using set_receipt_writes [OF s1(2) h, of "map char_to_byte ?r"] len s1(3) by (auto simp: writes_def)
  have "snprintf 2048 ?r = ?r" "snprintf 128 (quoted (hex_of_bytes (tx_hash tx))) = quoted (hex_of_bytes (tx_hash tx))"
    using len h by (simp_all add: snprintf_fits quoted_def)
  with run rc s1 s2 mem h
  show "resp = make_response (re_alloc env) i (quoted (hex_of_bytes (tx_hash tx)))" "ok s'"
    "world_of (kv s') = w\<lparr>w_block := bc_number bc + 1, w_receipt := (w_receipt w)
      (tx_hash tx := Some (map char_to_byte ?r))\<rparr>"
    by (simp_all add: mine_transaction_def)
qed

text \<open>The steps of \<open>eth_sendRawTransaction\<close> up to the execution.\<close>

lemma send_raw_cases:
  assumes run: "handle_send_raw_transaction env rpc s i request = Inr (resp, s')" and len: "length request < 2 ^ 64"
  obtains (refused) code msg where "resp = make_error (re_alloc env) i code msg" "s' = s"
  | (executed) hex rc raw tx0 tx where "extract_first_param_string (re_alloc env) request = Some hex"
      "decode_fresh hex (length hex div 2) = (rc, raw)" "0 < rc" "evmdb_tx_decode (re_alloc env) raw = Inr tx0"
      "evmdb_tx_recover_sender (re_alloc env) (re_secp env) tx0 = (Inr (), tx)"
      "wf_tx tx" "length (tx_data tx) < 2 ^ 64" "tx_hash tx = evmdb_keccak256 raw"
      "execute_decoded env rpc s i tx = Inr (resp, s')"
proof (cases "\<exists>code msg. resp = make_error (re_alloc env) i code msg \<and> s' = s")
  case True
  then show thesis using refused by blast
next
  case False
  from run False obtain hex rc raw tx0 tx where
    steps: "extract_first_param_string (re_alloc env) request = Some hex"
      "decode_fresh hex (length hex div 2) = (rc, raw)" "0 < rc" "evmdb_tx_decode (re_alloc env) raw = Inr tx0"
      "evmdb_tx_recover_sender (re_alloc env) (re_secp env) tx0 = (Inr (), tx)"
      "execute_decoded env rpc s i tx = Inr (resp, s')"
    by (force simp: handle_send_raw_transaction_def Let_def on_rc_error_def
        split: option.splits prod.splits if_splits sum.splits)
  have "length raw < 2 ^ 64"
    using decode_fresh_length [OF steps(2)] extract_first_length [OF steps(1)] len by simp
  with tx_decode_inv [OF steps(4)] recover_sender_inv [OF steps(5), of raw]
  have "wf_tx tx" "length (tx_data tx) < 2 ^ 64" "tx_hash tx = evmdb_keccak256 raw"
    by (simp_all add: tx_inv_def)
  with steps show thesis by (intro executed)
qed

end

lemma execute_decoded_effect:
  assumes redis: "redis_server rc kv up" and up: "up s" and wf: "wf_db (kv s)"
    and env: "wf_rpc_env rc env" and tx: "wf_tx tx" "length (tx_data tx) < 2 ^ 64" and mem: "re_alloc env 2048"
    and run: "execute_decoded env rpc s i tx = Inr (resp, s')"
  defines "w \<equiv> world_of (kv s)"
  obtains (refused) msg where "kv s' = kv s" "up s'" "resp = make_error (re_alloc env) i (-32603) msg"
  | (mined) res st where
      "tx_nonce tx = w_nonce w (tx_from tx)" "tx_chain_id tx = 0 \<or> tx_chain_id tx = rpc_chain_id rpc"
      "tx_intrinsic_gas (tx_data tx) \<le> tx_gas_limit tx" "up s'" "wf_db (kv s')"
      "tx_to_is_null tx \<or> \<not> er_success res \<longrightarrow> st = w_storage w"
      "world_of (kv s') = w\<lparr>w_nonce := (w_nonce w)(tx_from tx := tx_nonce tx + 1),
          w_code := (if tx_to_is_null tx then (w_code w)(evmdb_evm_compute_create_address (tx_from tx)
                      (tx_nonce tx) := Some (tx_data tx)) else w_code w),
          w_storage := st, w_block := w_block w + 1,
          w_receipt := (w_receipt w)(tx_hash tx := Some (map char_to_byte
            (receipt_json rpc tx (w_block w + 1) res)))\<rparr>"
      "resp = make_response (re_alloc env) i (quoted (hex_of_bytes (tx_hash tx)))"
proof -
  note ok = server_okI [OF redis up wf]
  note okD = redis_server.ok_def [OF redis]
  have xenv: "wf_env rc (re_exec env)" using env by (simp add: wf_rpc_env_def)
  obtain s0 where s0': "make_block_context env rpc s =
      (\<lparr>bc_number = w_block w, bc_timestamp = re_time env s0, bc_coinbase = zero_address,
        bc_gas_limit = rpc_gas_limit rpc, bc_base_fee = rpc_base_fee rpc, bc_chain_id = rpc_chain_id rpc\<rparr>, s0)"
    "kv s0 = kv s" "redis_server.ok kv up s0"
    unfolding w_def by (rule redis_server.block_context_reads [OF redis env ok])
  obtain bc where bc: "make_block_context env rpc s = (bc, s0)" "kv s0 = kv s" "redis_server.ok kv up s0"
    "bc_number bc = w_block w" "bc_chain_id bc = rpc_chain_id rpc"
    using s0' by simp
  have s0: "up s0" "wf_db (kv s0)" using bc(3) by (simp_all add: okD)
  obtain rcode res s1 where ex: "evmdb_evm_execute_tx (evm_ready (rpc_evm rpc)) (re_exec env) s0 tx (Some bc) zero_exec_result
      = Inr (rcode, res, s1)"
    and fin: "(if rcode \<noteq> 0 then Inr (make_error (re_alloc env) i (-32603) (er_error res), s1)
      else Inr (mine_transaction env rpc s1 i tx bc res)) = (Inr (resp, s') :: (string option \<times> 'a) cres)"
    using run by (auto simp: execute_decoded_def bc(1) bindE_eq_Inr)
  show thesis
  proof (cases "rcode = 0")
    case False
    with fin redis_server.execute_tx_failed [OF redis xenv bc(3) tx(1) ex] bc(2) show thesis
      by (intro refused) (auto simp: okD)
  next
    case True
    with fin have mine: "mine_transaction env rpc s1 i tx bc res = (resp, s')" by simp
    obtain st where
      eff: "tx_admitted w tx (Some bc)" "up s1" "wf_db (kv s1)"
        "tx_to_is_null tx \<or> \<not> er_success res \<longrightarrow> st = w_storage w"
        "world_of (kv s1) = w\<lparr>w_nonce := (w_nonce w)(tx_from tx := tx_nonce tx + 1),
          w_code := (if tx_to_is_null tx then (w_code w)(evmdb_evm_compute_create_address (tx_from tx)
                      (tx_nonce tx) := Some (tx_data tx)) else w_code w), w_storage := st\<rparr>"
      using tx_world_effect [OF redis s0 xenv tx ex [unfolded True]]
      unfolding bc(2) w_def [symmetric] by blast
    have ok1: "redis_server.ok kv up s1" using eff(2,3) by (simp add: okD)
    note mined' = redis_server.mine_transaction_writes [OF redis env ok1 tx(1) mem mine]
    show thesis
      using eff mined' bc(4,5) by (intro mined [of res st]) (simp_all add: tx_admitted_def okD)
  qed
qed

subsection \<open>Properties\<close>

text \<open>
  C1: \<open>eth_sendRawTransaction\<close> on a well-formed database has one of two outcomes. Either the answer is
  an error and the database is unchanged; or the first parameter was the hex text of a transaction
  that decodes, whose sender was recovered, whose nonce is the sender's, whose chain id is 0 or the
  server's and whose gas limit covers the intrinsic gas, and then the world changes exactly so: the
  nonce goes up by one, a creation stores its code, a successful call may change storage, the block
  number goes up by one and the receipt is stored under the transaction's hash, which is also the
  answer. This holds when the 2048 bytes for the receipt can be allocated.
\<close>

theorem rpc_send_raw_effect:
  assumes redis: "redis_server rc kv up" and up: "up s" and wf: "wf_db (kv s)"
    and env: "wf_rpc_env rc env" and mem: "re_alloc env 2048" and len: "length request < 2 ^ 64"
    and run: "handle_send_raw_transaction env rpc s i request = Inr (resp, s')"
  defines "w \<equiv> world_of (kv s)"
  shows "(kv s' = kv s \<and> (\<exists>code msg. resp = make_error (re_alloc env) i code msg))
    \<or> (\<exists>hex n raw tx0 tx res st. extract_first_param_string (re_alloc env) request = Some hex
        \<and> decode_fresh hex (length hex div 2) = (n, raw) \<and> 0 < n
        \<and> evmdb_tx_decode (re_alloc env) raw = Inr tx0
        \<and> evmdb_tx_recover_sender (re_alloc env) (re_secp env) tx0 = (Inr (), tx)
        \<and> tx_nonce tx = w_nonce w (tx_from tx) \<and> (tx_chain_id tx = 0 \<or> tx_chain_id tx = rpc_chain_id rpc)
        \<and> tx_intrinsic_gas (tx_data tx) \<le> tx_gas_limit tx
        \<and> up s' \<and> wf_db (kv s') \<and> (tx_to_is_null tx \<or> \<not> er_success res \<longrightarrow> st = w_storage w)
        \<and> world_of (kv s') = w\<lparr>w_nonce := (w_nonce w)(tx_from tx := tx_nonce tx + 1),
            w_code := (if tx_to_is_null tx then (w_code w)(evmdb_evm_compute_create_address (tx_from tx)
                        (tx_nonce tx) := Some (tx_data tx)) else w_code w),
            w_storage := st, w_block := w_block w + 1,
            w_receipt := (w_receipt w)(evmdb_keccak256 raw := Some (map char_to_byte
              (receipt_json rpc tx (w_block w + 1) res)))\<rparr>
        \<and> resp = make_response (re_alloc env) i (quoted (hex_of_bytes (evmdb_keccak256 raw))))"
proof (cases rule: redis_server.send_raw_cases [OF redis run len])
  case 1
  then show ?thesis by blast
next
  case (2 hex n raw tx0 tx)
  note sent = 2(1-5)
  note hash = 2(8)
  show ?thesis
  proof (cases rule: execute_decoded_effect [OF redis up wf env 2(6,7) mem 2(9)])
    case 1
    then show ?thesis by blast
  next
    case (2 res st)
    show ?thesis
      unfolding w_def
      by (rule disjI2, rule exI [of _ hex], rule exI [of _ n], rule exI [of _ raw], rule exI [of _ tx0],
          rule exI [of _ tx], rule exI [of _ res], rule exI [of _ st])
        (intro conjI sent 2 [unfolded hash])
  qed
qed

text \<open>
  C6: every method but \<open>eth_sendRawTransaction\<close> is read-only: whatever the request text, if its method
  is another one and the request is answered, the database is the same afterwards and still
  well-formed.
\<close>

theorem rpc_other_methods_read_only:
  assumes redis: "redis_server rc kv up" and up: "up s" and wf: "wf_db (kv s)" and env: "wf_rpc_env rc env"
    and meth: "fst (snd (evmdb_json_parse_method request [] 64 32)) \<noteq> ''eth_sendRawTransaction''"
    and run: "dispatch_single env rpc s request = Inr (resp, s')"
  shows "kv s' = kv s \<and> up s'"
proof -
  obtain m i k ps where p: "evmdb_json_parse_method request [] 64 32 = (0, m, i)"
    "evmdb_json_parse_params request (replicate 8 []) 8 = (k, ps)" "m \<noteq> ''eth_sendRawTransaction''"
    using meth by (cases "evmdb_json_parse_params request (replicate 8 []) 8") (auto simp: evmdb_json_parse_method_def)
  from redis_server.dispatch_read_only [OF redis env server_okI [OF redis up wf] p(3), of rpc request i k ps] run p(1,2)
  show ?thesis
    by (auto simp: dispatch_single_def redis_server.read_only_def [OF redis] redis_server.ok_def [OF redis])
qed

text \<open>The receipt text has no NUL.\<close>

lemma NUL_hex [simp]: "NUL \<notin> set (hex_of_bytes bs)"
  using plain_hex [of bs] by (simp add: plain_def)

lemma NUL_u64_hex [simp]: "NUL \<notin> set (u64_hex v)"
  using is_hex_no_NUL [OF is_hex_print_base, of "unat v"] by (simp add: u64_hex_eq NUL_def)

lemma NUL_snprintf: "NUL \<notin> set s \<Longrightarrow> NUL \<notin> set (snprintf n s)"
  by (auto simp: snprintf_def dest: in_set_takeD)

lemma NUL_quoted [simp]: "NUL \<in> set (quoted s) \<longleftrightarrow> NUL \<in> set s"
  by (auto simp: quoted_def NUL_def)

lemma NUL_jfield [simp]: "NUL \<in> set (jfield k v) \<longleftrightarrow> NUL \<in> set k \<or> NUL \<in> set v"
  by (auto simp: jfield_def) (simp add: NUL_def)

lemma NUL_receipt_json:
  assumes "wf_tx tx"
  shows "NUL \<notin> set (receipt_json rpc tx b res)"
proof -
  have "NUL \<notin> set (receipt_to tx)" "NUL \<notin> set (receipt_contract tx)"
    using assms by (auto simp: receipt_to_def receipt_contract_def wf_tx_def intro!: NUL_snprintf) (simp_all add: NUL_def)
  moreover have "NUL \<notin> set (zeros_hex n)" for n by (simp add: zeros_hex_def) (simp add: NUL_def)
  ultimately show ?thesis
    using assms
    by (simp add: receipt_json_def wf_tx_def split: evmdb_tx_type.split) (simp add: NUL_def)
qed

lemma char_to_byte_0_iff: "char_to_byte c = 0 \<longleftrightarrow> c = NUL"
proof
  assume "char_to_byte c = 0"
  then have "c = byte_to_char 0" by (metis byte_to_char_to_byte)
  then show "c = NUL" by (simp add: byte_to_char_def NUL_def char_of_def)
qed (simp add: char_to_byte_def NUL_def)

text \<open>
  C37: the receipt that \<open>eth_sendRawTransaction\<close> stores cannot be read back safely: the state layer
  copies it to a heap block of exactly its length, without a terminating NUL, and
  \<open>eth_getTransactionReceipt\<close> passes that block on as a C string. For every receipt text the program
  stores, the query reads past the end of the block.
\<close>

theorem rpc_receipt_overread:
  assumes redis: "redis_server rc kv up" and up: "up s" and wf: "wf_db (kv s)" and env: "wf_rpc_env rc env"
    and h: "length h = 32" and tx: "wf_tx tx"
    and stored: "w_receipt (world_of (kv s)) h = Some (map char_to_byte (receipt_json rpc tx b res))"
    and mem: "re_alloc env (length (receipt_json rpc tx b res))" and k: "1 \<le> k"
  shows "handle_get_transaction_receipt env s i (hex_of_bytes h # ps) k = Inl OutOfBounds"
proof -
  let ?r = "receipt_json rpc tx b res"
  have junk: "length (env_junk (re_exec env)) = 32" and rc: "re_redis env = rc"
    using env by (simp_all add: wf_rpc_env_def wf_env_def)
  have "length ?r < 2048" "?r \<noteq> []" using length_receipt_json [OF tx] by (simp_all add: receipt_json_def)
  then have "(word_of_nat (length ?r) :: size_t) \<noteq> 0"
    using unat_word_of_nat64 [of "length ?r"] by (simp flip: unat_eq_zero)
  moreover obtain s' where "evmdb_state_get_receipt (re_alloc env) rc s h
      = ((Some (map char_to_byte ?r), word_of_nat (length ?r)), s')"
    using redis_server.get_receipt_reads [OF redis server_okI [OF redis up wf] h, of "re_alloc env"] stored mem
    by (auto simp: redis_server.reads_def [OF redis])
  moreover have "0 \<notin> set (map char_to_byte ?r)"
    using NUL_receipt_json [OF tx] by (force simp: char_to_byte_0_iff)
  ultimately show ?thesis
    using k by (simp add: handle_get_transaction_receipt_def decode_bytes32_hex h junk rc heap_cstr_def)
qed

end
