(* ===== verification/Evm_Sample.thy ===== *)
theory Evm_Sample
  imports Evm_Send
begin

text \<open>
  A transaction that goes all the way: its signed encoding is sent as the parameter of
  \<open>eth_sendRawTransaction\<close> to a database in which its sender has the matching nonce.
\<close>

lemma extract_first_request:
  assumes "plain meth" and "meth \<noteq> ''params''" and "plain p"
  shows "extract_first_param_string (\<lambda>_. True) (request_text n meth (p # ps)) = Some p"
proof -
  have "find_params_array (request_text n meth (p # ps)) = Some (quoted p @ more_params ps @ '']'' @ [CHR 0x7D])"
    using request_find_params [of meth n "p # ps"] assms(1,2) join_commas_Cons [of p ps]
    by (simp add: find_params_array_def plain_def is_colon_space_def peek_def quoted_def)
  moreover have "takeWhile not_quote (p @ CHR 0x22 # rest) = p" for rest
    using assms(3) takeWhile_all_stop [of not_quote p] by (simp add: plain_def not_quote_def)
  ultimately show ?thesis
    by (simp add: extract_first_param_string_def extract_quoted_string_def quoted_def is_item_space_def peek_def)
qed

lemma decode_fresh_hex:
  "length bs < 2 ^ 31 - 1 \<Longrightarrow> decode_fresh (hex_of_bytes bs) (length (hex_of_bytes bs) div 2) = (int (length bs), bs)"
  by (simp add: decode_fresh_def hex_of_bytes_def hex_decode_hex_bytes [simplified])

definition paid_tx :: evmdb_tx where
  "paid_tx = sample_tx\<lparr>tx_data := []\<rparr>"

definition paid_wire :: evmdb_tx where
  "paid_wire = paid_tx\<lparr>tx_raw := encode_signed paid_tx, tx_hash := evmdb_keccak256 (encode_signed paid_tx)\<rparr>"

definition sample_sender :: evmdb_address where
  "sample_sender = drop 12 (evmdb_keccak256 (replicate 64 0))"

definition send_db :: keyspace where
  "send_db = Map.empty(account_key sample_sender \<mapsto> RHash [''nonce'' \<mapsto> ''9''])"

lemma wf_send_db: "wf_db send_db"
  by (simp add: wf_db_def send_db_def hash_of_def hash_field_def string_at_def word_text_def)

lemma length_paid: "length (encode_signed paid_tx) < 100"
  by (simp add: paid_tx_def sample_tx_def encode_eval)

lemma paid_decodes: "evmdb_tx_decode (\<lambda>_. True) (encode_signed paid_tx) = Inr paid_wire"
proof -
  have "encode_signed paid_wire = encode_signed paid_tx"
    by (simp add: paid_wire_def encode_signed_def legacy_fields_def eip1559_fields_def
        signature_fields_def rlp_recipient_def)
  then have "wire_tx paid_wire"
    by (simp add: wire_tx_def wf_tx_def paid_wire_def) (simp add: paid_tx_def sample_tx_def zero_tx_def)
  then show ?thesis
    using tx_decode_encode [of paid_wire "\<lambda>_. True"] length_paid by (simp add: paid_wire_def)
qed

lemma paid_recovers:
  "evmdb_tx_recover_sender (\<lambda>_. True) sample_secp paid_wire = (Inr (), paid_wire\<lparr>tx_from := sample_sender\<rparr>)"
proof -
  have "wf_tx paid_wire" "tx_type paid_wire \<noteq> EVMDB_TX_EIP2930"
    by (simp_all add: wf_tx_def paid_wire_def paid_tx_def sample_tx_def zero_tx_def)
  moreover have "length (signing_preimage paid_wire) \<le> buf_bound"
    by (simp add: paid_wire_def paid_tx_def sample_tx_def signing_preimage_def encode_eval buf_bound_def)
  ultimately have "evmdb_tx_signing_hash (\<lambda>_. True) paid_wire = Inr (evmdb_keccak256 (signing_preimage paid_wire))"
    by (rule signing_hash_cases [where alloc = "\<lambda>_. True"]) auto
  moreover have "tx_type paid_wire = EVMDB_TX_LEGACY" "tx_v paid_wire = 37" "tx_r paid_wire = zero_bytes32" "tx_s paid_wire = zero_bytes32"
    by (simp_all add: paid_wire_def paid_tx_def sample_tx_def zero_tx_def)
  ultimately show ?thesis
    by (simp add: evmdb_tx_recover_sender_def recovery_id_def secp_pubkey_def sample_secp_def sample_sender_def
        zero_bytes32_def flip: replicate_add)
qed

definition send_request :: string where
  "send_request = request_text 1 ''eth_sendRawTransaction'' [hex_of_bytes (encode_signed paid_tx)]"

lemma send_request_parses:
  "extract_first_param_string (\<lambda>_. True) send_request = Some (hex_of_bytes (encode_signed paid_tx))"
  "decode_fresh (hex_of_bytes (encode_signed paid_tx)) (length (hex_of_bytes (encode_signed paid_tx)) div 2)
    = (int (length (encode_signed paid_tx)), encode_signed paid_tx)"
proof -
  have "plain ''eth_sendRawTransaction''" by (simp add: plain_def not_quote_def NUL_def)
  then show "extract_first_param_string (\<lambda>_. True) send_request = Some (hex_of_bytes (encode_signed paid_tx))"
    by (simp add: send_request_def extract_first_request)
  show "decode_fresh (hex_of_bytes (encode_signed paid_tx)) (length (hex_of_bytes (encode_signed paid_tx)) div 2)
      = (int (length (encode_signed paid_tx)), encode_signed paid_tx)"
    by (rule decode_fresh_hex) (use length_paid in simp)
qed

lemma send_request_executes:
  "handle_send_raw_transaction sample_rpc_env rpc s i send_request
    = execute_decoded sample_rpc_env rpc s i (paid_wire\<lparr>tx_from := sample_sender\<rparr>)"
proof -
  have "encode_signed paid_tx \<noteq> []" by (simp add: encode_signed_def rlp_list_def signature_fields_def)
  then show ?thesis
    using send_request_parses sample_rpc_env(2) paid_decodes paid_recovers
    by (simp add: handle_send_raw_transaction_def on_rc_error_def sample_rpc_env_def del: length_hex_of_bytes)
qed

lemma length_sample_sender [simp]: "length sample_sender = 20"
  by (simp add: sample_sender_def)

lemma send_runs: "\<exists>resp s'. handle_send_raw_transaction sample_rpc_env sample_rpc send_db i send_request
    = Inr (resp, s') \<and> s' block_key = Some (RString ''1'')"
proof -
  have p: "print_u64 1 = ''1''"
    by (simp add: print_u64_def print_base.simps hex_chars_def)
  show ?thesis
    unfolding send_request_executes
    by (simp add: execute_decoded_def make_block_context_def evmdb_state_get_block_number_def
        sample_rpc_env_def sample_env_def sample_rpc_def evm_ready_def evmdb_evm_execute_tx_def
        evmdb_state_get_nonce_def redis_mem_def send_db_def account_key_def hash_of_def get_reply_def
        strtoull_def cstr_def NUL_def isspace_def scan_sign_def scan_base_def digit_val_def
        paid_wire_def paid_tx_def sample_tx_def zero_tx_def tx_intrinsic_gas_def execute_contract_def
        evmdb_state_get_code_def evmdb_state_set_nonce_def mem_hset_def mine_transaction_def
        evmdb_state_set_block_number_def evmdb_state_set_receipt_def block_key_def p)
qed

subsection \<open>Witnesses\<close>

theorem rpc_send_raw_effect_witness:
  "\<exists>resp s'. handle_send_raw_transaction sample_rpc_env sample_rpc send_db ''1'' send_request = Inr (resp, s')
    \<and> w_block (world_of s') = 1 \<and> w_nonce (world_of s') sample_sender = 10"
proof -
  obtain resp s' where run: "handle_send_raw_transaction sample_rpc_env sample_rpc send_db ''1'' send_request
      = Inr (resp, s')" and s': "s' block_key = Some (RString ''1'')"
    using send_runs by blast
  have "s' \<noteq> send_db" using s' by (auto simp: send_db_def)
  moreover have "length send_request < 2 ^ 64"
    using length_paid by (simp add: send_request_def request_text_def quoted_def print_base.simps)
  moreover have "w_block (world_of send_db) = 0" "w_nonce (world_of send_db) sample_sender = 9"
    by (simp_all add: world_of_def send_db_def hash_field_def string_at_def number_of_def strtoull_def cstr_def
        NUL_def isspace_def scan_sign_def scan_base_def digit_val_def)
  moreover have "re_alloc sample_rpc_env 2048" by (simp add: sample_rpc_env_def sample_env_def)
  moreover have "tx_nonce paid_wire = 9" by (simp add: paid_wire_def paid_tx_def sample_tx_def)
  moreover have "re_secp sample_rpc_env = sample_secp" by (simp add: sample_rpc_env_def)
  ultimately show ?thesis
    using rpc_send_raw_effect [OF redis_mem.redis_server_axioms, OF _ wf_send_db sample_rpc_env(1) _ _ run] run
    by (auto simp: sample_rpc_env(2) send_request_parses paid_decodes paid_recovers simp del: length_hex_of_bytes)
qed

lemma plain_block_number: "plain ''eth_blockNumber''"
  by (simp add: plain_def not_quote_def NUL_def)

theorem rpc_other_methods_read_only_witness:
  "\<exists>resp s'. dispatch_single sample_rpc_env sample_rpc sample_db (request_text 1 ''eth_blockNumber'' []) = Inr (resp, s')
    \<and> s' = sample_db"
proof -
  have one: "print_base 10 1 = ''1''" by (simp add: print_base.simps hex_chars_def)
  have parse: "evmdb_json_parse_method (request_text 1 ''eth_blockNumber'' []) [] 64 32 = (0, ''eth_blockNumber'', ''1'')"
    using parse_method_request [OF plain_block_number, of 64 1 32 "[]" "[]"] one by simp
  have "\<exists>r. dispatch_single sample_rpc_env sample_rpc sample_db (request_text 1 ''eth_blockNumber'' []) = Inr r"
    using dispatch_request [OF plain_block_number, of 1 "[]" sample_rpc_env sample_rpc sample_db] one
    by (auto simp: dispatch_method_def)
  then obtain resp s' where run: "dispatch_single sample_rpc_env sample_rpc sample_db
      (request_text 1 ''eth_blockNumber'' []) = Inr (resp, s')" by auto
  from rpc_other_methods_read_only [OF redis_mem.redis_server_axioms, OF _ wf_sample_db sample_rpc_env(1) _ run]
  show ?thesis using run by (simp add: parse [simplified])
qed

text \<open>A database with the receipt of the sample transaction.\<close>

definition receipt_db :: keyspace where
  "receipt_db = Map.empty(receipt_key zero_bytes32
     \<mapsto> RString (receipt_json sample_rpc zero_tx 1 zero_exec_result))"

theorem rpc_receipt_overread_witness:
  "handle_get_transaction_receipt sample_rpc_env receipt_db ''1'' [hex_of_bytes zero_bytes32] 1 = Inl OutOfBounds"
proof (rule rpc_receipt_overread [OF redis_mem.redis_server_axioms])
  have "length (receipt_json sample_rpc zero_tx 1 zero_exec_result) < 2 ^ 64"
    using length_receipt_json [OF wf_zero_tx, of sample_rpc 1 zero_exec_result] by simp
  then show "wf_db receipt_db"
    by (simp add: wf_db_def receipt_db_def hash_of_def hash_field_def string_at_def word_text_def)
  show "w_receipt (world_of receipt_db) zero_bytes32
      = Some (map char_to_byte (receipt_json sample_rpc zero_tx 1 zero_exec_result))"
    by (simp add: world_of_def receipt_db_def string_at_def)
qed (simp_all add: sample_rpc_env)

end
