(* ===== verification/Evm_Batch.thy ===== *)
theory Evm_Batch
  imports Evm_Sample
begin

text \<open>
  Batches: a JSON array of requests is answered with the array of the answers that the requests get
  one after the other, each on the state that its predecessor left. The loop that doubles the
  buffer ends, and the buffer is large enough for every write.
\<close>

subsection \<open>Specification\<close>

fun serve_all ::
  "('r, 'sig, 'pk) rpc_env \<Rightarrow> evmdb_rpc \<Rightarrow> 'r \<Rightarrow> string list \<Rightarrow> (string list \<times> 'r) cres" where
  "serve_all env rpc s [] = Inr ([], s)"
| "serve_all env rpc s (item # items) =
     bindE (dispatch_single env rpc s item) (\<lambda>(r, s).
     bindE (serve_all env rpc s items) (\<lambda>(rs, s).
       Inr (case r of Some t \<Rightarrow> t # rs | None \<Rightarrow> rs, s)))"

text \<open>A JSON object without nested objects.\<close>

definition no_braces :: "string \<Rightarrow> bool" where
  "no_braces s \<longleftrightarrow> CHR 0x7B \<notin> set s \<and> CHR 0x7D \<notin> set s"

definition object_text :: "string \<Rightarrow> string" where
  "object_text body = [CHR 0x7B] @ body @ [CHR 0x7D]"

subsection \<open>The text of one request\<close>

lemma scan_item_body: "no_braces body \<Longrightarrow> scan_item 1 (body @ CHR 0x7D # rest) = (body @ [CHR 0x7D], rest)"
  by (induction body) (auto simp: no_braces_def)

lemma scan_item_object:
  assumes "no_braces body"
  shows "scan_item 0 (object_text body @ rest) = (object_text body, rest)"
  using scan_item_body [OF assms, of rest] by (simp add: object_text_def)

subsection \<open>The buffer\<close>

lemma unat_pow2: "k < 64 \<Longrightarrow> unat (2 ^ k :: size_t) = 2 ^ k"
  using unat_word_of_nat64 [of "2 ^ k"] power_strict_increasing [of k 64 "2 :: nat"] by simp

lemma batch_grow_ends:
  assumes "needed \<le> 2 ^ 63" and "k \<le> 63" and "63 - k < fuel"
  shows "\<exists>m. m \<le> 63 \<and> needed \<le> 2 ^ m \<and> batch_grow fuel (\<lambda>_. True) needed (2 ^ k) = Inr (2 ^ m)"
  using assms
proof (induction fuel arbitrary: k)
  case (Suc fuel)
  show ?case
  proof (cases "needed > 2 ^ k")
    case True
    then have "k \<noteq> 63" using Suc.prems(1) by auto
    with Suc.prems Suc.IH [of "Suc k"] True show ?thesis by (simp add: mult.commute)
  next
    case False
    with Suc.prems show ?thesis by (intro exI [of _ k]) simp
  qed
qed simp

definition buf_inv :: "batch_buf \<Rightarrow> bool" where
  "buf_inv buf \<longleftrightarrow> (\<exists>k \<le> 63. bb_cap buf = 2 ^ k \<and> length (bb_text buf) + 2 \<le> 2 ^ k)"

fun batch_text :: "bool \<Rightarrow> string list \<Rightarrow> string" where
  "batch_text first [] = []"
| "batch_text first (r # rs) = (if first then [] else '','') @ r @ batch_text False rs"

lemma batch_text_join: "batch_text True rs = join_commas rs"
proof -
  have "batch_text False (r # rs) = '','' @ join_commas (r # rs)" for r rs
    by (induction rs arbitrary: r) simp_all
  then show ?thesis by (cases rs rule: join_commas.cases) simp_all
qed

lemma batch_append_ok:
  assumes inv: "buf_inv buf" and len: "length (bb_text buf) + length r + 4 \<le> 2 ^ 62"
  obtains buf' where "batch_append (\<lambda>_. True) buf r = Inr buf'" "buf_inv buf'" "\<not> bb_first buf'"
    "bb_text buf' = bb_text buf @ (if bb_first buf then [] else '','') @ r"
proof -
  let ?needed = "word_of_nat (length (bb_text buf)) + word_of_nat (length r) + 4 :: size_t"
  have eq: "?needed = word_of_nat (length (bb_text buf) + length r + 4)" by simp
  have needed: "unat ?needed = length (bb_text buf) + length r + 4"
    unfolding eq using len by (intro unat_word_of_nat64) simp
  then have "?needed \<le> 2 ^ 63"
    using len unat_pow2 [of 63] by (simp add: word_le_nat_alt)
  moreover from inv obtain k where k: "k \<le> 63" "bb_cap buf = 2 ^ k" by (auto simp: buf_inv_def)
  moreover have "63 - k < 66" by simp
  ultimately obtain m where m: "m \<le> 63" "?needed \<le> 2 ^ m"
    "batch_grow 66 (\<lambda>_. True) ?needed (bb_cap buf) = Inr (2 ^ m)"
    using batch_grow_ends [of ?needed k 66] unfolding k(2) by blast
  have fits: "length (bb_text buf) + length r + 4 \<le> 2 ^ m"
    using m(1,2) needed unat_pow2 [of m] by (simp add: word_le_nat_alt)
  show thesis
  proof (rule that)
    show "batch_append (\<lambda>_. True) buf r = Inr (buf\<lparr>bb_text := bb_text buf @ (if bb_first buf then [] else '','') @ r,
        bb_cap := 2 ^ m, bb_first := False\<rparr>)"
      using m fits unat_pow2 [of m] by (simp add: batch_append_def)
    show "buf_inv (buf\<lparr>bb_text := bb_text buf @ (if bb_first buf then [] else '','') @ r,
        bb_cap := 2 ^ m, bb_first := False\<rparr>)"
      using m(1) fits by (auto simp: buf_inv_def)
  qed simp_all
qed

lemma batch_close_ok: "buf_inv buf \<Longrightarrow> length (bb_text buf) + 2 < 2 ^ 64 \<Longrightarrow>
    batch_close al buf = Inr (bb_text buf @ '']'')"
proof -
  assume inv: "buf_inv buf" and len: "length (bb_text buf) + 2 < 2 ^ 64"
  have "word_of_nat (length (bb_text buf)) + 2 = (word_of_nat (length (bb_text buf) + 2) :: size_t)" by simp
  then have "unat (word_of_nat (length (bb_text buf)) + 2 :: size_t) = length (bb_text buf) + 2"
    using unat_word_of_nat64 [OF len] by metis
  with inv have "\<not> word_of_nat (length (bb_text buf)) + 2 > bb_cap buf"
    by (auto simp: buf_inv_def word_less_nat_alt unat_pow2)
  then show ?thesis by (simp add: batch_close_def)
qed

subsection \<open>The loop\<close>

lemma batch_loop_object:
  assumes "list_all is_item_space pre" and "no_braces body" and "re_alloc env = (\<lambda>_. True)"
  shows "batch_loop env rpc s (pre @ object_text body @ rest) buf
    = (case dispatch_single env rpc s (object_text body) of
         Inl e \<Rightarrow> Inl e
       | Inr (None, s) \<Rightarrow> batch_loop env rpc s rest buf
       | Inr (Some r, s) \<Rightarrow> on_rc_error (batch_append (\<lambda>_. True) buf r) (Inr (None, s))
           (\<lambda>buf. batch_loop env rpc s rest buf))"
proof -
  have "dropWhile is_item_space (pre @ object_text body @ rest) = object_text body @ rest"
    using assms(1) by (simp add: dropWhile_append list_all_iff object_text_def is_item_space_def)
  moreover have "object_text body \<noteq> []" "peek (object_text body @ rest) = CHR 0x7B"
    by (simp_all add: object_text_def peek_def)
  ultimately show ?thesis
    using scan_item_object [OF assms(2), of rest] assms(3)
    by (subst batch_loop.simps) (simp add: Let_def split: sum.split prod.split option.split)
qed

text \<open>The requests behind the opening bracket; \<open>pre\<close> is what stands in front of the first one.\<close>

fun objects_text :: "string \<Rightarrow> string list \<Rightarrow> string" where
  "objects_text pre [] = []"
| "objects_text pre (b # bs) = pre @ object_text b @ objects_text '','' bs"

lemma join_objects: "join_commas (map object_text bodies) = objects_text [] bodies"
proof -
  have "join_commas (map object_text (b # bs)) = object_text b @ objects_text '','' bs" for b bs
    by (induction bs arbitrary: b) simp_all
  then show ?thesis by (cases bodies) simp_all
qed

lemma batch_loop_all:
  assumes "serve_all env rpc s (map object_text bodies) = Inr (rs, s')" and "list_all no_braces bodies"
    and "re_alloc env = (\<lambda>_. True)" and "buf_inv buf" and "pre = [] \<or> pre = '',''"
    and "length (bb_text buf) + sum_list (map (\<lambda>r. length r + 1) rs) + 4 \<le> 2 ^ 62"
  shows "\<exists>buf'. batch_loop env rpc s (objects_text pre bodies @ CHR '']'' # rest) buf = Inr (Some buf', s')
    \<and> bb_text buf' = bb_text buf @ batch_text (bb_first buf) rs \<and> buf_inv buf'"
  using assms
proof (induction bodies arbitrary: s rs buf pre)
  case Nil
  then show ?case
    by (subst batch_loop.simps) (simp add: peek_def is_item_space_def)
next
  case (Cons b bs)
  let ?rest = "objects_text '','' bs @ CHR '']'' # rest"
  from Cons.prems(1) obtain r s1 qs where d: "dispatch_single env rpc s (object_text b) = Inr (r, s1)"
    and q: "serve_all env rpc s1 (map object_text bs) = Inr (qs, s')"
    and rs: "rs = (case r of Some t \<Rightarrow> t # qs | None \<Rightarrow> qs)"
    by (auto simp: bindE_eq_Inr)
  have pre: "list_all is_item_space pre" using Cons.prems(5) by (auto simp: is_item_space_def)
  note step = batch_loop_object [OF pre _ Cons.prems(3), of b rpc s ?rest buf]
  show ?case
  proof (cases r)
    case None
    with step d q rs Cons.prems Cons.IH [of s1 qs buf "'',''"] show ?thesis by simp
  next
    case (Some t)
    have "length (bb_text buf) + length t + 4 \<le> 2 ^ 62" using Cons.prems(6) rs Some by simp
    with Cons.prems(4) obtain buf' where buf': "batch_append (\<lambda>_. True) buf t = Inr buf'" "buf_inv buf'" "\<not> bb_first buf'"
      "bb_text buf' = bb_text buf @ (if bb_first buf then [] else '','') @ t"
      by (rule batch_append_ok)
    have "length (bb_text buf') + sum_list (map (\<lambda>r. length r + 1) qs) + 4 \<le> 2 ^ 62"
      using Cons.prems(6) rs Some buf'(4) by simp
    with step d q rs Some buf' Cons.prems Cons.IH [of s1 qs buf' "'',''"] show ?thesis
      by (simp add: on_rc_error_def)
  qed
qed

subsection \<open>Property\<close>

text \<open>
  C8: a batch request is the sequence of its requests. For an array of requests without nested
  objects, if serving them one after the other, each on the state its predecessor left, gives the
  responses \<open>rs\<close> and the state \<open>s'\<close>, then the batch is answered with the array of these responses and
  leaves \<open>s'\<close>; the length returned is that of the text. In particular the loops over the text and over
  the capacity of the buffer end, and no write leaves the buffer. No allocation is refused, and
  the responses together stay below 2^62 bytes.
\<close>

theorem rpc_batch_sequential:
  assumes serve: "serve_all env rpc s (map object_text bodies) = Inr (rs, s')" and "list_all no_braces bodies"
    and mem: "re_alloc env = (\<lambda>_. True)" and size: "sum_list (map (\<lambda>r. length r + 1) rs) < 2 ^ 62 - 8"
  defines "t \<equiv> ''['' @ join_commas rs @ '']''"
  shows "evmdb_rpc_handle_request env rpc s (''['' @ join_commas (map object_text bodies) @ '']'')
    = Inr (0, Some t, word_of_nat (length t), s')"
proof -
  let ?buf = "\<lparr>bb_text = ''['', bb_cap = 4096, bb_first = True\<rparr>"
  have "buf_inv ?buf" by (auto simp: buf_inv_def intro!: exI [of _ 12])
  then obtain buf' where loop: "batch_loop env rpc s (objects_text [] bodies @ '']'') ?buf = Inr (Some buf', s')"
    and tx: "bb_text buf' = ''['' @ join_commas rs" and inv: "buf_inv buf'"
    using batch_loop_all [OF serve assms(2) mem, of ?buf "[]" "[]"] size by (auto simp: batch_text_join)
  have "length (batch_text f rs) \<le> sum_list (map (\<lambda>r. length r + 1) rs)" for f
    by (induction rs arbitrary: f) (auto intro: le_SucI)
  then have "length (join_commas rs) < 2 ^ 62" using size batch_text_join [of rs]
    by (metis (no_types, lifting) diff_le_self le_less_trans less_le_trans)
  then have "batch_close (re_alloc env) buf' = Inr (''['' @ join_commas rs @ '']'')"
    using batch_close_ok [OF inv, of "re_alloc env"] tx by simp
  with loop mem show ?thesis
    by (simp add: evmdb_rpc_handle_request_def is_leading_space_def peek_def join_objects assms(5))
qed

definition chain_id_body :: string where
  "chain_id_body = butlast (drop 1 (request_text 1 ''eth_chainId'' []))"

lemma one_digit: "print_base 10 1 = ''1''" "print_base 16 1 = ''1''"
  by (simp_all add: print_base.simps hex_chars_def)

lemma chain_id_object: "object_text chain_id_body = request_text 1 ''eth_chainId'' []" "no_braces chain_id_body"
  using one_digit by (simp_all add: object_text_def chain_id_body_def request_text_def quoted_def no_braces_def)

lemma chain_id_served:
  "dispatch_single sample_rpc_env sample_rpc s (object_text chain_id_body)
    = Inr (Some (response_text ''1'' (quoted ''0x1'')), s)"
proof -
  have "plain ''eth_chainId''" by (simp add: plain_def not_quote_def NUL_def)
  from dispatch_request [OF this, of 1 "[]" sample_rpc_env sample_rpc s] one_digit show ?thesis
    by (simp add: chain_id_object dispatch_method_def handle_chain_id_def respond_u64_text make_response_text
        sample_rpc_env sample_rpc_def)
qed

theorem rpc_batch_sequential_witness:
  "\<exists>n. evmdb_rpc_handle_request sample_rpc_env sample_rpc sample_db
      (''['' @ join_commas (map object_text [chain_id_body, chain_id_body]) @ '']'')
    = Inr (0, Some (''['' @ response_text ''1'' (quoted ''0x1'') @ '','' @ response_text ''1'' (quoted ''0x1'') @ '']''), n, sample_db)"
  using rpc_batch_sequential [of sample_rpc_env sample_rpc sample_db "[chain_id_body, chain_id_body]"
      "[response_text ''1'' (quoted ''0x1''), response_text ''1'' (quoted ''0x1'')]" sample_db]
  by (simp add: chain_id_served chain_id_object(2) sample_rpc_env response_text_def quoted_def)

end
