(* ===== verification/Evm_Config.thy ===== *)
theory Evm_Config
  imports Evm_Json
begin

text \<open>
  The configuration file, \<^verbatim>\<open>src/core/config.c\<close>.

  The file is the text that \<open>fopen\<close> gives access to, \<open>None\<close> when it cannot be opened; it is taken to have
  no NUL characters. \<open>fgets\<close> and the one \<open>sscanf\<close> format of the program are modelled as C defines them.
  The main theorem is that loading the text of a configuration restores every field.
\<close>

record evmdb_config =
  redis_host :: string
  redis_port :: int
  redis_password :: "string option"
  redis_db :: int
  rpc_host :: string
  rpc_port :: int
  chain_id :: u64
  gas_limit :: u64
  base_fee :: u64
  log_level :: int

definition evmdb_config_defaults :: evmdb_config where
  "evmdb_config_defaults = \<lparr>redis_host = ''127.0.0.1'', redis_port = 6379, redis_password = None, redis_db = 0,
     rpc_host = ''0.0.0.0'', rpc_port = 8545, chain_id = 100100, gas_limit = 30000000, base_fee = 1000000000,
     log_level = 2\<rparr>"

subsection \<open>Reading a line\<close>

text \<open>\<open>fgets\<close> reads at most \<open>room\<close> characters, up to and including a newline.\<close>

fun fgets :: "nat \<Rightarrow> string \<Rightarrow> string \<times> string" where
  "fgets room [] = ([], [])"
| "fgets 0 (c # cs) = ([], c # cs)"
| "fgets (Suc room) (c # cs) =
     (if c = CHR 0x0A then ([c], cs)
      else (case fgets room cs of (line, rest) \<Rightarrow> (c # line, rest)))"

definition key_char :: "char \<Rightarrow> bool" where
  "key_char c \<longleftrightarrow> c \<noteq> CHR ''='' \<and> c \<noteq> CHR '' ''"

definition not_newline :: "char \<Rightarrow> bool" where
  "not_newline c \<longleftrightarrow> c \<noteq> CHR 0x0A"

text \<open>
  \<open>sscanf(line, " %63[^= ] = %255[^\n]", key, value) == 2\<close>: a blank in the format skips any white space,
  a scan set needs at least one character.
\<close>

definition scan_pair :: "string \<Rightarrow> (string \<times> string) option" where
  "scan_pair line =
     (case copy_while key_char 63 (dropWhile isspace line) of
        (key, rest) \<Rightarrow>
          (let rest = dropWhile isspace rest
           in if key = [] \<or> peek rest \<noteq> CHR ''='' then None
              else
                (let val = fst (copy_while not_newline 255 (dropWhile isspace (drop 1 rest)))
                 in if val = [] then None else Some (key, val))))"

definition strip_quotes :: "string \<Rightarrow> string" where
  "strip_quotes val =
     (if 2 \<le> length val \<and> hd val = CHR 0x22 \<and> last val = CHR 0x22 then butlast (tl val) else val)"

definition set_option :: "string \<Rightarrow> string \<Rightarrow> evmdb_config \<Rightarrow> evmdb_config" where
  "set_option key val cfg =
     (if key = ''redis_host'' then cfg\<lparr>redis_host := val\<rparr>
      else if key = ''redis_port'' then cfg\<lparr>redis_port := atoi val\<rparr>
      else if key = ''redis_password'' then cfg\<lparr>redis_password := Some val\<rparr>
      else if key = ''redis_db'' then cfg\<lparr>redis_db := atoi val\<rparr>
      else if key = ''rpc_host'' then cfg\<lparr>rpc_host := val\<rparr>
      else if key = ''rpc_port'' then cfg\<lparr>rpc_port := atoi val\<rparr>
      else if key = ''chain_id'' then cfg\<lparr>chain_id := word_of_int (atoll val)\<rparr>
      else if key = ''gas_limit'' then cfg\<lparr>gas_limit := word_of_int (atoll val)\<rparr>
      else if key = ''base_fee'' then cfg\<lparr>base_fee := word_of_int (atoll val)\<rparr>
      else if key = ''log_level'' then cfg\<lparr>log_level := atoi val\<rparr>
      else cfg)"

definition config_line :: "string \<Rightarrow> evmdb_config \<Rightarrow> evmdb_config" where
  "config_line line cfg =
     (if peek line = CHR ''#'' \<or> peek line = CHR 0x0A \<or> peek line = CHR ''['' then cfg
      else (case scan_pair line of
              None \<Rightarrow> cfg
            | Some (key, val) \<Rightarrow> set_option key (strip_quotes val) cfg))"

lemma fgets_append: "fgets room s = (line, rest) \<Longrightarrow> s = line @ rest"
  by (induction room s arbitrary: line rest rule: fgets.induct) (auto split: if_splits prod.splits)

lemma fgets_progress: "s \<noteq> [] \<Longrightarrow> fgets (Suc room) s = (line, rest) \<Longrightarrow> length rest < length s"
  by (cases s) (auto dest!: fgets_append split: if_splits prod.splits)

function load_loop :: "string \<Rightarrow> evmdb_config \<Rightarrow> evmdb_config" where
  "load_loop file cfg =
     (if file = [] then cfg
      else (case fgets 511 file of (line, rest) \<Rightarrow> load_loop rest (config_line line cfg)))"
  by pat_completeness auto
termination
  by (relation "measure (\<lambda>(file, cfg). length file)")
    (auto dest: sym dest!: fgets_progress [of _ 510, simplified])

declare load_loop.simps [simp del]

definition evmdb_config_load :: "evmdb_config \<Rightarrow> string option \<Rightarrow> int \<times> evmdb_config" where
  "evmdb_config_load cfg file =
     (case file of None \<Rightarrow> (-1, cfg) | Some f \<Rightarrow> (0, load_loop f cfg))"

subsection \<open>Printing a configuration\<close>

definition option_line :: "string \<Rightarrow> string \<Rightarrow> string" where
  "option_line key val = key @ '' = '' @ val @ [CHR 0x0A]"

definition config_text :: "evmdb_config \<Rightarrow> string" where
  "config_text cfg =
     option_line ''redis_host'' (quoted (redis_host cfg))
     @ option_line ''redis_port'' (print_base 10 (nat (redis_port cfg)))
     @ (case redis_password cfg of None \<Rightarrow> [] | Some pw \<Rightarrow> option_line ''redis_password'' (quoted pw))
     @ option_line ''redis_db'' (print_base 10 (nat (redis_db cfg)))
     @ option_line ''rpc_host'' (quoted (rpc_host cfg))
     @ option_line ''rpc_port'' (print_base 10 (nat (rpc_port cfg)))
     @ option_line ''chain_id'' (print_u64 (chain_id cfg))
     @ option_line ''gas_limit'' (print_u64 (gas_limit cfg))
     @ option_line ''base_fee'' (print_u64 (base_fee cfg))
     @ option_line ''log_level'' (print_base 10 (nat (log_level cfg)))"

definition line_text :: "string \<Rightarrow> bool" where
  "line_text s \<longleftrightarrow> list_all not_newline s \<and> NUL \<notin> set s \<and> length s \<le> 253"

definition c_nat :: "int \<Rightarrow> bool" where
  "c_nat i \<longleftrightarrow> 0 \<le> i \<and> i < 2 ^ 31"

definition wf_config :: "evmdb_config \<Rightarrow> bool" where
  "wf_config cfg \<longleftrightarrow> line_text (redis_host cfg) \<and> line_text (rpc_host cfg)
     \<and> (case redis_password cfg of None \<Rightarrow> True | Some pw \<Rightarrow> line_text pw)
     \<and> c_nat (redis_port cfg) \<and> c_nat (redis_db cfg) \<and> c_nat (rpc_port cfg) \<and> c_nat (log_level cfg)
     \<and> unat (chain_id cfg) < 2 ^ 63 \<and> unat (gas_limit cfg) < 2 ^ 63 \<and> unat (base_fee cfg) < 2 ^ 63"

lemma fgets_line:
  "list_all not_newline s \<Longrightarrow> length s < room \<Longrightarrow> fgets room (s @ CHR 0x0A # rest) = (s @ [CHR 0x0A], rest)"
proof (induction s arbitrary: room)
  case Nil
  then show ?case by (cases room) simp_all
next
  case (Cons c cs)
  then show ?case by (cases room) (simp_all add: not_newline_def)
qed

definition key_text :: "string \<Rightarrow> bool" where
  "key_text key \<longleftrightarrow> key \<noteq> [] \<and> length key \<le> 63 \<and> list_all (\<lambda>c. key_char c \<and> \<not> isspace c \<and> not_newline c) key
     \<and> hd key \<noteq> CHR ''#'' \<and> hd key \<noteq> CHR ''[''"

definition value_text :: "string \<Rightarrow> bool" where
  "value_text v \<longleftrightarrow> v \<noteq> [] \<and> length v \<le> 255 \<and> list_all not_newline v \<and> \<not> isspace (hd v)"

lemma load_option_line:
  assumes key: "key_text key" and val: "value_text v"
  shows "load_loop (option_line key v @ rest) cfg = load_loop rest (set_option key (strip_quotes v) cfg)"
proof -
  obtain k ks where k: "key = k # ks" using key by (cases key) (auto simp: key_text_def)
  have key': "list_all key_char key" "\<not> isspace k" "list_all not_newline key" "length key \<le> 63"
    "k \<noteq> CHR ''#''" "k \<noteq> CHR ''[''" "k \<noteq> CHR 0x0A"
    using key by (auto simp: key_text_def k list_all_iff not_newline_def)
  have "fgets 511 ((key @ '' = '' @ v) @ CHR 0x0A # rest) = ((key @ '' = '' @ v) @ [CHR 0x0A], rest)"
    using key' val by (intro fgets_line) (simp_all add: value_text_def not_newline_def)
  then have line: "fgets 511 (option_line key v @ rest) = (option_line key v, rest)"
    by (simp add: option_line_def)
  obtain d ds where d: "v = d # ds" "\<not> isspace d" using val by (cases v) (auto simp: value_text_def)
  have tw: "takeWhile key_char (key @ CHR '' '' # r) = key" for r
    using takeWhile_all_stop [OF key'(1)] by (simp add: key_char_def)
  have tv: "takeWhile not_newline (v @ [CHR 0x0A]) = v"
    using takeWhile_all_stop [of not_newline v "CHR 0x0A" "[]"] val by (simp add: value_text_def not_newline_def)
  have "scan_pair (option_line key v) = Some (key, v)"
  proof -
    have "dropWhile isspace (option_line key v) = option_line key v" using key'(2) by (simp add: option_line_def k)
    moreover have "copy_while key_char 63 (option_line key v) = (key, '' = '' @ v @ [CHR 0x0A])"
      using key'(4) tw by (simp add: copy_while_eq option_line_def)
    moreover have "dropWhile isspace ('' = '' @ v @ [CHR 0x0A]) = ''= '' @ v @ [CHR 0x0A]"
      by (simp add: isspace_def)
    moreover have "dropWhile isspace (CHR '' '' # v @ [CHR 0x0A]) = v @ [CHR 0x0A]"
      using d by (simp add: isspace_def)
    moreover have "fst (copy_while not_newline 255 (v @ [CHR 0x0A])) = v"
      using val tv by (simp add: copy_while_eq value_text_def)
    ultimately show ?thesis using k d by (simp add: scan_pair_def peek_def)
  qed
  with line key'(5-7) show ?thesis
    by (subst load_loop.simps) (simp add: config_line_def peek_def option_line_def k)
qed

lemma value_quoted: "line_text s \<Longrightarrow> value_text (quoted s) \<and> strip_quotes (quoted s) = s"
  by (simp add: value_text_def quoted_def line_text_def not_newline_def isspace_def strip_quotes_def butlast_append)

lemma value_digits: "n < 2 ^ 64 \<Longrightarrow> value_text (print_base 10 n) \<and> strip_quotes (print_base 10 n) = print_base 10 n"
proof -
  assume "n < 2 ^ 64"
  then have "n < 10 ^ Suc 19" by simp
  then have len: "length (print_base 10 n) \<le> 20" using length_print_base [of 10 n 19] by simp
  have chars: "c \<noteq> CHR 0x0A \<and> \<not> isspace c" if "c \<in> set (print_base 10 n)" for c
    using print_base_chars [of 10 c n] that by (auto simp: isspace_def)
  have "hd (print_base 10 n) \<noteq> CHR 0x22"
    using digits_plain(1) [of n] by (cases "print_base 10 n") (auto simp: not_quote_def)
  with len chars show ?thesis
    by (auto simp: value_text_def strip_quotes_def list_all_iff not_newline_def)
qed

lemma config_keys: "list_all key_text [''redis_host'', ''redis_port'', ''redis_password'', ''redis_db'',
    ''rpc_host'', ''rpc_port'', ''chain_id'', ''gas_limit'', ''base_fee'', ''log_level'']"
  by (simp add: key_text_def key_char_def isspace_def not_newline_def)

lemma load_quoted: "key_text key \<Longrightarrow> line_text v \<Longrightarrow>
    load_loop (option_line key (quoted v) @ rest) cfg = load_loop rest (set_option key v cfg)"
  using load_option_line [of key "quoted v"] value_quoted [of v] by simp

lemma load_digits: "key_text key \<Longrightarrow> n < 2 ^ 64 \<Longrightarrow>
    load_loop (option_line key (print_base 10 n) @ rest) cfg = load_loop rest (set_option key (print_base 10 n) cfg)"
  using load_option_line [of key "print_base 10 n"] value_digits [of n] by simp

lemma load_int: "key_text key \<Longrightarrow> c_nat i \<Longrightarrow>
    load_loop (option_line key (print_base 10 (nat i)) @ rest) cfg
      = load_loop rest (set_option key (print_base 10 (nat i)) cfg)"
  by (rule load_digits) (simp_all add: c_nat_def nat_less_iff)

lemma load_u64: "key_text key \<Longrightarrow>
    load_loop (option_line key (print_base 10 (unat (v :: u64))) @ rest) cfg
      = load_loop rest (set_option key (print_base 10 (unat v)) cfg)"
  by (rule load_digits) simp_all

lemma load_last: "load_loop [] cfg = cfg"
  by (simp add: load_loop.simps)

lemma option_u64: "unat v < 2 ^ 63 \<Longrightarrow> word_of_int (atoll (print_base 10 (unat v))) = (v :: u64)"
  by (simp add: atoll_def strtoll_print)

lemma option_int: "c_nat i \<Longrightarrow> atoi (print_base 10 (nat i)) = i"
  using atoi_print [of "nat i"] by (simp add: c_nat_def nat_less_iff)

subsection \<open>Properties\<close>

text \<open>
  C27: the configuration file round trip: loading the text of a configuration (host names and the
  password in quotes, numbers in decimal, one option per line) over any configuration returns 0 and
  restores every field, except that a file without a password keeps the previous one. Texts are
  at most 253 characters without a newline, the numbers non-negative and in the range of
  \<open>atoi\<close> and \<open>atoll\<close>.
\<close>

theorem config_load_roundtrip:
  assumes "wf_config cfg"
  shows "evmdb_config_load old (Some (config_text cfg))
    = (0, cfg\<lparr>redis_password := (if redis_password cfg = None then redis_password old else redis_password cfg)\<rparr>)"
proof -
  note wf = assms [unfolded wf_config_def]
  note keys = config_keys [simplified]
  have last: "load_loop (option_line ''log_level'' (print_base 10 (nat (log_level cfg)))) c
      = set_option ''log_level'' (print_base 10 (nat (log_level cfg))) c" for c
    using load_int [of "''log_level''" "log_level cfg" "[]" c] keys wf by (simp add: load_last)
  have "load_loop (config_text cfg) old
      = cfg\<lparr>redis_password := (if redis_password cfg = None then redis_password old else redis_password cfg)\<rparr>"
    unfolding config_text_def print_u64_def append_assoc
    by (cases "redis_password cfg")
      (use wf in \<open>simp_all add: load_quoted load_int load_u64 keys last set_option_def option_int option_u64\<close>)
  then show ?thesis by (simp add: evmdb_config_load_def)
qed

theorem config_load_roundtrip_witness:
  "evmdb_config_load (evmdb_config_defaults\<lparr>rpc_port := 1\<rparr>) (Some (config_text evmdb_config_defaults)) = (0, evmdb_config_defaults)"
proof -
  have "wf_config evmdb_config_defaults"
    by (simp add: wf_config_def evmdb_config_defaults_def line_text_def not_newline_def NUL_def c_nat_def)
  from config_load_roundtrip [OF this, of "evmdb_config_defaults\<lparr>rpc_port := 1\<rparr>"] show ?thesis
    by (simp add: evmdb_config_defaults_def)
qed

text \<open>
  The options that the repository's own \<^verbatim>\<open>config/evmdb.toml\<close> uses for the gas limit, the block time and the
  base fee are not known to the loader.
\<close>

lemma config_ignores_options:
  "value_text v \<Longrightarrow> key \<in> {''block_gas_limit'', ''block_time_ms'', ''base_fee_initial''} \<Longrightarrow>
    evmdb_config_load cfg (Some (option_line key v)) = (0, cfg)"
  using load_option_line [of key v "[]" cfg]
  by (auto simp: evmdb_config_load_def load_last set_option_def key_text_def key_char_def isspace_def not_newline_def)

end
