(* ===== verification/Evm_Server.thy ===== *)
theory Evm_Server
  imports Evm_Batch "HOL-Library.Multiset"
begin

text \<open>
  The HTTP server, \<^verbatim>\<open>src/rpc/server.c\<close> and \<^verbatim>\<open>src/net/tcp.c\<close>: the framing of one request and the accept loop.

  Sockets are the operating system's. What \<open>read\<close> delivers for a connection is an argument
  (\<open>client_io\<close>): the first read, and the second as a function of the bytes asked for; what \<open>write\<close> is
  given is the result, a list of texts. The accept loop consumes a list of events: what \<open>accept\<close>
  returns, and calls of \<open>evmdb_rpc_stop\<close> from another thread. A text is a list of bytes as characters,
  so that it can hold a NUL.
\<close>

definition RPC_MAX_REQUEST_SIZE :: nat where
  "RPC_MAX_REQUEST_SIZE = 1024 * 1024"

subsection \<open>The handle\<close>

text \<open>The struct has 48 bytes. \<open>evmdb_rpc_destroy\<close> is modelled by the descriptors it closes.\<close>

definition evmdb_rpc_create ::
  "(nat \<Rightarrow> bool) \<Rightarrow> evmdb_evm option \<Rightarrow> u64 \<Rightarrow> u64 \<Rightarrow> u64 \<Rightarrow> evmdb_rpc option" where
  "evmdb_rpc_create alloc evm chain_id gas_limit base_fee =
     (if \<not> alloc 48 then None
      else Some \<lparr>rpc_evm = evm, rpc_chain_id = chain_id, rpc_gas_limit = gas_limit, rpc_base_fee = base_fee,
             rpc_server_fd = -1, rpc_running = 0\<rparr>)"

definition evmdb_rpc_destroy :: "evmdb_rpc option \<Rightarrow> int list" where
  "evmdb_rpc_destroy rpc =
     (case rpc of None \<Rightarrow> [] | Some rpc \<Rightarrow> if rpc_server_fd rpc \<ge> 0 then [rpc_server_fd rpc] else [])"

text \<open>\<open>evmdb_rpc_stop\<close> also shuts the listening socket down, which makes \<open>accept\<close> return.\<close>

definition evmdb_rpc_stop :: "evmdb_rpc \<Rightarrow> evmdb_rpc" where
  "evmdb_rpc_stop rpc = rpc\<lparr>rpc_running := 0\<rparr>"

subsection \<open>One connection\<close>

record client_io =
  ci_first :: string
  ci_second :: "nat \<Rightarrow> string"

definition CRLF :: string where
  "CRLF = [CHR 0x0D, CHR 0x0A]"

definition cors_response :: string where
  "cors_response =
     ''HTTP/1.1 204 No Content'' @ CRLF
     @ ''Access-Control-Allow-Origin: *'' @ CRLF
     @ ''Access-Control-Allow-Methods: POST, GET, OPTIONS'' @ CRLF
     @ ''Access-Control-Allow-Headers: Content-Type, Authorization'' @ CRLF
     @ ''Access-Control-Max-Age: 86400'' @ CRLF
     @ ''Content-Length: 0'' @ CRLF @ CRLF"

definition http_header :: "size_t \<Rightarrow> string" where
  "http_header resp_len =
     ''HTTP/1.1 200 OK'' @ CRLF
     @ ''Content-Type: application/json'' @ CRLF
     @ ''Content-Length: '' @ print_u64 resp_len @ CRLF
     @ ''Access-Control-Allow-Origin: *'' @ CRLF
     @ ''Access-Control-Allow-Methods: POST, GET, OPTIONS'' @ CRLF
     @ ''Access-Control-Allow-Headers: Content-Type, Authorization'' @ CRLF
     @ ''Connection: close'' @ CRLF @ CRLF"

definition request_length :: "string \<Rightarrow> size_t" where
  "request_length buf =
     (case (case strstr buf ''Content-Length:'' of Some h \<Rightarrow> Some h | None \<Rightarrow> strstr buf ''content-length:'') of
        None \<Rightarrow> 0
      | Some cl_header \<Rightarrow> word_of_int (atoll (drop 15 cl_header)))"

text \<open>The offset of the body in the buffer.\<close>

definition body_offset :: "string \<Rightarrow> nat" where
  "body_offset buf =
     (case strstr buf (CRLF @ CRLF) of Some b \<Rightarrow> length buf - length b + 4 | None \<Rightarrow> 0)"

text \<open>
  The second read, when the body is not complete. It asks for the missing bytes without looking at
  the room behind the first \<open>n\<close>: what it delivers, and the NUL behind it, must lie in the buffer.
\<close>

definition read_rest :: "client_io \<Rightarrow> string \<Rightarrow> string cres" where
  "read_rest io buf =
     (let n = length buf;
          content_length = request_length (cstr buf);
          body_received = word_of_nat (n - body_offset (cstr buf))
      in if content_length > body_received \<and> content_length < word_of_nat RPC_MAX_REQUEST_SIZE then
           (let extra = ci_second io (unat (content_length - body_received))
            in if extra = [] then Inr buf
               else if n + length extra \<ge> RPC_MAX_REQUEST_SIZE then Inl OutOfBounds
               else Inr (buf @ extra))
         else Inr buf)"

definition handle_client ::
  "('r, 'sig, 'pk) rpc_env \<Rightarrow> evmdb_rpc \<Rightarrow> client_io \<Rightarrow> 'r \<Rightarrow> (string list \<times> 'r) cres" where
  "handle_client env rpc io s =
     (if \<not> re_alloc env RPC_MAX_REQUEST_SIZE then Inr ([], s)
      else if ci_first io = [] then Inr ([], s)
      else if take 7 (cstr (ci_first io)) = ''OPTIONS'' then Inr ([cors_response], s)
      else
        bindE (read_rest io (ci_first io)) (\<lambda>buf.
        let body = cstr (drop (body_offset (cstr (ci_first io))) buf)
        in bindE (evmdb_rpc_handle_request env rpc s body) (\<lambda>(rc, response, resp_len, s).
             Inr (case response of
                    None \<Rightarrow> []
                  | Some r \<Rightarrow> [snprintf 512 (http_header resp_len), take (unat resp_len) r], s))))"

subsection \<open>The accept loop\<close>

text \<open>
  What happens while the server listens. \<open>Connection fd granted started stopped\<close>: \<open>accept\<close> returned \<open>fd\<close>,
  \<open>granted\<close> says whether \<open>malloc\<close> gave the arguments block and \<open>started\<close> whether \<open>pthread_create\<close> succeeded.
  \<open>AcceptError stopped\<close>: \<open>accept\<close> returned -1. For both, \<open>stopped\<close> says whether another thread called
  \<open>evmdb_rpc_stop\<close> between the return of \<open>accept\<close> and the next test of \<open>running\<close>; \<open>StopCall\<close> is such a call
  while the loop is blocked in \<open>accept\<close>. \<open>Signal sig\<close>: a \<open>SIGINT\<close> or \<open>SIGTERM\<close> arrives, and the handler of
  \<^verbatim>\<open>src/main.c\<close> runs. The build uses GNU C, for which \<open>signal\<close> leaves the handler installed and restarts
  \<open>accept\<close>; where \<open>accept\<close> is interrupted instead, an \<open>AcceptError\<close> follows.
\<close>

datatype server_event = Connection int bool bool bool | AcceptError bool | StopCall | Signal int

text \<open>
  The state of the loop: its result, \<open>None\<close> while it has not returned, the handle, the global \<open>g_running\<close>
  of \<^verbatim>\<open>src/main.c\<close>, and the connections handed to threads and the descriptors closed.
\<close>

record accept_loop =
  al_result :: "int option"
  al_rpc :: evmdb_rpc
  al_g_running :: int
  al_served :: "int list"
  al_closed :: "int list"

definition signal_handler :: "int \<Rightarrow> int \<Rightarrow> int" where
  "signal_handler g_running sig = 0"

definition accept_connection :: "int \<Rightarrow> bool \<Rightarrow> bool \<Rightarrow> accept_loop \<Rightarrow> accept_loop" where
  "accept_connection fd granted started st =
     (if \<not> granted then st\<lparr>al_closed := al_closed st @ [fd]\<rparr>
      else if started then st\<lparr>al_served := al_served st @ [fd]\<rparr>
      else st\<lparr>al_closed := al_closed st @ [fd]\<rparr>)"

definition stop_if :: "bool \<Rightarrow> accept_loop \<Rightarrow> accept_loop" where
  "stop_if stopped st = (if stopped then st\<lparr>al_rpc := evmdb_rpc_stop (al_rpc st)\<rparr> else st)"

text \<open>The loop is blocked in \<open>accept\<close>; each result of \<open>accept\<close> leads back to the test of \<open>running\<close>.\<close>

fun listen_loop :: "accept_loop \<Rightarrow> server_event list \<Rightarrow> accept_loop" where
  "listen_loop st [] = st"
| "listen_loop st (StopCall # evs) = listen_loop (stop_if True st) evs"
| "listen_loop st (Signal sig # evs) = listen_loop (st\<lparr>al_g_running := signal_handler (al_g_running st) sig\<rparr>) evs"
| "listen_loop st (AcceptError stopped # evs) =
     (let st = stop_if stopped st
      in if rpc_running (al_rpc st) = 0 then st\<lparr>al_result := Some 0\<rparr> else listen_loop st evs)"
| "listen_loop st (Connection fd granted started stopped # evs) =
     (let st = stop_if stopped (accept_connection fd granted started st)
      in if rpc_running (al_rpc st) = 0 then st\<lparr>al_result := Some 0\<rparr> else listen_loop st evs)"

text \<open>
  \<open>socket_fd\<close>, \<open>bind_rc\<close> and \<open>listen_rc\<close> are what the socket calls return; \<open>stopped\<close> says whether
  \<open>evmdb_rpc_stop\<close> was called between the assignment to \<open>running\<close> and its first test.
\<close>

definition evmdb_rpc_listen ::
  "int \<Rightarrow> evmdb_rpc \<Rightarrow> int \<Rightarrow> int \<Rightarrow> int \<Rightarrow> bool \<Rightarrow> server_event list \<Rightarrow> accept_loop" where
  "evmdb_rpc_listen g_running rpc socket_fd bind_rc listen_rc stopped evs =
     (let rpc = rpc\<lparr>rpc_server_fd := socket_fd\<rparr>;
          st = \<lparr>al_result = None, al_rpc = rpc, al_g_running = g_running, al_served = [], al_closed = []\<rparr>
      in if socket_fd < 0 then st\<lparr>al_result := Some (-1)\<rparr>
         else if bind_rc < 0 then st\<lparr>al_result := Some (-1), al_closed := [socket_fd]\<rparr>
         else if listen_rc < 0 then st\<lparr>al_result := Some (-1), al_closed := [socket_fd]\<rparr>
         else
           (let st = stop_if stopped (st\<lparr>al_rpc := rpc\<lparr>rpc_running := 1\<rparr>\<rparr>)
            in if rpc_running (al_rpc st) = 0 then st\<lparr>al_result := Some 0\<rparr> else listen_loop st evs))"

subsection \<open>Socket options\<close>

text \<open>The arguments are what \<open>setsockopt\<close> returns.\<close>

definition evmdb_tcp_set_nodelay :: "int \<Rightarrow> int" where
  "evmdb_tcp_set_nodelay rc = (if rc < 0 then -1 else 0)"

definition evmdb_tcp_set_buffers :: "int \<Rightarrow> int \<Rightarrow> int" where
  "evmdb_tcp_set_buffers recv_rc send_rc = 0"

end
