(* ===== verification/Evm_Server_Props.thy ===== *)
theory Evm_Server_Props
  imports Evm_Server
begin

text \<open>
  The framing of requests: a request that arrives in one or two reads is answered with the response
  of the dispatcher and a header that states its length; a request whose headers and body together
  exceed the buffer makes the second read write outside it. The accept loop: what stops it, and that
  every accepted connection is handed to a thread or closed.
\<close>

subsection \<open>A request on the wire\<close>

text \<open>The header block: lines that end with CR LF, then an empty line.\<close>

definition header_block :: "string list \<Rightarrow> string" where
  "header_block ls = concat (map (\<lambda>l. l @ CRLF) ls) @ CRLF"

definition header_line :: "string \<Rightarrow> bool" where
  "header_line l \<longleftrightarrow> l \<noteq> [] \<and> CHR 0x0D \<notin> set l \<and> NUL \<notin> set l"

lemma header_block_Cons: "header_block (l # ls) @ b = l @ CRLF @ header_block ls @ b"
  by (simp add: header_block_def)

lemma header_block_plain: "list_all header_line ls \<Longrightarrow> NUL \<notin> set (header_block ls)"
  by (auto simp: header_block_def header_line_def list_all_iff CRLF_def NUL_def)

lemma header_block_end:
  "list_all header_line ls \<Longrightarrow> ls \<noteq> [] \<Longrightarrow> strstr (header_block ls @ b) (CRLF @ CRLF) = Some (CRLF @ CRLF @ b)"
proof (induction ls)
  case (Cons l ls)
  have "strstr (header_block (l # ls) @ b) (CRLF @ CRLF) = strstr (CRLF @ header_block ls @ b) (CRLF @ CRLF)"
    unfolding header_block_Cons
    using Cons.prems(1) strstr_skip [of "CHR 0x0D" l "CRLF @ header_block ls @ b" "CHR 0x0A # CRLF"]
    by (simp add: header_line_def CRLF_def)
  also have "\<dots> = Some (CRLF @ CRLF @ b)"
  proof (cases ls)
    case Nil
    then show ?thesis by (simp add: header_block_def CRLF_def)
  next
    case (Cons l' ls')
    obtain c cs where l': "l' = c # cs" "c \<noteq> CHR 0x0D"
      using Cons Cons.prems(1) by (cases l') (auto simp: header_line_def)
    have "strstr (CRLF @ header_block ls @ b) (CRLF @ CRLF) = strstr (header_block ls @ b) (CRLF @ CRLF)"
      using l' unfolding Cons header_block_Cons by (simp add: CRLF_def)
    with Cons Cons.prems(1) Cons.IH show ?thesis by simp
  qed
  finally show ?case .
qed simp

lemma header_block_offset:
  assumes "list_all header_line ls" and "ls \<noteq> []"
  shows "body_offset (header_block ls @ b) = length (header_block ls)"
proof -
  obtain init where "header_block ls = init @ CRLF @ CRLF"
    using assms(2) by (cases ls rule: rev_cases) (simp_all add: header_block_def)
  with header_block_end [OF assms, of b] show ?thesis by (simp add: body_offset_def CRLF_def)
qed

text \<open>A field name is not found across the end of a line.\<close>

lemma strstr_line:
  "strstr l needle = None \<Longrightarrow> needle \<noteq> [] \<Longrightarrow> CHR 0x0D \<notin> set needle \<Longrightarrow>
    strstr (l @ CHR 0x0D # rest) needle = strstr rest needle"
proof (induction l)
  case Nil
  then show ?case by (cases needle) auto
next
  case (Cons c cs)
  have "take (length needle) (c # cs @ CHR 0x0D # rest) \<noteq> needle"
  proof
    assume pre: "take (length needle) (c # cs @ CHR 0x0D # rest) = needle"
    show False
    proof (cases "length needle \<le> length (c # cs)")
      case True
      have "take (length needle) ((c # cs) @ CHR 0x0D # rest) = take (length needle) (c # cs)"
        using True by (simp only: take_append) simp
      with pre Cons.prems(1) show False by (simp split: if_splits)
    next
      case False
      then have "CHR 0x0D \<in> set (take (length needle) ((c # cs) @ CHR 0x0D # rest))"
        using Cons.prems(2) by (simp add: take_Cons')
      with pre Cons.prems(3) show False by simp
    qed
  qed
  with Cons show ?case by (simp split: if_splits)
qed

lemma strstr_lines:
  assumes "list_all (\<lambda>l. strstr l needle = None) ls" and "needle \<noteq> []" and "CHR 0x0D \<notin> set needle" and "hd needle \<noteq> CHR 0x0A"
  shows "strstr (concat (map (\<lambda>l. l @ CRLF) ls) @ rest) needle = strstr rest needle"
  using assms(1)
proof (induction ls)
  case (Cons l ls)
  have "strstr (l @ CHR 0x0D # CHR 0x0A # r) needle = strstr r needle" for r
    using strstr_line [of l needle "CHR 0x0A # r"] Cons.prems assms(2-4) by (cases needle) auto
  with Cons show ?case by (simp add: CRLF_def)
qed simp

lemma strtoll_print_then:
  assumes "n < 2 ^ 63" and "digit_val c = None" and "NUL \<notin> set (c # rest)"
  shows "strtoll (replicate k (CHR '' '') @ print_base 10 n @ c # rest) = int n"
proof -
  obtain d ds where p: "print_base 10 n = d # ds" by (cases "print_base 10 n") auto
  have d: "\<not> isspace d" "d \<noteq> CHR ''-''" "d \<noteq> CHR ''+''"
    using print_base_chars [of 10 d n] p by auto
  have "NUL \<notin> set (print_base 10 n)" using print_base_chars [of 10 NUL n] by auto
  then have "cstr (replicate k (CHR '' '') @ print_base 10 n @ c # rest) = replicate k (CHR '' '') @ print_base 10 n @ c # rest"
    using assms(3) by (intro cstr_ident) (auto simp: NUL_def)
  moreover have "dropWhile isspace (replicate k (CHR '' '') @ print_base 10 n @ c # rest) = print_base 10 n @ c # rest"
    using d p by (induction k) (simp_all add: isspace_def [of "CHR '' ''"])
  ultimately have "scan_sign (dropWhile isspace (cstr (replicate k (CHR '' '') @ print_base 10 n @ c # rest)))
      = (False, print_base 10 n @ c # rest)"
    using d p by (simp add: scan_sign_def)
  moreover have "scan_digits 10 0 (print_base 10 n @ c # rest) = n"
    using scan_digits_print_base [of 10 0 n "c # rest"] assms(2) by simp
  ultimately show ?thesis using assms(1) by (simp add: strtoll_def)
qed

text \<open>
  \<open>announces ls n b\<close>: the header lines \<open>ls\<close> in front of the text \<open>b\<close> announce a body of \<open>n\<close> bytes. One line is the
  length field in one of the two spellings that the code knows, with any number of spaces before the
  number; no earlier line contains the field name, and with the lower-case spelling the other one does
  not occur at all.
\<close>

definition announces :: "string list \<Rightarrow> nat \<Rightarrow> string \<Rightarrow> bool" where
  "announces ls n b \<longleftrightarrow> list_all header_line ls \<and>
     (\<exists>before field k after. ls = before @ (field @ replicate k (CHR '' '') @ print_base 10 n) # after
        \<and> list_all (\<lambda>l. strstr l field = None) before
        \<and> (field = ''Content-Length:''
           \<or> field = ''content-length:'' \<and> strstr (header_block ls @ b) ''Content-Length:'' = None))"

lemma announces_length:
  assumes "announces ls n b" and "n < 2 ^ 63" and "NUL \<notin> set b"
  shows "request_length (header_block ls @ b) = word_of_nat n"
proof -
  obtain before field k after where
    ls: "ls = before @ (field @ replicate k (CHR '' '') @ print_base 10 n) # after"
      "list_all (\<lambda>l. strstr l field = None) before"
    and field: "field = ''Content-Length:''
      \<or> field = ''content-length:'' \<and> strstr (header_block ls @ b) ''Content-Length:'' = None"
    using assms(1) unfolding announces_def by blast
  let ?rest = "CHR 0x0A # header_block after @ b"
  have f: "field \<noteq> []" "CHR 0x0D \<notin> set field" "hd field \<noteq> CHR 0x0A" "length field = 15"
    using field by auto
  have "header_block ls @ b = concat (map (\<lambda>l. l @ CRLF) before)
      @ field @ replicate k (CHR '' '') @ print_base 10 n @ CHR 0x0D # ?rest"
    by (simp add: ls(1) header_block_def CRLF_def)
  then have find: "strstr (header_block ls @ b) field
      = Some (field @ replicate k (CHR '' '') @ print_base 10 n @ CHR 0x0D # ?rest)"
    using strstr_lines [OF ls(2) f(1-3)] strstr_here [of field] by simp
  have "list_all header_line after" using assms(1) ls(1) by (simp add: announces_def)
  then have "NUL \<notin> set ?rest" using header_block_plain assms(3) by (auto simp: NUL_def)
  then have "strtoll (replicate k (CHR '' '') @ print_base 10 n @ CHR 0x0D # ?rest) = int n"
    using assms(2) by (intro strtoll_print_then) (auto simp: digit_val_def NUL_def)
  with find field f(4) show ?thesis by (auto simp: request_length_def atoll_def)
qed

text \<open>What the second read leaves in the buffer, for a body that is split behind its first part \<open>b1\<close>.\<close>

lemma read_rest_split:
  assumes head: "announces ls (length (b1 @ b2)) b1" and "NUL \<notin> set b1" and "length (b1 @ b2) < RPC_MAX_REQUEST_SIZE"
    and "ci_second io = (\<lambda>k. take k b2)"
  shows "read_rest io (header_block ls @ b1)
    = (if b2 \<noteq> [] \<and> length (header_block ls) + length (b1 @ b2) \<ge> RPC_MAX_REQUEST_SIZE then Inl OutOfBounds
       else Inr (header_block ls @ b1 @ b2))"
proof -
  let ?head = "header_block ls"
  have ls: "list_all header_line ls" "ls \<noteq> []" using head by (auto simp: announces_def)
  have cs: "cstr (?head @ b1) = ?head @ b1"
    using header_block_plain [OF ls(1)] assms(2) by (intro cstr_ident) auto
  have small: "length (b1 @ b2) < 2 ^ 63" using assms(3) by (simp add: RPC_MAX_REQUEST_SIZE_def)
  have len: "request_length (cstr (?head @ b1)) = word_of_nat (length (b1 @ b2))"
    unfolding cs by (rule announces_length [OF head small assms(2)])
  have off: "length (?head @ b1) - body_offset (cstr (?head @ b1)) = length b1"
    unfolding cs using header_block_offset [OF ls, of b1] by simp
  have u: "unat (word_of_nat (length (b1 @ b2)) :: size_t) = length (b1 @ b2)"
    "unat (word_of_nat (length b1) :: size_t) = length b1"
    using small unat_word_of_nat64 [of "length (b1 @ b2)"] unat_word_of_nat64 [of "length b1"] by simp_all
  have rem: "unat (word_of_nat (length (b1 @ b2)) - word_of_nat (length b1) :: size_t) = length b2"
    using unat_word_of_nat64 [of "length b2"] small by simp
  have lt: "(word_of_nat (length (b1 @ b2)) :: size_t) > word_of_nat (length b1) \<longleftrightarrow> b2 \<noteq> []"
    "(word_of_nat (length (b1 @ b2)) :: size_t) < word_of_nat RPC_MAX_REQUEST_SIZE"
    using u assms(3) by (auto simp: word_less_nat_alt RPC_MAX_REQUEST_SIZE_def)
  show ?thesis
    unfolding read_rest_def Let_def len off lt(1) assms(4) rem using lt(2) by (auto simp: add.assoc)
qed

lemma not_options:
  assumes "list_all header_line ls" and "ls \<noteq> []" and "take 7 (hd ls) \<noteq> ''OPTIONS''"
  shows "take 7 (header_block ls @ b) \<noteq> ''OPTIONS''"
proof -
  obtain l ls' where ls: "ls = l # ls'" using assms(2) by (cases ls) auto
  show ?thesis
  proof (cases "7 \<le> length l")
    case True
    with assms(3) ls show ?thesis by (simp add: header_block_def)
  next
    case False
    then have "CHR 0x0D \<in> set (take 7 (header_block ls @ b))"
      by (simp add: ls header_block_def CRLF_def take_Cons')
    moreover have "CHR 0x0D \<notin> set ''OPTIONS''" by simp
    ultimately show ?thesis by metis
  qed
qed

text \<open>A plain POST request.\<close>

definition http_head :: "nat \<Rightarrow> string" where
  "http_head n = ''POST / HTTP/1.1'' @ CRLF @ ''Content-Length: '' @ print_base 10 n @ CRLF @ CRLF"

definition post_lines :: "nat \<Rightarrow> string list" where
  "post_lines n = [''POST / HTTP/1.1'', ''Content-Length: '' @ print_base 10 n]"

lemma post_lines: "header_block (post_lines n) = http_head n" "announces (post_lines n) n b"
proof -
  have "CHR 0x0D \<notin> set (print_base 10 n)" "NUL \<notin> set (print_base 10 n)"
    using print_base_chars [of 10 "CHR 0x0D" n] print_base_chars [of 10 NUL n] by (auto simp: isspace_def)
  then have "list_all header_line (post_lines n)" by (simp add: post_lines_def header_line_def NUL_def)
  moreover have "post_lines n = [''POST / HTTP/1.1''] @ (''Content-Length:'' @ replicate 1 (CHR '' '') @ print_base 10 n) # []"
    by (simp add: post_lines_def)
  moreover have "list_all (\<lambda>l. strstr l ''Content-Length:'' = None) [''POST / HTTP/1.1'']" by simp
  ultimately show "announces (post_lines n) n b" unfolding announces_def by blast
qed (simp add: header_block_def post_lines_def http_head_def)

subsection \<open>Properties\<close>

text \<open>
  C9: HTTP framing: when the first read delivers the complete header block and a first part of the body
  (nothing, some or all of it), the second read delivers the rest, and headers and body together fit
  the 1 MB buffer, the request is answered with two writes: a header that states the exact length of the
  response, and the response the dispatcher gave for exactly that body. The header block is any
  sequence of lines, with the length field among them in either spelling, whose first line is not an
  OPTIONS request. (A first read that ends inside the header block is not covered: the code then takes
  what it has for a request without headers.)
\<close>

theorem http_request_served:
  assumes head: "announces ls (length (b1 @ b2)) b1" and meth: "take 7 (hd ls) \<noteq> ''OPTIONS''"
    and body: "NUL \<notin> set (b1 @ b2)"
    and fits: "length (header_block ls) + length (b1 @ b2) < RPC_MAX_REQUEST_SIZE"
    and io: "ci_first io = header_block ls @ b1" "ci_second io = (\<lambda>k. take k b2)"
    and mem: "re_alloc env RPC_MAX_REQUEST_SIZE"
    and run: "evmdb_rpc_handle_request env rpc s (b1 @ b2) = Inr (rc, Some r, word_of_nat (length r), s')"
    and len: "length r < 2 ^ 64"
  shows "handle_client env rpc io s = Inr ([http_header (word_of_nat (length r)), r], s')"
proof -
  let ?head = "header_block ls"
  have ls: "list_all header_line ls" "ls \<noteq> []" using head by (auto simp: announces_def)
  have first: "cstr (?head @ b1) = ?head @ b1" "cstr (b1 @ b2) = b1 @ b2"
    using header_block_plain [OF ls(1)] body by (auto intro!: cstr_ident)
  have "read_rest io (?head @ b1) = Inr (?head @ b1 @ b2)"
    using read_rest_split [OF head] body fits io(2) by simp
  moreover have "?head @ b1 \<noteq> []" by (simp add: header_block_def CRLF_def)
  moreover have "take 7 (?head @ b1) \<noteq> ''OPTIONS''" using not_options [OF ls meth] .
  moreover have "drop (body_offset (?head @ b1)) (?head @ b1 @ b2) = b1 @ b2"
    using header_block_offset [OF ls, of b1] by simp
  moreover have "snprintf 512 (http_header (word_of_nat (length r))) = http_header (word_of_nat (length r))"
    using length_print_u64 [of "word_of_nat (length r)"] by (intro snprintf_fits) (simp add: http_header_def CRLF_def)
  moreover have "unat (word_of_nat (length r) :: size_t) = length r" using len by (rule unat_word_of_nat64)
  ultimately show ?thesis
    using mem run by (simp only: handle_client_def io(1) first bindE_Inr Let_def split: if_split) simp
qed

definition client_lines :: "nat \<Rightarrow> string list" where
  "client_lines n = [''POST / HTTP/1.1'', ''Host: localhost:8545'', ''Content-Type: application/json'',
     ''content-length: '' @ print_base 10 n, ''Accept: */*'']"

definition two_reads :: client_io where
  "two_reads = \<lparr>ci_first = header_block (client_lines (length (object_text chain_id_body))) @ take 5 (object_text chain_id_body),
     ci_second = (\<lambda>k. take k (drop 5 (object_text chain_id_body)))\<rparr>"

lemma chain_id_object_plain: "NUL \<notin> set (object_text chain_id_body)" "length (object_text chain_id_body) < 100"
  using one_digit by (auto simp: chain_id_object request_text_def quoted_def NUL_def)

lemma chain_id_request:
  "evmdb_rpc_handle_request sample_rpc_env sample_rpc s (object_text chain_id_body)
    = Inr (0, Some (response_text ''1'' (quoted ''0x1'')), word_of_nat (length (response_text ''1'' (quoted ''0x1''))), s)"
proof -
  have "dropWhile is_leading_space (object_text chain_id_body) = object_text chain_id_body"
    "peek (object_text chain_id_body) \<noteq> CHR ''[''"
    by (simp_all add: object_text_def is_leading_space_def peek_def)
  then show ?thesis using chain_id_served by (simp add: evmdb_rpc_handle_request_def)
qed

lemma client_lines:
  "announces (client_lines (length (object_text chain_id_body))) (length (object_text chain_id_body))
     (take 5 (object_text chain_id_body))"
  "length (header_block (client_lines (length (object_text chain_id_body)))) < 200"
proof -
  let ?n = "length (object_text chain_id_body)"
  have "CHR 0x0D \<notin> set (print_base 10 n)" "NUL \<notin> set (print_base 10 n)" "CHR ''C'' \<notin> set (print_base 10 n)" for n
    using digits_plain(2) [of n] by (auto simp: list_all_iff id_char_def isdigit_def NUL_def)
  note digits = this
  then have "list_all header_line (client_lines ?n)" by (simp add: client_lines_def header_line_def NUL_def)
  moreover have "client_lines ?n = [''POST / HTTP/1.1'', ''Host: localhost:8545'', ''Content-Type: application/json'']
      @ (''content-length:'' @ replicate 1 (CHR '' '') @ print_base 10 ?n) # [''Accept: */*'']"
    by (simp add: client_lines_def)
  moreover have "list_all (\<lambda>l. strstr l ''content-length:'' = None)
      [''POST / HTTP/1.1'', ''Host: localhost:8545'', ''Content-Type: application/json'']" by simp
  moreover have "strstr (header_block (client_lines ?n) @ take 5 (object_text chain_id_body)) ''Content-Length:'' = None"
  proof -
    have lines: "list_all (\<lambda>l. strstr l ''Content-Length:'' = None) (client_lines ?n)"
      using strstr_skip [OF digits(3), of ?n "[]"] by (simp add: client_lines_def)
    have "strstr (CRLF @ take 5 (object_text chain_id_body)) ''Content-Length:'' = None"
      by (rule strstr_short) (simp add: CRLF_def)
    with strstr_lines [OF lines] show ?thesis by (simp add: header_block_def)
  qed
  ultimately show "announces (client_lines ?n) ?n (take 5 (object_text chain_id_body))" unfolding announces_def by blast
  have "length (print_base 10 ?n) \<le> 2"
    using length_print_base [of 10 ?n 1] chain_id_object_plain(2) by simp
  then show "length (header_block (client_lines ?n)) < 200" by (simp add: client_lines_def header_block_def CRLF_def)
qed

theorem http_request_served_witness:
  "\<exists>h. handle_client sample_rpc_env sample_rpc two_reads sample_db
    = Inr ([h, response_text ''1'' (quoted ''0x1'')], sample_db)"
proof -
  let ?b = "object_text chain_id_body"
  have "length (header_block (client_lines (length ?b))) + length ?b < RPC_MAX_REQUEST_SIZE"
    using chain_id_object_plain(2) client_lines(2) by (simp add: RPC_MAX_REQUEST_SIZE_def)
  moreover have "length (response_text ''1'' (quoted ''0x1'')) < 2 ^ 64" by (simp add: response_text_def quoted_def)
  moreover have "re_alloc sample_rpc_env RPC_MAX_REQUEST_SIZE" by (simp add: sample_rpc_env)
  moreover have "take 7 (hd (client_lines n)) \<noteq> ''OPTIONS''" for n by (simp add: client_lines_def)
  ultimately show ?thesis
    using http_request_served [of "client_lines (length ?b)" "take 5 ?b" "drop 5 ?b" two_reads sample_rpc_env sample_rpc
        sample_db 0] client_lines(1) chain_id_object_plain(1) chain_id_request
    by (simp add: two_reads_def append_take_drop_id del: length_append)
qed

text \<open>
  C38: the length check leaves room for a heap overflow: whenever the announced body is shorter than
  1 MB but headers and body together are not, and the body's last part \<open>b2\<close> arrives with the second
  read, that read is written past the end of the buffer.
\<close>

theorem http_second_read_overflows:
  assumes "NUL \<notin> set b1" and "length (b1 @ b2) < RPC_MAX_REQUEST_SIZE" and "b2 \<noteq> []"
    and "length (http_head (length (b1 @ b2))) + length (b1 @ b2) \<ge> RPC_MAX_REQUEST_SIZE"
    and "ci_first io = http_head (length (b1 @ b2)) @ b1" and "ci_second io = (\<lambda>k. take k b2)"
    and "re_alloc env RPC_MAX_REQUEST_SIZE"
  shows "handle_client env rpc io s = Inl OutOfBounds"
proof -
  let ?head = "http_head (length (b1 @ b2))"
  have "NUL \<notin> set ?head"
    using header_block_plain [of "post_lines (length (b1 @ b2))"] post_lines(2) [of "length (b1 @ b2)"] post_lines(1)
    by (simp add: announces_def)
  then have "cstr (?head @ b1) = ?head @ b1" using assms(1) by (auto intro!: cstr_ident)
  moreover have "read_rest io (?head @ b1) = Inl OutOfBounds"
    using read_rest_split [OF post_lines(2), of b1 b2 io] assms by (simp add: post_lines(1))
  moreover have "?head @ b1 \<noteq> []" "take 7 (?head @ b1) \<noteq> ''OPTIONS''" by (simp_all add: http_head_def)
  ultimately show ?thesis
    using assms(7) by (simp only: handle_client_def assms(5) bindE_Inl split: if_split) simp
qed

theorem http_second_read_overflows_witness:
  "handle_client sample_rpc_env sample_rpc
    \<lparr>ci_first = http_head 1048575, ci_second = (\<lambda>k. take k (replicate 1048575 (CHR ''x'')))\<rparr> sample_db = Inl OutOfBounds"
  using http_second_read_overflows [of "[]" "replicate 1048575 (CHR ''x'')"
      "\<lparr>ci_first = http_head 1048575, ci_second = (\<lambda>k. take k (replicate 1048575 (CHR ''x'')))\<rparr>"
      sample_rpc_env sample_rpc sample_db]
  by (simp add: sample_rpc_env RPC_MAX_REQUEST_SIZE_def http_head_def)

subsection \<open>The accept loop\<close>

text \<open>The results of \<open>accept\<close>, and the events in which \<open>evmdb_rpc_stop\<close> is called.\<close>

fun accept_result :: "server_event \<Rightarrow> bool" where
  "accept_result (Connection fd g t stopped) = True"
| "accept_result (AcceptError stopped) = True"
| "accept_result _ = False"

fun stop_event :: "server_event \<Rightarrow> bool" where
  "stop_event (Connection fd g t stopped) = stopped"
| "stop_event (AcceptError stopped) = stopped"
| "stop_event StopCall = True"
| "stop_event (Signal sig) = False"

fun event_fds :: "server_event list \<Rightarrow> int list" where
  "event_fds [] = []"
| "event_fds (Connection fd g t stopped # evs) = fd # event_fds evs"
| "event_fds (_ # evs) = event_fds evs"

definition loop_fds :: "accept_loop \<Rightarrow> int multiset" where
  "loop_fds st = mset (al_served st @ al_closed st)"

lemma event_fds_append: "event_fds (xs @ ys) = event_fds xs @ event_fds ys"
  by (induction xs rule: event_fds.induct) simp_all

lemma accept_connection_fds:
  "loop_fds (accept_connection fd g t st) = loop_fds st + {#fd#}" "al_rpc (accept_connection fd g t st) = al_rpc st"
  "al_result (accept_connection fd g t st) = al_result st" "al_g_running (accept_connection fd g t st) = al_g_running st"
  by (auto simp: accept_connection_def loop_fds_def)

lemma stop_if_simps [simp]:
  "stop_if False st = st" "al_result (stop_if b st) = al_result st" "loop_fds (stop_if b st) = loop_fds st"
  "rpc_running (al_rpc (stop_if True st)) = 0" "rpc_server_fd (al_rpc (stop_if b st)) = rpc_server_fd (al_rpc st)"
  by (simp_all add: stop_if_def evmdb_rpc_stop_def loop_fds_def)

lemma loop_fds_simps [simp]:
  "loop_fds (st\<lparr>al_result := r\<rparr>) = loop_fds st" "loop_fds (st\<lparr>al_g_running := g\<rparr>) = loop_fds st"
  "loop_fds \<lparr>al_result = r, al_rpc = rpc, al_g_running = g, al_served = [], al_closed = []\<rparr> = {#}"
  by (simp_all add: loop_fds_def)

text \<open>While nobody calls \<open>evmdb_rpc_stop\<close>, the loop goes on, whatever signals arrive.\<close>

lemma listen_loop_running:
  assumes "list_all (\<lambda>e. \<not> stop_event e) evs" and "rpc_running (al_rpc st) \<noteq> 0"
  shows "listen_loop st (evs @ evs') = listen_loop (listen_loop st evs) evs'
    \<and> al_rpc (listen_loop st evs) = al_rpc st \<and> al_result (listen_loop st evs) = al_result st
    \<and> loop_fds (listen_loop st evs) = loop_fds st + mset (event_fds evs)
    \<and> ((\<exists>sig. Signal sig \<in> set evs) \<longrightarrow> al_g_running (listen_loop st evs) = 0)
    \<and> (al_g_running st = 0 \<longrightarrow> al_g_running (listen_loop st evs) = 0)"
  using assms
proof (induction st evs rule: listen_loop.induct)
  case (5 st fd g t stopped evs)
  then show ?case using accept_connection_fds [of fd g t st] by (auto simp: ac_simps)
qed (auto simp: signal_handler_def)

text \<open>Once it was called, the loop returns with the next result of \<open>accept\<close>.\<close>

definition returned :: "accept_loop \<Rightarrow> int \<Rightarrow> int list \<Rightarrow> bool" where
  "returned st fd fds \<longleftrightarrow> al_result st = Some 0 \<and> rpc_running (al_rpc st) = 0 \<and> rpc_server_fd (al_rpc st) = fd
     \<and> loop_fds st = mset fds"

lemma listen_loop_accept_result:
  assumes "rpc_running (al_rpc st) = 0 \<or> stop_event e" and "accept_result e"
  shows "al_result (listen_loop st (e # evs)) = Some 0 \<and> rpc_running (al_rpc (listen_loop st (e # evs))) = 0
    \<and> rpc_server_fd (al_rpc (listen_loop st (e # evs))) = rpc_server_fd (al_rpc st)
    \<and> loop_fds (listen_loop st (e # evs)) = loop_fds st + mset (event_fds [e])"
proof (cases e)
  case (Connection fd g t stopped)
  with assms accept_connection_fds [of fd g t st] show ?thesis
    by (cases stopped) auto
next
  case (AcceptError stopped)
  with assms show ?thesis by (cases stopped) auto
qed (use assms in auto)

lemma listen_loop_stopped:
  assumes "rpc_running (al_rpc st) = 0" and "list_all (\<lambda>e. \<not> accept_result e) mid" and "accept_result e"
  shows "al_result (listen_loop st (mid @ e # evs)) = Some 0 \<and> rpc_running (al_rpc (listen_loop st (mid @ e # evs))) = 0
    \<and> rpc_server_fd (al_rpc (listen_loop st (mid @ e # evs))) = rpc_server_fd (al_rpc st)
    \<and> loop_fds (listen_loop st (mid @ e # evs)) = loop_fds st + mset (event_fds [e])"
  using assms(1,2)
proof (induction mid arbitrary: st)
  case Nil
  then show ?case using listen_loop_accept_result [OF _ assms(3)] by simp
next
  case (Cons x mid)
  then show ?case by (cases x) simp_all
qed

lemma listen_opened:
  assumes "0 \<le> socket_fd" and "0 \<le> bind_rc" and "0 \<le> listen_rc"
  shows "evmdb_rpc_listen g rpc socket_fd bind_rc listen_rc False evs = listen_loop \<lparr>al_result = None,
    al_rpc = rpc\<lparr>rpc_server_fd := socket_fd, rpc_running := 1\<rparr>, al_g_running = g, al_served = [], al_closed = []\<rparr> evs"
  using assms by (simp add: evmdb_rpc_listen_def)

lemma listen_blocks:
  assumes "0 \<le> socket_fd" and "0 \<le> bind_rc" and "0 \<le> listen_rc" and "list_all (\<lambda>e. \<not> stop_event e) evs"
  shows "al_result (evmdb_rpc_listen g rpc socket_fd bind_rc listen_rc False evs) = None
    \<and> loop_fds (evmdb_rpc_listen g rpc socket_fd bind_rc listen_rc False evs) = mset (event_fds evs)
    \<and> ((\<exists>sig. Signal sig \<in> set evs) \<longrightarrow> al_g_running (evmdb_rpc_listen g rpc socket_fd bind_rc listen_rc False evs) = 0)"
  unfolding listen_opened [OF assms(1-3)] using listen_loop_running [OF assms(4)] by simp

lemma listen_returns:
  assumes "0 \<le> socket_fd" and "0 \<le> bind_rc" and "0 \<le> listen_rc" and "list_all (\<lambda>e. \<not> stop_event e) evs"
    and "accept_result e"
  shows "list_all (\<lambda>e. \<not> accept_result e) mid \<Longrightarrow>
      returned (evmdb_rpc_listen g rpc socket_fd bind_rc listen_rc False (evs @ StopCall # mid @ e # later))
        socket_fd (event_fds (evs @ [e]))"
    and "stop_event e \<Longrightarrow> returned (evmdb_rpc_listen g rpc socket_fd bind_rc listen_rc False (evs @ e # later))
        socket_fd (event_fds (evs @ [e]))"
proof -
  let ?s = "\<lparr>al_result = None, al_rpc = rpc\<lparr>rpc_server_fd := socket_fd, rpc_running := 1\<rparr>, al_g_running = g,
    al_served = [], al_closed = []\<rparr>"
  note run = listen_loop_running [OF assms(4), of ?s, simplified]
  show "returned (evmdb_rpc_listen g rpc socket_fd bind_rc listen_rc False (evs @ StopCall # mid @ e # later))
      socket_fd (event_fds (evs @ [e]))" if "list_all (\<lambda>e. \<not> accept_result e) mid"
    using listen_loop_stopped [OF _ that assms(5), of "stop_if True (listen_loop ?s evs)" later] run
    by (simp add: listen_opened [OF assms(1-3)] returned_def event_fds_append)
  show "returned (evmdb_rpc_listen g rpc socket_fd bind_rc listen_rc False (evs @ e # later))
      socket_fd (event_fds (evs @ [e]))" if "stop_event e"
    using listen_loop_accept_result [of "listen_loop ?s evs" e later] that assms(5) run
    by (simp add: listen_opened [OF assms(1-3)] returned_def event_fds_append)
qed

lemma listen_stopped_early:
  assumes "0 \<le> socket_fd" and "0 \<le> bind_rc" and "0 \<le> listen_rc"
  shows "returned (evmdb_rpc_listen g rpc socket_fd bind_rc listen_rc True evs) socket_fd []"
  using assms by (simp add: evmdb_rpc_listen_def returned_def stop_if_def evmdb_rpc_stop_def loop_fds_def)

text \<open>
  C24: the accept loop ends when it is told to: once the sockets are set up, \<open>evmdb_rpc_listen\<close> does not
  return as long as nobody calls \<open>evmdb_rpc_stop\<close>. After a stop call that finds it blocked in \<open>accept\<close> it returns
  0 at the very next result of \<open>accept\<close> (which the shutdown of the socket forces), whatever signals and
  further stop calls come in between; after a stop call between the return of \<open>accept\<close> and the test of the
  flag it returns without another \<open>accept\<close>, and after one before the first test without any. It serves no
  connection behind that point. Every connection that was accepted until then was handed to a thread or
  closed: no descriptor is lost.
\<close>

theorem listen_stops:
  assumes "0 \<le> socket_fd" and "0 \<le> bind_rc" and "0 \<le> listen_rc" and "list_all (\<lambda>e. \<not> stop_event e) evs"
  shows "al_result (evmdb_rpc_listen g rpc socket_fd bind_rc listen_rc False evs) = None
    \<and> loop_fds (evmdb_rpc_listen g rpc socket_fd bind_rc listen_rc False evs) = mset (event_fds evs)
    \<and> (\<forall>mid e later. list_all (\<lambda>e. \<not> accept_result e) mid \<and> accept_result e \<longrightarrow>
        returned (evmdb_rpc_listen g rpc socket_fd bind_rc listen_rc False (evs @ StopCall # mid @ e # later))
          socket_fd (event_fds (evs @ [e])))
    \<and> (\<forall>e later. accept_result e \<and> stop_event e \<longrightarrow>
        returned (evmdb_rpc_listen g rpc socket_fd bind_rc listen_rc False (evs @ e # later))
          socket_fd (event_fds (evs @ [e])))
    \<and> returned (evmdb_rpc_listen g rpc socket_fd bind_rc listen_rc True evs) socket_fd []"
  using listen_blocks [OF assms, of g rpc] listen_returns [OF assms] listen_stopped_early [OF assms(1-3), of g rpc evs]
  by blast

theorem listen_stops_witness:
  "returned (evmdb_rpc_listen 1 sample_rpc 3 0 0 False
      [Connection 7 True True False, Signal 2, StopCall, Signal 2, AcceptError False]) 3 [7]
   \<and> returned (evmdb_rpc_listen 1 sample_rpc 3 0 0 False [Connection 7 True True False, Signal 2, Connection 8 True False True])
      3 [7, 8]"
proof -
  note stops = listen_stops [of 3 0 0 "[Connection 7 True True False, Signal 2]" 1 sample_rpc, simplified,
    THEN conjunct2, THEN conjunct2]
  from conjunct1 [OF stops, rule_format, of "[Signal 2]" "AcceptError False" "[]"]
    conjunct1 [OF conjunct2 [OF stops], rule_format, of "Connection 8 True False True" "[]"]
  show ?thesis by simp
qed

text \<open>A failed \<open>bind\<close> or \<open>listen\<close> closes the socket but keeps its number, and \<open>evmdb_rpc_destroy\<close> closes it again.\<close>

lemma listen_failure_closes_twice:
  assumes "0 \<le> socket_fd" and "bind_rc < 0 \<or> listen_rc < 0"
  shows "al_result (evmdb_rpc_listen g rpc socket_fd bind_rc listen_rc stopped evs) = Some (-1)
    \<and> al_closed (evmdb_rpc_listen g rpc socket_fd bind_rc listen_rc stopped evs) = [socket_fd]
    \<and> evmdb_rpc_destroy (Some (al_rpc (evmdb_rpc_listen g rpc socket_fd bind_rc listen_rc stopped evs))) = [socket_fd]"
  using assms by (auto simp: evmdb_rpc_listen_def evmdb_rpc_destroy_def Let_def)

end
