(* ===== verification/Evm_Main.thy ===== *)
theory Evm_Main
  imports Evm_Config Evm_Server_Props
begin

text \<open>
  Logging, \<^verbatim>\<open>src/core/log.c\<close>, and start-up, \<^verbatim>\<open>src/main.c\<close>: the level filter and the format of a log line, the
  signal handler, the order of set-up and clean-up, and the exit code.

  \<open>run_env\<close> is what start-up gets from the operating system and the libraries: the allocator, the Redis
  connection, whether evmone could be created, what the socket calls return, the value of \<open>g_running\<close> when
  the server starts to listen, and what happens while it listens: results of \<open>accept\<close>, stop calls and signals.
\<close>

subsection \<open>Logging\<close>

text \<open>Levels are the numbers of \<open>evmdb_log_level_t\<close>: error, warning, information, debug.\<close>

definition level_str :: "nat \<Rightarrow> string" where
  "level_str l = [''ERROR'', ''WARN '', ''INFO '', ''DEBUG''] ! l"

definition level_color :: "nat \<Rightarrow> string" where
  "level_color l = CHR 0x1B # [''[31m'', ''[33m'', ''[32m'', ''[36m''] ! l"

text \<open>\<open>%02d\<close> and \<open>%03ld\<close> of a non-negative number.\<close>

definition pad :: "nat \<Rightarrow> nat \<Rightarrow> string" where
  "pad width n = (let t = print_base 10 n in replicate (width - length t) (CHR ''0'') @ t)"

record clock_time =
  tm_hour :: nat
  tm_min :: nat
  tm_sec :: nat
  tm_nsec :: nat

text \<open>\<open>strrchr(file, '/')\<close>: the part behind the last slash.\<close>

definition file_basename :: "string \<Rightarrow> string" where
  "file_basename file = rev (takeWhile (\<lambda>c. c \<noteq> CHR ''/'') (rev file))"

text \<open>The enumeration has no negative member and an unsigned type, as GCC and Clang choose it.\<close>

definition evmdb_log_init :: "int \<Rightarrow> nat" where
  "evmdb_log_init level = unat (word_of_int level :: 32 word)"

text \<open>The text written to \<open>stderr\<close>, \<open>None\<close> when the level is filtered out; \<open>message\<close> is the formatted message.\<close>

definition evmdb_log_write :: "nat \<Rightarrow> clock_time \<Rightarrow> nat \<Rightarrow> string \<Rightarrow> nat \<Rightarrow> string \<Rightarrow> string option" where
  "evmdb_log_write g_level now level file line message =
     (if level > g_level then None
      else Some (level_color level @ pad 2 (tm_hour now) @ '':'' @ pad 2 (tm_min now) @ '':'' @ pad 2 (tm_sec now)
             @ ''.'' @ pad 3 (tm_nsec now div 1000000) @ '' ['' @ level_str level @ '']'' @ [CHR 0x1B] @ ''[0m ''
             @ file_basename file @ '':'' @ print_base 10 line @ '': '' @ message @ [CHR 0x0A]))"

lemma pad_width: "n < 10 ^ Suc k \<Longrightarrow> length (pad (Suc k) n) = Suc k"
  using length_print_base [of 10 n k] by (simp add: pad_def Let_def)

lemma file_basename_no_slash: "CHR ''/'' \<notin> set (file_basename file)"
  by (auto simp: file_basename_def dest: set_takeWhileD)

subsection \<open>Start-up\<close>

record 'r run_env =
  ru_alloc :: "nat \<Rightarrow> bool"
  ru_redis :: "'r redis"
  ru_connect :: "string \<Rightarrow> int \<Rightarrow> 'r option"
  ru_evmone :: bool
  ru_socket :: int
  ru_bind :: int
  ru_listen :: int
  ru_g_running :: int
  ru_stopped :: bool
  ru_events :: "server_event list"

text \<open>
  The part of \<open>run\<close> up to \<open>evmdb_rpc_listen\<close>: the state of the accept loop, \<open>None\<close> when start-up failed. Then
  the exit code of \<open>run\<close> and the file descriptors the clean-up closes; \<open>None\<close> while the server is listening.
  The return value of \<open>evmdb_rpc_listen\<close> is not used.
\<close>

definition run_loop :: "'r run_env \<Rightarrow> evmdb_config \<Rightarrow> accept_loop option" where
  "run_loop env cfg =
     (case evmdb_state_init (ru_redis env) (ru_connect env) (redis_host cfg) (redis_port cfg)
             (redis_password cfg) (redis_db cfg) of
        Inl _ \<Rightarrow> None
      | Inr state \<Rightarrow>
          (case evmdb_evm_create (ru_alloc env) (ru_evmone env) of
             None \<Rightarrow> None
           | Some evm \<Rightarrow>
               (case evmdb_rpc_create (ru_alloc env) (Some evm) (chain_id cfg) (gas_limit cfg) (base_fee cfg) of
                  None \<Rightarrow> None
                | Some rpc \<Rightarrow>
                    Some (evmdb_rpc_listen (ru_g_running env) rpc (ru_socket env) (ru_bind env) (ru_listen env)
                      (ru_stopped env) (ru_events env)))))"

definition run :: "'r run_env \<Rightarrow> evmdb_config \<Rightarrow> (int \<times> int list) option" where
  "run env cfg =
     (case run_loop env cfg of
        None \<Rightarrow> Some (1, [])
      | Some st \<Rightarrow>
          (case al_result st of
             None \<Rightarrow> None
           | Some _ \<Rightarrow> Some (0, evmdb_rpc_destroy (Some (al_rpc st)))))"

text \<open>
  \<open>main\<close>: \<open>files\<close> gives the contents of the files that can be opened. A configuration file that cannot be
  opened leaves the defaults. The result is the configuration, the log level and what \<open>run\<close> gives.
\<close>

definition main :: "'r run_env \<Rightarrow> (string \<Rightarrow> string option) \<Rightarrow> string list
    \<Rightarrow> evmdb_config \<times> nat \<times> (int \<times> int list) option" where
  "main env files argv =
     (let config_path = (if length argv > 1 then argv ! 1 else ''config/evmdb.toml'');
          (_, cfg) = evmdb_config_load evmdb_config_defaults (files config_path)
      in (cfg, evmdb_log_init (log_level cfg), run env cfg))"

subsection \<open>Properties\<close>

text \<open>Start-up failures: each gives exit code 1, and the server never starts.\<close>

lemma run_setup_failure:
  "(\<exists>e. evmdb_state_init (ru_redis env) (ru_connect env) (redis_host cfg) (redis_port cfg)
      (redis_password cfg) (redis_db cfg) = Inl e) \<or> \<not> ru_evmone env \<or> \<not> ru_alloc env 16 \<or> \<not> ru_alloc env 48
    \<Longrightarrow> run env cfg = Some (1, [])"
  by (auto simp: run_def run_loop_def evmdb_evm_create_def evmdb_rpc_create_def split: sum.split option.split)

lemma run_listens:
  assumes "evmdb_state_init (ru_redis env) (ru_connect env) (redis_host cfg) (redis_port cfg)
      (redis_password cfg) (redis_db cfg) = Inr state"
    and "ru_alloc env = (\<lambda>_. True)" and "ru_evmone env"
  obtains rpc where "run_loop env cfg = Some (evmdb_rpc_listen (ru_g_running env) rpc (ru_socket env) (ru_bind env)
      (ru_listen env) (ru_stopped env) (ru_events env))"
  using assms by (simp add: run_loop_def evmdb_evm_create_def evmdb_rpc_create_def)

lemma destroy_returned: "returned st fd fds \<Longrightarrow> 0 \<le> fd \<Longrightarrow>
    al_result st = Some 0 \<and> evmdb_rpc_destroy (Some (al_rpc st)) = [fd]"
  by (simp add: returned_def evmdb_rpc_destroy_def)

text \<open>
  C28: how the program ends once Redis answers and the handles are created. When the port cannot be bound
  or listened on it exits with code 0, as after an orderly end, and closes the server's descriptor a
  second time; without a socket it exits with 0 too. It ends after a stop call, again with 0. It does not
  end because of a signal: whatever \<open>SIGINT\<close> and \<open>SIGTERM\<close> arrive while it listens, without a stop call it keeps
  listening, although the handler has cleared \<open>g_running\<close>; the loop tests another flag. This is against the
  comment at the call of \<open>evmdb_rpc_listen\<close> in \<^verbatim>\<open>src/main.c\<close>, which says that it blocks until a stop call or SIGINT.
\<close>

theorem run_outcomes:
  assumes start: "evmdb_state_init (ru_redis env) (ru_connect env) (redis_host cfg) (redis_port cfg)
      (redis_password cfg) (redis_db cfg) = Inr state" "ru_alloc env = (\<lambda>_. True)" "ru_evmone env"
  defines "opened \<equiv> 0 \<le> ru_socket env \<and> 0 \<le> ru_bind env \<and> 0 \<le> ru_listen env"
  shows "(ru_socket env < 0 \<longrightarrow> run env cfg = Some (0, []))
    \<and> (0 \<le> ru_socket env \<and> \<not> opened \<longrightarrow> run env cfg = Some (0, [ru_socket env]))
    \<and> (opened \<and> \<not> ru_stopped env \<and> list_all (\<lambda>e. \<not> stop_event e) (ru_events env) \<longrightarrow> run env cfg = None
        \<and> ((\<exists>sig. Signal sig \<in> set (ru_events env)) \<longrightarrow> (\<exists>st. run_loop env cfg = Some st \<and> al_g_running st = 0)))
    \<and> (opened \<and> ru_stopped env \<longrightarrow> run env cfg = Some (0, [ru_socket env]))
    \<and> (\<forall>evs mid e later. opened \<and> \<not> ru_stopped env \<and> ru_events env = evs @ StopCall # mid @ e # later
        \<and> list_all (\<lambda>e. \<not> stop_event e) evs \<and> list_all (\<lambda>e. \<not> accept_result e) mid \<and> accept_result e
        \<longrightarrow> run env cfg = Some (0, [ru_socket env]))"
proof -
  obtain rpc where loop: "run_loop env cfg = Some (evmdb_rpc_listen (ru_g_running env) rpc (ru_socket env)
      (ru_bind env) (ru_listen env) (ru_stopped env) (ru_events env))"
    using run_listens [OF start] by blast
  have no_socket: "run env cfg = Some (0, [])" if "ru_socket env < 0"
    using that by (simp add: run_def loop evmdb_rpc_listen_def evmdb_rpc_destroy_def)
  have failed: "run env cfg = Some (0, [ru_socket env])" if "0 \<le> ru_socket env" "\<not> opened"
    using listen_failure_closes_twice [of "ru_socket env" "ru_bind env" "ru_listen env" "ru_g_running env" rpc
        "ru_stopped env" "ru_events env"] that
    by (auto simp: run_def loop opened_def)
  have blocked: "run env cfg = None \<and> ((\<exists>sig. Signal sig \<in> set (ru_events env)) \<longrightarrow>
      (\<exists>st. run_loop env cfg = Some st \<and> al_g_running st = 0))"
    if "opened" "\<not> ru_stopped env" "list_all (\<lambda>e. \<not> stop_event e) (ru_events env)"
    using listen_blocks [of "ru_socket env" "ru_bind env" "ru_listen env" "ru_events env" "ru_g_running env" rpc] that
    by (simp add: run_def loop opened_def)
  have early: "run env cfg = Some (0, [ru_socket env])" if "opened" "ru_stopped env"
    using destroy_returned [OF listen_stopped_early [of "ru_socket env" "ru_bind env" "ru_listen env" "ru_g_running env"
        rpc "ru_events env"]] that
    by (simp add: run_def loop opened_def)
  have stopped: "run env cfg = Some (0, [ru_socket env])"
    if "opened" "\<not> ru_stopped env" "ru_events env = evs @ StopCall # mid @ e # later"
      "list_all (\<lambda>e. \<not> stop_event e) evs" "list_all (\<lambda>e. \<not> accept_result e) mid" "accept_result e" for evs mid e later
    using destroy_returned [OF listen_returns(1) [of "ru_socket env" "ru_bind env" "ru_listen env" evs e mid
        "ru_g_running env" rpc later]] that
    by (simp add: run_def loop opened_def)
  show ?thesis using no_socket failed blocked early stopped by blast
qed

definition sample_run_env :: "server_event list \<Rightarrow> keyspace run_env" where
  "sample_run_env evs = \<lparr>ru_alloc = (\<lambda>_. True), ru_redis = redis_mem, ru_connect = (\<lambda>_ _. Some Map.empty), ru_evmone = True,
     ru_socket = 3, ru_bind = 0, ru_listen = 0, ru_g_running = 1, ru_stopped = False, ru_events = evs\<rparr>"

theorem run_outcomes_witness:
  "run (sample_run_env [Signal 2, AcceptError False]) evmdb_config_defaults = None
   \<and> run (sample_run_env [AcceptError False, StopCall, AcceptError False]) evmdb_config_defaults = Some (0, [3])"
proof -
  have start: "evmdb_state_init (ru_redis (sample_run_env evs)) (ru_connect (sample_run_env evs))
      (redis_host evmdb_config_defaults) (redis_port evmdb_config_defaults) (redis_password evmdb_config_defaults)
      (redis_db evmdb_config_defaults) = Inr Map.empty" "ru_alloc (sample_run_env evs) = (\<lambda>_. True)"
      "ru_evmone (sample_run_env evs)" for evs
    by (simp_all add: evmdb_state_init_def sample_run_env_def evmdb_config_defaults_def)
  have "run (sample_run_env [Signal 2, AcceptError False]) evmdb_config_defaults = None"
    using run_outcomes [OF start, of "[Signal 2, AcceptError False]"] by (simp add: sample_run_env_def)
  moreover have "\<forall>evs mid e later. [AcceptError False, StopCall, AcceptError False] = evs @ StopCall # mid @ e # later
      \<and> list_all (\<lambda>e. \<not> stop_event e) evs \<and> list_all (\<lambda>e. \<not> accept_result e) mid \<and> accept_result e
      \<longrightarrow> run (sample_run_env [AcceptError False, StopCall, AcceptError False]) evmdb_config_defaults = Some (0, [3])"
    using run_outcomes [OF start, of "[AcceptError False, StopCall, AcceptError False]"] by (simp add: sample_run_env_def)
  then have "run (sample_run_env [AcceptError False, StopCall, AcceptError False]) evmdb_config_defaults = Some (0, [3])"
    by (elim allE [of _ "[AcceptError False]"] allE [of _ "[]"] allE [of _ "AcceptError False"]) simp
  ultimately show ?thesis by simp
qed

end
