(* ===== verification/Spec2Isabelle.thy ===== *)
theory Spec2Isabelle
  imports Evm_Exec_Props Evm_Keccak_Ref Evm_Gas Evm_Balance Evm_Tx_Type Evm_Producer Evm_Batch Evm_Sample Evm_Main
begin

text \<open>
  A verification library for evmdb, an Ethereum JSON-RPC node in C that keeps its state in Redis.

  \<^bold>\<open>The program.\<close> \<^verbatim>\<open>src/main.c\<close> reads a configuration (\<^verbatim>\<open>src/core/config.c\<close>), connects to Redis
  (\<^verbatim>\<open>src/state/redis_state.c\<close>), creates evmone and the RPC handle, and enters the accept loop of
  \<^verbatim>\<open>src/rpc/server.c\<close>. A connection is one HTTP request; its body goes to the dispatcher of
  \<^verbatim>\<open>src/rpc/handlers.c\<close>, which reads the text with \<^verbatim>\<open>src/rpc/json.c\<close>. The query methods read Redis
  through the state layer. \<open>eth_sendRawTransaction\<close> decodes the transaction and recovers its sender
  (\<^verbatim>\<open>src/block/tx.c\<close>), executes it (\<^verbatim>\<open>src/evm/executor.c\<close>), which runs evmone against a storage overlay
  and commits the overlay, and writes block number and receipt. Below are hexadecimal text, Keccak-256,
  256-bit balances and gas (\<^verbatim>\<open>src/core/hex.c\<close>, \<^verbatim>\<open>src/core/keccak.c\<close>, \<^verbatim>\<open>src/state/accounts.c\<close>,
  \<^verbatim>\<open>src/evm/gas.c\<close>). The block producer (\<^verbatim>\<open>src/block/producer.c\<close>) is not part of the build.

  \<^bold>\<open>Theories.\<close>
  \<^item> \<open>Evm_Prelude\<close>, \<open>Evm_Clib\<close>: machine words, byte lists, the error type \<open>cres\<close> with \<open>bindE\<close>, big-endian
    values; the C library functions the sources call (\<open>snprintf\<close>, \<open>strstr\<close>, \<open>strtoull\<close>, \<open>atoi\<close>, ...).
  \<^item> \<open>Evm_Hex\<close> (\<^verbatim>\<open>core/hex.c\<close>), \<open>Evm_Keccak\<close> (\<^verbatim>\<open>core/keccak.c\<close>), \<open>Evm_Balance\<close> (\<^verbatim>\<open>state/accounts.c\<close>), \<open>Evm_Gas\<close>
    (\<^verbatim>\<open>evm/gas.c\<close>), \<open>Evm_Types\<close> (\<^verbatim>\<open>include/evmdb/types.h\<close>): the definitions of each file with their lemmas.
    \<open>Evm_Keccak_Ref\<close> is the Keccak specification and the proof that the code computes it.
  \<^item> \<open>Evm_Rlp\<close>, \<open>Evm_Tx\<close>, \<open>Evm_Tx_Type\<close> (\<^verbatim>\<open>block/tx.c\<close>): RLP reader and writer; signing hash, decoder and
    sender recovery; that decoded transactions are well-typed.
  \<^item> \<open>Evm_Redis\<close>: the contract of the Redis commands in use, as the locale \<open>redis_server\<close>, and an in-memory
    server that satisfies it. \<open>Evm_State\<close> (\<^verbatim>\<open>state/redis_state.c\<close>): every getter and setter. \<open>Evm_World\<close>: the
    abstract world (nonces, balances, code, storage, receipts, block number), the well-formedness
    \<open>wf_db\<close> of a keyspace, and that the state layer refines reads and updates of the world.
  \<^item> \<open>Evm_Exec\<close> (\<^verbatim>\<open>evm/executor.c\<close>): overlay, host interface, contract execution, transactions and calls.
    evmone is a parameter: for a message and a code, a well-founded tree of host calls and a result.
    \<open>Evm_Exec_Correct\<close>: the overlay as an instance of the locale \<open>journal\<close>, frames and effects of execution.
    \<open>Evm_Exec_Props\<close>: the properties of transactions and calls.
  \<^item> \<open>Evm_Json\<close> (\<^verbatim>\<open>rpc/json.c\<close>), \<open>Evm_Handlers\<close> (\<^verbatim>\<open>rpc/handlers.c\<close>): the request reader, every method, dispatch and
    batches. \<open>Evm_Handlers_Props\<close>: the query methods from text to text. \<open>Evm_Send\<close>: \<open>eth_sendRawTransaction\<close>
    and the read-only methods. \<open>Evm_Sample\<close>: a signed transfer served on a concrete keyspace.
    \<open>Evm_Batch\<close>: a batch is the sequence of its requests.
  \<^item> \<open>Evm_Server\<close>, \<open>Evm_Server_Props\<close> (\<^verbatim>\<open>rpc/server.c\<close>, \<^verbatim>\<open>net/tcp.c\<close>): framing of one connection, the accept loop.
  \<^item> \<open>Evm_Config\<close> (\<^verbatim>\<open>core/config.c\<close>), \<open>Evm_Main\<close> (\<^verbatim>\<open>core/log.c\<close>, \<^verbatim>\<open>main.c\<close>): configuration, logging, start-up
    and the exit code.
  \<^item> \<open>Evm_Producer\<close> (\<^verbatim>\<open>block/producer.c\<close>): the pool of pending transactions and sealing, as a step relation.

  \<^bold>\<open>Modelling.\<close> Machine integers are words of their width, so that sums wrap as in C; arrays are byte
  lists, fixed arrays with a length invariant; C strings are texts without their NUL. A C function that
  returns -1 is \<open>Inl RcError\<close>, a read or write outside a block or through a null pointer is
  \<open>Inl OutOfBounds\<close>, a loop that does not end is \<open>Inl Diverges\<close>. State is passed explicitly: the Redis
  connection has an arbitrary type \<open>'r\<close>, and the laws of \<open>redis_server\<close> say what its keyspace is. The
  allocator is a predicate on sizes, so that every branch for a refused allocation is covered.
  Uninitialised memory is an argument. libsecp256k1, evmone, the clock and what the socket calls
  return are parameters too.

  \<^bold>\<open>What is shown.\<close> Sending a transaction either changes nothing or makes exactly the changes a mined
  transaction should make; refused transactions leave no trace, accepted ones cannot be replayed; the
  other methods are read-only and answer with the values of the world; a batch is the sequence of its
  requests; an HTTP request is framed and answered correctly. Round trips hold for RLP, transactions,
  JSON requests, hexadecimal text and configuration files; Keccak, RLP, contract addresses, base fee and
  256-bit arithmetic agree with reference definitions; parsed values fit their buffers and decoded
  transactions are well-typed. The accept loop stops when told to, at whatever point of the loop the
  stop call falls, and loses no descriptor; signals do not stop it. The producer seals every transaction
  once and in order, in a block that holds its hash if the array could be allocated, and a pool that is due
  stays due. Three properties show inputs on which the code reads or writes outside a block.

  \<^bold>\<open>Bounds.\<close> Two loops double a 64-bit capacity and end only when it is large enough: \<open>rlp_grow\<close> has
  fuel 65 and \<open>batch_grow\<close> fuel 66. After 64 doublings the capacity is 0 and stays so, so that running out
  of fuel means that the C loop does not end; the lemmas on them show that below \<open>2 ^ 62\<close> bytes it does.
  Every other loop is a terminating function.

  \<^bold>\<open>Not modelled.\<close> The mutex of the state layer: a Redis command is one step, and a connection is served
  without interference by others. The text of log messages and the banner. The system calls behind
  sockets, and threads beyond the list of connections they are started for; the accept loop is driven by
  a list of events, which are results of \<open>accept\<close>, stop calls and signals. Freeing of memory, except
  where a descriptor or block is used afterwards. The contents of the public headers beyond the types
  they declare.
\<close>

end
